(* ===== verification/Prelude.thy ===== *)
theory Prelude
  imports Main
begin

text \<open>
  What every component of the flash-sale program shares: Go's integers, the decimal rendering
  that \<^verbatim>\<open>fmt.Sprintf("%d")\<close> produces (the Redis keys and order numbers are built with it),
  the error values of the repository together with \<^verbatim>\<open>errors.Is\<close> and \<^verbatim>\<open>Error()\<close>, and
  generic lemmas on lists of rows.
  Go's \<^verbatim>\<open>uint\<close> identifiers are only compared and printed, so they are \<open>nat\<close>; Go's
  \<^verbatim>\<open>int\<close> is \<open>int\<close>, with \<open>wrap64\<close> wherever Go code computes on it.
\<close>

named_theorems row_simps \<open>how the fields of a row survive an update\<close>
named_theorems key_simps \<open>the Redis keys of different purposes never coincide\<close>

section \<open>Integers\<close>

text \<open>Two's complement wrap-around of a 64-bit \<^verbatim>\<open>int\<close>.\<close>

definition wrap64 :: "int \<Rightarrow> int" where
  "wrap64 x = (x + 2 ^ 63) mod 2 ^ 64 - 2 ^ 63"

definition in_int64 :: "int \<Rightarrow> bool" where
  "in_int64 x \<longleftrightarrow> - (2 ^ 63) \<le> x \<and> x < 2 ^ 63"

lemma wrap64_id [simp]: "in_int64 x \<Longrightarrow> wrap64 x = x"
  by (simp add: wrap64_def in_int64_def)

lemma wrap64_range: "in_int64 (wrap64 x)"
  by (simp add: wrap64_def in_int64_def)

section \<open>Decimal rendering\<close>

definition digit_char :: "nat \<Rightarrow> char" where
  "digit_char d = char_of (48 + d)"

fun show_nat :: "nat \<Rightarrow> string" where
  "show_nat n = (if n < 10 then [digit_char n] else show_nat (n div 10) @ [digit_char (n mod 10)])"

declare show_nat.simps [simp del]

definition show_int :: "int \<Rightarrow> string" where
  "show_int i = (if i < 0 then CHR ''-'' # show_nat (nat (- i)) else show_nat (nat i))"

definition is_digit :: "char \<Rightarrow> bool" where
  "is_digit c \<longleftrightarrow> 48 \<le> (of_char c :: nat) \<and> (of_char c :: nat) \<le> 57"

definition read_digits :: "string \<Rightarrow> nat" where
  "read_digits s = foldl (\<lambda>a c. 10 * a + (of_char c - 48)) 0 s"

text \<open>The decimal integer a string denotes: an optional minus sign and at least one digit.\<close>

definition parse_int :: "string \<Rightarrow> int option" where
  "parse_int s =
     (case s of
        [] \<Rightarrow> None
      | c # ds \<Rightarrow>
          if c = CHR ''-''
          then (if ds \<noteq> [] \<and> list_all is_digit ds then Some (- int (read_digits ds)) else None)
          else (if list_all is_digit s then Some (int (read_digits s)) else None))"

lemma of_char_digit_char [simp]: "d < 10 \<Longrightarrow> of_char (digit_char d) = 48 + d"
  by (simp add: digit_char_def)

lemma is_digit_digit_char [simp]: "d < 10 \<Longrightarrow> is_digit (digit_char d)"
  by (simp add: is_digit_def)

lemma show_nat_digits: "list_all is_digit (show_nat n)"
proof (induction n rule: show_nat.induct)
  case (1 n)
  then show ?case by (subst show_nat.simps) simp
qed

lemma show_nat_nonempty [simp]: "show_nat n \<noteq> []"
  by (subst show_nat.simps) simp

lemma read_digits_snoc: "read_digits (s @ [c]) = 10 * read_digits s + (of_char c - 48)"
  by (simp add: read_digits_def)

lemma read_show_nat [simp]: "read_digits (show_nat n) = n"
proof (induction n rule: show_nat.induct)
  case (1 n)
  show ?case
  proof (cases "n < 10")
    case True
    then show ?thesis by (simp add: show_nat.simps [of n] read_digits_def)
  next
    case False
    with "1" show ?thesis by (simp add: show_nat.simps [of n] read_digits_snoc)
  qed
qed

lemma show_nat_inject [simp]: "show_nat m = show_nat n \<longleftrightarrow> m = n"
  by (metis read_show_nat)

lemma not_digit_minus [simp]: "\<not> is_digit (CHR ''-'')"
  by (simp add: is_digit_def)

lemma not_digit_colon [simp]: "\<not> is_digit (CHR '':'')"
  by (simp add: is_digit_def)

lemma parse_show_int [simp]: "parse_int (show_int i) = Some i"
proof (cases "i < 0")
  case True
  then show ?thesis by (simp add: show_int_def parse_int_def show_nat_digits)
next
  case False
  obtain c ds where s: "show_nat (nat i) = c # ds"
    by (metis show_nat_nonempty list.exhaust)
  have dig: "list_all is_digit (show_nat (nat i))"
    by (rule show_nat_digits)
  with s have "c \<noteq> CHR ''-''" by auto
  moreover have "read_digits (c # ds) = nat i"
    by (metis s read_show_nat)
  ultimately show ?thesis
    using False dig s by (simp add: show_int_def parse_int_def)
qed

text \<open>The same on integers, for evaluation.\<close>

function digits_int :: "int \<Rightarrow> string" where
  "digits_int i = (if i < 10 then [digit_char (nat i)] else digits_int (i div 10) @ [digit_char (nat (i mod 10))])"
  by auto
termination by (relation "measure nat") auto

declare digits_int.simps [simp del]

lemma digits_int: "0 \<le> i \<Longrightarrow> digits_int i = show_nat (nat i)"
proof (induction i rule: digits_int.induct)
  case (1 i)
  have "0 \<le> i div 10" using "1.prems" by simp
  moreover have "nat (i div 10) = nat i div 10" "nat (i mod 10) = nat i mod 10" "i < 10 \<longleftrightarrow> nat i < 10"
    using "1.prems" by (simp_all add: nat_div_distrib nat_mod_distrib nat_less_iff)
  ultimately show ?case using "1" by (subst digits_int.simps, subst show_nat.simps) auto
qed

lemma show_int_code [code]: "show_int i = (if i < 0 then CHR ''-'' # digits_int (- i) else digits_int i)"
  by (simp add: show_int_def digits_int)

text \<open>A separator that is no digit splits two digit strings in one way only.\<close>

lemma split_at_separator:
  assumes "list_all P xs" "list_all P xs'" "\<not> P c"
    and "xs @ c # ys = xs' @ c # ys'"
  shows "xs = xs' \<and> ys = ys'"
  using assms
proof (induction xs arbitrary: xs')
  case Nil
  then show ?case by (cases xs') auto
next
  case (Cons x xs)
  then show ?case by (cases xs') auto
qed

section \<open>Errors\<close>

text \<open>
  One value per sentinel error of the repository (\<^verbatim>\<open>errors.New\<close>), GORM's
  \<^verbatim>\<open>ErrRecordNotFound\<close>, go-redis' \<^verbatim>\<open>Nil\<close>, any other error a library reports
  (\<open>ErrExternal\<close>, with its text), errors of \<^verbatim>\<open>encoding/json\<close>, and
  \<^verbatim>\<open>fmt.Errorf\<close> with a wrapped error.
\<close>

datatype go_error =
    ErrRecordNotFound
  | RedisNil
  | ErrExternal string
  | ErrJSON string
  | ErrOptimisticLock
  | InvErrInventoryNotFound
  | InvErrStockInsufficient
  | ErrNoLockedToReturn
  | ErrNoLockedToConfirm
  | ProdErrProductNotFound
  | ErrOrderNotFound
  | ErrOrderNotPending
  | ErrNotOrderOwner
  | ErrProductNotFound
  | ErrProductOffSale
  | ErrStockInsufficient
  | ErrDuplicateOrder
  | ErrNodeRange
  | ErrUserExists
  | ErrEmailExists
  | ErrInvalidCredentials
  | ErrUserNotFound
  | ErrNacosHostRequired
  | ErrNacosInstanceRequired
  | ErrNacosRegisterFalse
  | ErrNoLocalIPv4
  | Errorf string go_error

text \<open>\<^verbatim>\<open>errors.Is\<close>: equal, or wraps an error that is.\<close>

fun errors_is :: "go_error \<Rightarrow> go_error \<Rightarrow> bool" where
  "errors_is (Errorf s e) t = (Errorf s e = t \<or> errors_is e t)"
| "errors_is e t = (e = t)"

fun error_text :: "go_error \<Rightarrow> string" where
  "error_text ErrRecordNotFound = ''record not found''"
| "error_text RedisNil = ''redis: nil''"
| "error_text (ErrExternal s) = s"
| "error_text (ErrJSON s) = s"
| "error_text ErrOptimisticLock = ''optimistic lock conflict''"
| "error_text InvErrInventoryNotFound = ''inventory not found''"
| "error_text InvErrStockInsufficient = ''stock insufficient''"
| "error_text ErrNoLockedToReturn = ''insufficient locked stock to return''"
| "error_text ErrNoLockedToConfirm = ''insufficient locked stock to confirm''"
| "error_text ProdErrProductNotFound = ''product not found''"
| "error_text ErrOrderNotFound = ''order not found''"
| "error_text ErrOrderNotPending = ''order is not in pending status''"
| "error_text ErrNotOrderOwner = ''not the owner of this order''"
| "error_text ErrProductNotFound = ''product not found''"
| "error_text ErrProductOffSale = ''product is not on sale''"
| "error_text ErrStockInsufficient = ''stock insufficient''"
| "error_text ErrDuplicateOrder = ''you have already purchased this product''"
| "error_text ErrNodeRange = ''node ID must be between 0 and 1023''"
| "error_text ErrUserExists = ''username already exists''"
| "error_text ErrEmailExists = ''email already exists''"
| "error_text ErrInvalidCredentials = ''invalid credentials''"
| "error_text ErrUserNotFound = ''user not found''"
| "error_text ErrNacosHostRequired = ''nacos: host is required''"
| "error_text ErrNacosInstanceRequired = ''nacos: service_name and instance_port are required to register''"
| "error_text ErrNacosRegisterFalse = ''nacos: register returned false''"
| "error_text ErrNoLocalIPv4 = ''no non-loopback IPv4 found''"
| "error_text (Errorf s e) = s @ '': '' @ error_text e"

text \<open>What a driver reports that is none of the sentinels: a lost connection, a violated constraint.\<close>

fun is_external :: "go_error \<Rightarrow> bool" where
  "is_external (ErrExternal _) = True"
| "is_external _ = False"

lemma is_externalE [elim]: "is_external e \<Longrightarrow> (\<And>s. e = ErrExternal s \<Longrightarrow> P) \<Longrightarrow> P"
  by (cases e) auto

section \<open>Results\<close>

text \<open>\<^verbatim>\<open>if err != nil { return ..., err }\<close>: the error, or go on with the value.\<close>

definition sum_bind :: "'e + 'a \<Rightarrow> ('a \<Rightarrow> 'e + 'b) \<Rightarrow> 'e + 'b" where
  "sum_bind r f = (case r of Inl e \<Rightarrow> Inl e | Inr x \<Rightarrow> f x)"

lemma sum_bind_simps [simp]: "sum_bind (Inl e) f = Inl e" "sum_bind (Inr x) f = f x"
  by (simp_all add: sum_bind_def)

lemma sum_bind_Inr_iff: "sum_bind r f = Inr y \<longleftrightarrow> (\<exists>x. r = Inr x \<and> f x = Inr y)"
  by (cases r) auto

section \<open>Lists of rows\<close>

text \<open>The row a table holds under a key, where the key is unique.\<close>

lemma find_eq_Some_unique:
  assumes "distinct (map k xs)" "x \<in> set xs" "k x = a"
  shows "find (\<lambda>y. k y = a) xs = Some x"
  using assms
proof (induction xs)
  case Nil
  then show ?case by simp
next
  case (Cons z zs)
  then show ?case by (cases "z = x") (auto simp: rev_image_eqI)
qed

lemma find_map_update:
  assumes "\<And>x. k (f x) = k x"
  shows "find (\<lambda>y. k y = a) (map f xs) = map_option f (find (\<lambda>y. k y = a) xs)"
  using assms by (induction xs) auto

lemma find_append: "find P (xs @ ys) = (case find P xs of None \<Rightarrow> find P ys | Some x \<Rightarrow> Some x)"
  by (induction xs) auto

lemma find_SomeD: "find P xs = Some x \<Longrightarrow> x \<in> set xs \<and> P x"
  by (induction xs) (auto split: if_splits)

lemma map_if_none: "(\<And>x. x \<in> set xs \<Longrightarrow> \<not> p x) \<Longrightarrow> map (\<lambda>x. if p x then f x else x) xs = xs"
  by (induction xs) auto

lemma length_filter_zero: "length (filter p xs) = 0 \<longleftrightarrow> (\<forall>x\<in>set xs. \<not> p x)"
  by (simp add: filter_empty_conv)

end
