(* ===== verification/Float64.thy ===== *)
theory Float64
  imports Prelude "HOL-Library.Word"
begin

text \<open>
  Go's \<^verbatim>\<open>float64\<close> as its IEEE 754 bit pattern, the representation the payment service itself
  keeps in an \<^verbatim>\<open>atomic.Uint64\<close>. Comparison, conversion from an integer and multiplication,
  rounded to nearest with ties to even, are defined on the bits; they are what the program
  uses: prices times quantities, and the range check of the success rate.
\<close>

type_synonym float64 = "64 word"

section \<open>Decoding\<close>

definition f64_neg :: "float64 \<Rightarrow> bool" where
  "f64_neg b \<longleftrightarrow> 2 ^ 63 \<le> unat b"

definition f64_exp :: "float64 \<Rightarrow> nat" where
  "f64_exp b = (unat b div 2 ^ 52) mod 2 ^ 11"

definition f64_frac :: "float64 \<Rightarrow> nat" where
  "f64_frac b = unat b mod 2 ^ 52"

definition f64_is_nan :: "float64 \<Rightarrow> bool" where
  "f64_is_nan b \<longleftrightarrow> f64_exp b = 2047 \<and> f64_frac b \<noteq> 0"

definition f64_is_inf :: "float64 \<Rightarrow> bool" where
  "f64_is_inf b \<longleftrightarrow> f64_exp b = 2047 \<and> f64_frac b = 0"

definition f64_is_finite :: "float64 \<Rightarrow> bool" where
  "f64_is_finite b \<longleftrightarrow> f64_exp b \<noteq> 2047"

text \<open>A finite value is \<open>(-1)\<^bsup>sign\<^esup> \<cdot> sig \<cdot> 2\<^bsup>ulp\<^esup>\<close>.\<close>

definition f64_sig :: "float64 \<Rightarrow> nat" where
  "f64_sig b = (if f64_exp b = 0 then f64_frac b else 2 ^ 52 + f64_frac b)"

definition f64_ulp :: "float64 \<Rightarrow> int" where
  "f64_ulp b = int (if f64_exp b = 0 then 1 else f64_exp b) - 1075"

section \<open>Comparison\<close>

text \<open>The magnitude bits with the sign: an integer that orders all values but the NaNs.\<close>

definition f64_key :: "float64 \<Rightarrow> int" where
  "f64_key b = (if f64_neg b then - int (unat b - 2 ^ 63) else int (unat b))"

definition f64_lt :: "float64 \<Rightarrow> float64 \<Rightarrow> bool" where
  "f64_lt a b \<longleftrightarrow> \<not> f64_is_nan a \<and> \<not> f64_is_nan b \<and> f64_key a < f64_key b"

definition f64_eq :: "float64 \<Rightarrow> float64 \<Rightarrow> bool" where
  "f64_eq a b \<longleftrightarrow> \<not> f64_is_nan a \<and> \<not> f64_is_nan b \<and> f64_key a = f64_key b"

definition f64_zero :: float64 where
  "f64_zero = 0"

definition f64_one :: float64 where
  "f64_one = 0x3FF0000000000000"

definition f64_nan :: float64 where
  "f64_nan = 0x7FF8000000000001"

section \<open>Rounding and arithmetic\<close>

fun bitlen :: "nat \<Rightarrow> nat" where
  "bitlen n = (if n = 0 then 0 else Suc (bitlen (n div 2)))"

declare bitlen.simps [simp del]

text \<open>The integer nearest to \<open>m / 2\<^sup>k\<close>, the even one of two equally near.\<close>

definition round_shift :: "nat \<Rightarrow> nat \<Rightarrow> nat" where
  "round_shift m k =
     (let q = m div 2 ^ k; r = m mod 2 ^ k in
      if 2 * r > 2 ^ k \<or> (2 * r = 2 ^ k \<and> odd q) then q + 1 else q)"

text \<open>
  \<open>f64_round s m e\<close> is the value nearest to \<open>(-1)\<^bsup>s\<^esup> \<cdot> m \<cdot> 2\<^bsup>e\<^esup>\<close>. The exponent of the last
  place is the one that leaves 53 bits, but never below that of the subnormals; a carry out of
  the rounded significand moves into the exponent field by itself.
\<close>

definition f64_round :: "bool \<Rightarrow> nat \<Rightarrow> int \<Rightarrow> float64" where
  "f64_round s m e =
     (let u = max (e + int (bitlen m) - 53) (- 1074);
          m' = (if u \<le> e then m * 2 ^ nat (e - u) else round_shift m (nat (u - e)));
          bits = (if m = 0 then 0 else nat (u + 1074) * 2 ^ 52 + m');
          mag = min bits (2047 * 2 ^ 52)
      in of_nat ((if s then 2 ^ 63 else 0) + mag))"

definition f64_of_int :: "int \<Rightarrow> float64" where
  "f64_of_int i = f64_round (i < 0) (nat \<bar>i\<bar>) 0"

definition f64_inf :: "bool \<Rightarrow> float64" where
  "f64_inf s = of_nat ((if s then 2 ^ 63 else 0) + 2047 * 2 ^ 52)"

definition f64_mul :: "float64 \<Rightarrow> float64 \<Rightarrow> float64" where
  "f64_mul a b =
     (let s = (f64_neg a \<noteq> f64_neg b) in
      if f64_is_nan a \<or> f64_is_nan b then f64_nan
      else if f64_is_inf a \<or> f64_is_inf b
        then (if f64_sig a = 0 \<and> f64_is_finite a \<or> f64_sig b = 0 \<and> f64_is_finite b
              then f64_nan else f64_inf s)
      else f64_round s (f64_sig a * f64_sig b) (f64_ulp a + f64_ulp b))"

lemma zero_below_one: "\<not> f64_lt f64_zero f64_zero" "f64_lt f64_zero f64_one"
  by (simp_all add: f64_lt_def f64_key_def f64_neg_def f64_is_nan_def f64_exp_def f64_frac_def f64_zero_def f64_one_def)

section \<open>Multiplying by one is exact\<close>

lemma f64_of_int_one: "f64_of_int 1 = f64_one"
  by (simp add: f64_of_int_def f64_round_def f64_one_def bitlen.simps Let_def round_shift_def)

lemma bitlen_zero [simp]: "bitlen 0 = 0"
  by (simp add: bitlen.simps)

lemma bitlen_double: "0 < n \<Longrightarrow> bitlen (2 * n) = Suc (bitlen n)"
  by (subst bitlen.simps) simp

lemma bitlen_shift: "0 < n \<Longrightarrow> bitlen (n * 2 ^ k) = bitlen n + k"
proof (induction k)
  case 0
  then show ?case by simp
next
  case (Suc k)
  have "bitlen (n * 2 ^ Suc k) = bitlen (2 * (n * 2 ^ k))" by (simp add: mult.left_commute)
  also have "\<dots> = Suc (bitlen (n * 2 ^ k))" using Suc.prems by (intro bitlen_double) simp
  finally show ?case using Suc by simp
qed

lemma bitlen_le: "n < 2 ^ k \<Longrightarrow> bitlen n \<le> k"
proof (induction k arbitrary: n)
  case 0
  then show ?case by simp
next
  case (Suc k)
  then have "bitlen (n div 2) \<le> k" by (intro Suc.IH) simp
  then show ?case by (subst bitlen.simps) simp
qed

lemma bitlen_ge: "2 ^ k \<le> n \<Longrightarrow> Suc k \<le> bitlen n"
proof (induction k arbitrary: n)
  case 0
  then show ?case by (subst bitlen.simps) simp
next
  case (Suc k)
  then have "2 ^ k \<le> n div 2" by simp
  then have "Suc k \<le> bitlen (n div 2)" by (rule Suc.IH)
  moreover have "n \<noteq> 0" using Suc.prems by (metis not_one_le_zero power_eq_0_iff le_zero_eq zero_neq_numeral)
  ultimately show ?case by (subst bitlen.simps) simp
qed

lemma round_shift_exact: "round_shift (m * 2 ^ k) k = m"
  by (simp add: round_shift_def)

lemma f64_frac_less: "f64_frac b < 2 ^ 52"
  by (simp add: f64_frac_def)

lemma f64_exp_less: "f64_exp b < 2048"
  by (simp add: f64_exp_def)

lemma f64_fields: "unat b = (if f64_neg b then 2 ^ 63 else 0) + (f64_exp b * 2 ^ 52 + f64_frac b)"
proof -
  have lt: "unat b < 2 ^ 64" using unsigned_less [of b] by simp
  define n where "n = unat b"
  have "n = (if 2 ^ 63 \<le> n then 2 ^ 63 else 0) + n mod 2 ^ 63"
    using lt by (auto simp: n_def [symmetric] le_mod_geq)
  moreover have "n mod 2 ^ 63 = (n div 2 ^ 52) mod 2 ^ 11 * 2 ^ 52 + n mod 2 ^ 52"
    by (simp add: mod_mult2_eq [of n "2 ^ 52" "2 ^ 11", simplified])
  ultimately show ?thesis
    by (simp add: f64_neg_def f64_exp_def f64_frac_def n_def)
qed

lemma f64_eqI: "unat b = n \<Longrightarrow> of_nat n = b" for b :: float64
  by auto

lemma f64_one_parts:
  "f64_sig f64_one = 2 ^ 52" "f64_ulp f64_one = - 52" "\<not> f64_neg f64_one"
  "\<not> f64_is_nan f64_one" "\<not> f64_is_inf f64_one" "f64_is_finite f64_one"
  by (simp_all add: f64_one_def f64_sig_def f64_ulp_def f64_neg_def f64_is_nan_def f64_is_inf_def
      f64_is_finite_def f64_exp_def f64_frac_def)

lemma f64_round_exact:
  assumes fin: "f64_is_finite p"
  shows "f64_round (f64_neg p) (f64_sig p * 2 ^ 52) (f64_ulp p - 52) = p"
proof (cases "f64_sig p = 0")
  case True
  then have "f64_exp p = 0" "f64_frac p = 0"
    by (auto simp: f64_sig_def split: if_splits)
  then have "unat p = (if f64_neg p then 2 ^ 63 else 0)" by (simp add: f64_fields [of p])
  then show ?thesis using True by (simp add: f64_round_def Let_def f64_eqI)
next
  case False
  have el: "f64_exp p < 2047"
    using fin f64_exp_less [of p] by (simp add: f64_is_finite_def)
  have u: "max (f64_ulp p - 52 + int (bitlen (f64_sig p * 2 ^ 52)) - 53) (- 1074) = f64_ulp p"
  proof (cases "f64_exp p = 0")
    case True
    then have "bitlen (f64_sig p) \<le> 52"
      using f64_frac_less [of p] by (intro bitlen_le) (simp add: f64_sig_def)
    then show ?thesis using True False by (simp add: bitlen_shift [of _ 52, simplified] f64_ulp_def)
  next
    case nz: False
    have "bitlen (f64_sig p) = 53"
      using nz f64_frac_less [of p] bitlen_le [of "f64_sig p" 53] bitlen_ge [of 52 "f64_sig p"]
      by (simp add: f64_sig_def)
    then show ?thesis using nz False by (simp add: bitlen_shift [of _ 52, simplified] f64_ulp_def)
  qed
  have bits: "nat (f64_ulp p + 1074) * 2 ^ 52 + f64_sig p = f64_exp p * 2 ^ 52 + f64_frac p"
  proof (cases "f64_exp p")
    case 0
    then show ?thesis by (simp add: f64_ulp_def f64_sig_def)
  next
    case (Suc n)
    then have "nat (f64_ulp p + 1074) = n" by (simp add: f64_ulp_def)
    then show ?thesis using Suc by (simp add: f64_sig_def)
  qed
  have "f64_exp p * 2 ^ 52 + f64_frac p < (f64_exp p + 1) * 2 ^ 52"
    using f64_frac_less [of p] by simp
  also have "\<dots> \<le> 2047 * 2 ^ 52" using el by (intro mult_right_mono) auto
  finally have m: "min (f64_exp p * 2 ^ 52 + f64_frac p) (2047 * 2 ^ 52) = f64_exp p * 2 ^ 52 + f64_frac p"
    by simp
  have "f64_round (f64_neg p) (f64_sig p * 2 ^ 52) (f64_ulp p - 52)
      = of_nat ((if f64_neg p then 2 ^ 63 else 0) + (f64_exp p * 2 ^ 52 + f64_frac p))"
    using False unfolding f64_round_def u Let_def
    by (simp add: round_shift_exact [of _ 52, simplified] bits [simplified] m [simplified])
  also have "\<dots> = p" by (rule f64_eqI) (rule f64_fields)
  finally show ?thesis .
qed

lemma f64_mul_one:
  assumes "\<not> f64_is_nan p"
  shows "f64_mul p f64_one = p"
proof (cases "f64_is_inf p")
  case True
  then have "unat p = (if f64_neg p then 2 ^ 63 else 0) + 2047 * 2 ^ 52" "f64_sig p \<noteq> 0"
    by (simp_all add: f64_fields [of p] f64_is_inf_def f64_sig_def)
  then show ?thesis
    using assms True f64_eqI [of p]
    by (simp add: f64_mul_def f64_one_parts f64_inf_def Let_def)
next
  case False
  then have "f64_is_finite p"
    using assms by (auto simp: f64_is_finite_def f64_is_nan_def f64_is_inf_def)
  from f64_round_exact [OF this] show ?thesis
    using assms False by (simp add: f64_mul_def f64_one_parts Let_def)
qed

section \<open>Evaluation\<close>

text \<open>Code equations on integers, so that kernel evaluation never counts to \<open>2\<^sup>52\<close> in unary.\<close>

lemma uint_parts:
  "int (f64_exp b) = uint b div 4503599627370496 mod 2048"
  "int (f64_frac b) = uint b mod 4503599627370496"
  by (simp_all add: f64_exp_def f64_frac_def of_nat_div of_nat_mod)

lemma f64_neg_code [code]: "f64_neg b \<longleftrightarrow> 9223372036854775808 \<le> uint b"
proof -
  have "2 ^ 63 \<le> unat b \<longleftrightarrow> int (2 ^ 63) \<le> int (unat b)" by (rule of_nat_le_iff [symmetric])
  then show ?thesis by (simp add: f64_neg_def)
qed

lemma f64_code [code]:
  "f64_is_finite b \<longleftrightarrow> uint b div 4503599627370496 mod 2048 \<noteq> 2047"
  "f64_is_nan b \<longleftrightarrow> uint b div 4503599627370496 mod 2048 = 2047 \<and> uint b mod 4503599627370496 \<noteq> 0"
  "f64_is_inf b \<longleftrightarrow> uint b div 4503599627370496 mod 2048 = 2047 \<and> uint b mod 4503599627370496 = 0"
  unfolding f64_is_finite_def f64_is_nan_def f64_is_inf_def uint_parts [symmetric] by simp_all

lemma f64_key_code [code]:
  "f64_key b = (if 9223372036854775808 \<le> uint b then 9223372036854775808 - uint b else uint b)"
proof (cases "f64_neg b")
  case True
  then have "2 ^ 63 \<le> unat b" by (simp add: f64_neg_def)
  then have "int (unat b - 2 ^ 63) = int (unat b) - int (2 ^ 63)" by (rule of_nat_diff)
  then show ?thesis using True by (simp add: f64_key_def f64_neg_code)
qed (simp add: f64_key_def f64_neg_code)

function bitlen_int :: "int \<Rightarrow> int" where
  "bitlen_int i = (if i \<le> 0 then 0 else 1 + bitlen_int (i div 2))"
  by auto
termination by (relation "measure nat") auto

declare bitlen_int.simps [simp del]

lemma bitlen_int: "bitlen_int (int n) = int (bitlen n)"
proof (induction n rule: bitlen.induct)
  case (1 n)
  have "int (n div 2) = int n div 2" by (rule zdiv_int [of _ 2, simplified])
  then show ?case using "1" by (subst bitlen_int.simps, subst bitlen.simps) auto
qed

definition round_shift_int :: "int \<Rightarrow> nat \<Rightarrow> int" where
  "round_shift_int m k =
     (let q = m div 2 ^ k; r = m mod 2 ^ k in
      if 2 * r > 2 ^ k \<or> (2 * r = 2 ^ k \<and> odd q) then q + 1 else q)"

lemma round_shift_int: "round_shift_int (int m) k = int (round_shift m k)"
proof -
  let ?q = "m div 2 ^ k" and ?r = "m mod 2 ^ k"
  have q: "int m div 2 ^ k = int ?q" and r: "int m mod 2 ^ k = int ?r"
    by (simp_all add: zdiv_int zmod_int)
  have "int (2 ^ k) < int (2 * ?r) \<longleftrightarrow> 2 ^ k < 2 * ?r" "int (2 * ?r) = int (2 ^ k) \<longleftrightarrow> 2 * ?r = 2 ^ k"
    by (rule of_nat_less_iff, rule of_nat_eq_iff)
  then have "2 ^ k < 2 * int ?r \<longleftrightarrow> 2 ^ k < 2 * ?r" "2 * int ?r = 2 ^ k \<longleftrightarrow> 2 * ?r = 2 ^ k"
    by (simp_all only: of_nat_mult of_nat_power of_nat_numeral)
  then show ?thesis unfolding round_shift_int_def round_shift_def Let_def q r by simp
qed

definition f64_round_int :: "bool \<Rightarrow> int \<Rightarrow> int \<Rightarrow> float64" where
  "f64_round_int s m e =
     (let u = max (e + bitlen_int m - 53) (- 1074);
          m' = (if u \<le> e then m * 2 ^ nat (e - u) else round_shift_int m (nat (u - e)));
          bits = (if m = 0 then 0 else (u + 1074) * 4503599627370496 + m');
          mag = min bits 9218868437227405312
      in word_of_int ((if s then 9223372036854775808 else 0) + mag))"

lemma f64_round_int: "f64_round s m e = f64_round_int s (int m) e"
proof -
  let ?u = "max (e + int (bitlen m) - 53) (- 1074)"
  let ?m = "if ?u \<le> e then m * 2 ^ nat (e - ?u) else round_shift m (nat (?u - e))"
  let ?bits = "if m = 0 then 0 else nat (?u + 1074) * 2 ^ 52 + ?m"
  have m: "(if ?u \<le> e then int m * 2 ^ nat (e - ?u) else round_shift_int (int m) (nat (?u - e))) = int ?m"
    by (simp add: round_shift_int)
  have "0 \<le> ?u + 1074" by simp
  then have "int (nat (?u + 1074)) = ?u + 1074" by (rule int_nat_eq [THEN trans, OF if_P])
  then have bits: "(if int m = 0 then 0 else (?u + 1074) * 4503599627370496 + int ?m) = int ?bits"
    by (simp only: of_nat_add of_nat_mult of_nat_eq_0_iff split: if_split) simp
  have "f64_round_int s (int m) e = word_of_int ((if s then 9223372036854775808 else 0) + min (int ?bits) 9218868437227405312)"
    unfolding f64_round_int_def bitlen_int Let_def m bits ..
  also have "\<dots> = word_of_int (int ((if s then 2 ^ 63 else 0) + min ?bits (2047 * 2 ^ 52)))"
    by (simp add: of_nat_min)
  also have "\<dots> = f64_round s m e" unfolding f64_round_def Let_def by simp
  finally show ?thesis ..
qed

definition f64_sig_int :: "float64 \<Rightarrow> int" where
  "f64_sig_int b = (let e = uint b div 4503599627370496 mod 2048; f = uint b mod 4503599627370496 in
     if e = 0 then f else 4503599627370496 + f)"

definition f64_ulp_int :: "float64 \<Rightarrow> int" where
  "f64_ulp_int b = (let e = uint b div 4503599627370496 mod 2048 in if e = 0 then - 1074 else e - 1075)"

lemma f64_sig_int: "int (f64_sig b) = f64_sig_int b"
  unfolding f64_sig_def f64_sig_int_def uint_parts [symmetric] by simp

lemma f64_ulp_int: "f64_ulp b = f64_ulp_int b"
  unfolding f64_ulp_def f64_ulp_int_def uint_parts [symmetric] by simp

lemma f64_of_int_code [code]: "f64_of_int i = f64_round_int (i < 0) \<bar>i\<bar> 0"
  by (simp add: f64_of_int_def f64_round_int)

lemma f64_inf_code [code]: "f64_inf s = (if s then 0xFFF0000000000000 else 0x7FF0000000000000)"
  by (simp add: f64_inf_def)

lemma f64_mul_code [code]:
  "f64_mul a b =
     (let s = (f64_neg a \<noteq> f64_neg b) in
      if f64_is_nan a \<or> f64_is_nan b then f64_nan
      else if f64_is_inf a \<or> f64_is_inf b
        then (if f64_sig_int a = 0 \<and> f64_is_finite a \<or> f64_sig_int b = 0 \<and> f64_is_finite b
              then f64_nan else f64_inf s)
      else f64_round_int s (f64_sig_int a * f64_sig_int b) (f64_ulp_int a + f64_ulp_int b))"
proof -
  have "f64_sig x = 0 \<longleftrightarrow> f64_sig_int x = 0" for x by (simp flip: f64_sig_int)
  then show ?thesis
    by (simp add: f64_mul_def Let_def f64_round_int f64_ulp_int f64_sig_int)
qed

end
