(* ===== verification/Models.thy ===== *)
theory Models
  imports Float64
begin

text \<open>
  The persisted data: the rows the \<^verbatim>\<open>model.go\<close> files declare, with the unique indexes and
  the column types their struct tags ask for, and the tables of one service's database.
  Instants are \<open>int\<close>: nanoseconds since the zero
  \<^verbatim>\<open>time.Time\<close>. A row's table metadata is a \<open>schema\<close>: its primary key, what two rows
  may not share (\<open>sch_unique\<close>), how \<^verbatim>\<open>Create\<close> fills the generated columns
  (\<open>sch_created\<close>), how an update stamps the row (\<open>sch_touch\<close>), and what a column of type
  \<^verbatim>\<open>decimal(10,2)\<close> or \<^verbatim>\<open>jsonb\<close> makes of the value written to it
  (\<open>sch_column\<close>; the column conversions themselves are PostgreSQL's and are parameters).
\<close>

type_synonym time = int

record 'row schema =
  sch_pk :: "'row \<Rightarrow> nat"
  sch_unique :: "'row \<Rightarrow> 'row \<Rightarrow> bool"
  sch_created :: "nat \<Rightarrow> time \<Rightarrow> 'row \<Rightarrow> 'row"
  sch_touch :: "time \<Rightarrow> 'row \<Rightarrow> 'row"
  sch_column :: "'row \<Rightarrow> 'row"

section \<open>Inventory\<close>

record Inventory =
  inv_ID :: nat
  inv_ProductID :: nat
  inv_Total :: int
  inv_Available :: int
  inv_Locked :: int
  inv_Version :: int
  inv_CreatedAt :: time
  inv_UpdatedAt :: time

definition inventory_schema :: "Inventory schema" where
  "inventory_schema =
     \<lparr>sch_pk = inv_ID,
      sch_unique = (\<lambda>x y. inv_ProductID x = inv_ProductID y),
      sch_created = (\<lambda>i t x. x\<lparr>inv_ID := (if inv_ID x = 0 then i else inv_ID x),
                                  inv_CreatedAt := t, inv_UpdatedAt := t\<rparr>),
      sch_touch = (\<lambda>t x. x\<lparr>inv_UpdatedAt := t\<rparr>),
      sch_column = (\<lambda>x. x)\<rparr>"

section \<open>Orders\<close>

definition StatusPending :: int where "StatusPending = 0"
definition StatusAwaitingPayment :: int where "StatusAwaitingPayment = 1"
definition StatusPaid :: int where "StatusPaid = 2"
definition StatusCancelled :: int where "StatusCancelled = 3"

lemmas status_defs = StatusPending_def StatusAwaitingPayment_def StatusPaid_def StatusCancelled_def

record Order =
  ord_ID :: nat
  ord_OrderNo :: string
  ord_UserID :: nat
  ord_ProductID :: nat
  ord_Quantity :: int
  ord_TotalPrice :: float64
  ord_Status :: int
  ord_CreatedAt :: time
  ord_UpdatedAt :: time

text \<open>The unique index on \<^verbatim>\<open>order_no\<close> and \<^verbatim>\<open>idx_user_product\<close> on user and product.\<close>

definition order_schema :: "(float64 \<Rightarrow> float64) \<Rightarrow> Order schema" where
  "order_schema numeric_10_2 =
     \<lparr>sch_pk = ord_ID,
      sch_unique = (\<lambda>x y. ord_OrderNo x = ord_OrderNo y \<or>
                          ord_UserID x = ord_UserID y \<and> ord_ProductID x = ord_ProductID y),
      sch_created = (\<lambda>i t x. x\<lparr>ord_ID := (if ord_ID x = 0 then i else ord_ID x),
                                  ord_CreatedAt := t, ord_UpdatedAt := t\<rparr>),
      sch_touch = (\<lambda>t x. x\<lparr>ord_UpdatedAt := t\<rparr>),
      sch_column = (\<lambda>x. x\<lparr>ord_TotalPrice := numeric_10_2 (ord_TotalPrice x)\<rparr>)\<rparr>"

record CreateOrderRequest =
  cor_ProductID :: nat
  cor_Quantity :: int

section \<open>Payments\<close>

record Payment =
  pay_ID :: nat
  pay_PaymentID :: string
  pay_OrderNo :: string
  pay_UserID :: nat
  pay_Amount :: float64
  pay_Status :: int
  pay_CreatedAt :: time
  pay_UpdatedAt :: time

definition payment_schema :: "(float64 \<Rightarrow> float64) \<Rightarrow> Payment schema" where
  "payment_schema numeric_10_2 =
     \<lparr>sch_pk = pay_ID,
      sch_unique = (\<lambda>x y. pay_PaymentID x = pay_PaymentID y),
      sch_created = (\<lambda>i t x. x\<lparr>pay_ID := (if pay_ID x = 0 then i else pay_ID x),
                                  pay_CreatedAt := t, pay_UpdatedAt := t\<rparr>),
      sch_touch = (\<lambda>t x. x\<lparr>pay_UpdatedAt := t\<rparr>),
      sch_column = (\<lambda>x. x\<lparr>pay_Amount := numeric_10_2 (pay_Amount x)\<rparr>)\<rparr>"

section \<open>Products\<close>

record Product =
  prod_ID :: nat
  prod_Name :: string
  prod_Description :: string
  prod_Price :: float64
  prod_Category :: string
  prod_ImageURL :: string
  prod_Status :: int
  prod_CreatedAt :: time
  prod_UpdatedAt :: time

definition product_schema :: "(float64 \<Rightarrow> float64) \<Rightarrow> Product schema" where
  "product_schema numeric_10_2 =
     \<lparr>sch_pk = prod_ID,
      sch_unique = (\<lambda>x y. False),
      sch_created = (\<lambda>i t x. x\<lparr>prod_ID := (if prod_ID x = 0 then i else prod_ID x),
                                  prod_CreatedAt := t, prod_UpdatedAt := t\<rparr>),
      sch_touch = (\<lambda>t x. x\<lparr>prod_UpdatedAt := t\<rparr>),
      sch_column = (\<lambda>x. x\<lparr>prod_Price := numeric_10_2 (prod_Price x)\<rparr>)\<rparr>"

section \<open>Users\<close>

record User =
  usr_ID :: nat
  usr_Username :: string
  usr_Password :: string
  usr_Email :: string
  usr_Phone :: string
  usr_Role :: int
  usr_CreatedAt :: time
  usr_UpdatedAt :: time

text \<open>The unique indexes on \<^verbatim>\<open>username\<close> and on \<^verbatim>\<open>email\<close>.\<close>

definition user_schema :: "User schema" where
  "user_schema =
     \<lparr>sch_pk = usr_ID,
      sch_unique = (\<lambda>x y. usr_Username x = usr_Username y \<or> usr_Email x = usr_Email y),
      sch_created = (\<lambda>i t x. x\<lparr>usr_ID := (if usr_ID x = 0 then i else usr_ID x),
                                  usr_CreatedAt := t, usr_UpdatedAt := t\<rparr>),
      sch_touch = (\<lambda>t x. x\<lparr>usr_UpdatedAt := t\<rparr>),
      sch_column = (\<lambda>x. x)\<rparr>"

section \<open>Outbox\<close>

text \<open>
  JSON documents, as the event payloads use them: an object's members in order, with scalar or
  nested values. A number is an integer literal or a float; \<open>JTime\<close> is the RFC 3339 string of
  an instant. The characters of the text are not modelled.
\<close>

datatype json =
    JNull
  | JBool bool
  | JInt int
  | JFloat float64
  | JStr string
  | JTime time
  | JArr "json list"
  | JObj "(string \<times> json) list"

text \<open>
  A byte string the program stores in Redis: a text, or what \<^verbatim>\<open>json.Marshal\<close> makes of a
  document.
\<close>

datatype bytes = Text string | Doc json

record OutboxEvent =
  ob_ID :: nat
  ob_AggregateType :: string
  ob_AggregateID :: string
  ob_EventType :: string
  ob_Topic :: string
  ob_Payload :: json
  ob_Sent :: bool
  ob_CreatedAt :: time
  ob_SentAt :: "time option"

definition outbox_schema :: "(json \<Rightarrow> json) \<Rightarrow> OutboxEvent schema" where
  "outbox_schema jsonb =
     \<lparr>sch_pk = ob_ID,
      sch_unique = (\<lambda>x y. False),
      sch_created = (\<lambda>i t x. x\<lparr>ob_ID := (if ob_ID x = 0 then i else ob_ID x),
                                  ob_CreatedAt := t\<rparr>),
      sch_touch = (\<lambda>t x. x),
      sch_column = (\<lambda>x. x\<lparr>ob_Payload := jsonb (ob_Payload x)\<rparr>)\<rparr>"

section \<open>A database\<close>

text \<open>
  Every table a service may have; \<^verbatim>\<open>cmd/server\<close> uses them all in one database, the
  microservices use the ones they migrate.
\<close>

record tables =
  t_inventories :: "Inventory list"
  t_orders :: "Order list"
  t_payments :: "Payment list"
  t_products :: "Product list"
  t_outbox :: "OutboxEvent list"
  t_users :: "User list"

lemmas schema_defs = inventory_schema_def order_schema_def payment_schema_def product_schema_def
  outbox_schema_def user_schema_def

end
