(* ===== verification/Store.thy ===== *)
theory Store
  imports Models "HOL-Library.Multiset"
begin

text \<open>
  The external services as the program sees them: GORM on PostgreSQL, the Redis client and the
  Kafka producer. None of them is code of the repository, so each is a parameter: the record
  \<open>ext\<close> holds one function per call the program makes, over an arbitrary type \<open>'w\<close> of
  worlds, and every call may fail. What the program relies on is stated in the locales below,
  through observations of a world: the tables its database holds (\<open>db\<close>), the Redis keys
  (\<open>kv\<close>) and the messages Kafka has accepted (\<open>log\<close>). Between two statements the tables may
  change by what other sessions do, a reflexive and transitive relation \<open>rely\<close>; a statement
  itself is atomic. \<open>quiet_runtime\<close> is the case without such interference,
  \<open>reliable_runtime\<close> the case where in addition no call fails for a reason of its own.
  The last section is a reference store that satisfies all of it, with scripted failures and
  interference: the interpretations, and the worlds the witnesses run in.
\<close>

section \<open>The calls\<close>

text \<open>
  One record per table handle. A \<^verbatim>\<open>Where\<close> clause is a predicate on rows, a map of column
  expressions a function on rows, \<^verbatim>\<open>Order\<close> a key; \<open>db_Updates\<close> and \<open>db_Delete\<close> return
  \<^verbatim>\<open>RowsAffected\<close>.
\<close>

record ('w, 'row) table_api =
  db_First :: "('row \<Rightarrow> bool) \<Rightarrow> 'w \<Rightarrow> (go_error + 'row) \<times> 'w"
  db_FirstForUpdate :: "('row \<Rightarrow> bool) \<Rightarrow> 'w \<Rightarrow> (go_error + 'row) \<times> 'w"
  db_Create :: "'row \<Rightarrow> 'w \<Rightarrow> (go_error + 'row) \<times> 'w"
  db_Save :: "'row \<Rightarrow> 'w \<Rightarrow> (go_error + 'row) \<times> 'w"
  db_Updates :: "('row \<Rightarrow> bool) \<Rightarrow> ('row \<Rightarrow> 'row) \<Rightarrow> 'w \<Rightarrow> (go_error + nat) \<times> 'w"
  db_Delete :: "('row \<Rightarrow> bool) \<Rightarrow> 'w \<Rightarrow> (go_error + nat) \<times> 'w"
  db_Count :: "('row \<Rightarrow> bool) \<Rightarrow> 'w \<Rightarrow> (go_error + nat) \<times> 'w"
  db_Find :: "('row \<Rightarrow> bool) \<Rightarrow> ('row \<Rightarrow> int) \<Rightarrow> int \<Rightarrow> int \<Rightarrow> 'w \<Rightarrow> (go_error + 'row list) \<times> 'w"

text \<open>
  A service's handles: its tables, \<^verbatim>\<open>db.Transaction\<close>, Redis, sarama's producer, and what
  the process reads from its surroundings: the clock, fresh UUIDs, random numbers. The function
  given to \<^verbatim>\<open>Transaction\<close> may assign a variable of its caller, an order (\<open>captured\<close>): its
  value after the call is returned along with the nil error.
\<close>

type_synonym captured = "Order option"

record 'w ext =
  inventories_tbl :: "('w, Inventory) table_api"
  orders_tbl :: "('w, Order) table_api"
  payments_tbl :: "('w, Payment) table_api"
  products_tbl :: "('w, Product) table_api"
  outbox_tbl :: "('w, OutboxEvent) table_api"
  users_tbl :: "('w, User) table_api"
  db_Transaction :: "('w \<Rightarrow> (go_error + captured) \<times> 'w) \<Rightarrow> 'w \<Rightarrow> (go_error + captured) \<times> 'w"
  rdb_SetNX :: "string \<Rightarrow> bytes \<Rightarrow> int \<Rightarrow> 'w \<Rightarrow> (go_error + bool) \<times> 'w"
  rdb_Get :: "string \<Rightarrow> 'w \<Rightarrow> (go_error + bytes) \<times> 'w"
  rdb_Set :: "string \<Rightarrow> bytes \<Rightarrow> int \<Rightarrow> 'w \<Rightarrow> (go_error + unit) \<times> 'w"
  rdb_Del :: "string \<Rightarrow> 'w \<Rightarrow> (go_error + unit) \<times> 'w"
  rdb_DecrBy :: "string \<Rightarrow> int \<Rightarrow> 'w \<Rightarrow> (go_error + int) \<times> 'w"
  rdb_IncrBy :: "string \<Rightarrow> int \<Rightarrow> 'w \<Rightarrow> (go_error + int) \<times> 'w"
  kafka_SendMessage :: "string \<Rightarrow> string \<Rightarrow> json \<Rightarrow> 'w \<Rightarrow> (go_error + unit) \<times> 'w"
  time_Now :: "'w \<Rightarrow> time \<times> 'w"
  uuid_New :: "'w \<Rightarrow> string \<times> 'w"
  rand_Float64 :: "'w \<Rightarrow> float64 \<times> 'w"
  rand_Intn :: "int \<Rightarrow> 'w \<Rightarrow> int \<times> 'w"

type_synonym redis_kv = "string \<Rightarrow> bytes option"
type_synonym message = "string \<times> string \<times> json"

section \<open>What a statement does to a table\<close>

definition first_result :: "'row schema \<Rightarrow> ('row \<Rightarrow> bool) \<Rightarrow> 'row list \<Rightarrow> go_error + 'row \<Rightarrow> bool" where
  "first_result sch p rows r \<longleftrightarrow>
     (case r of
        Inr x \<Rightarrow> x \<in> set rows \<and> p x \<and> (\<forall>y\<in>set rows. p y \<longrightarrow> sch_pk sch x \<le> sch_pk sch y)
      | Inl e \<Rightarrow> e = ErrRecordNotFound \<and> (\<forall>y\<in>set rows. \<not> p y) \<or> is_external e)"

definition clashes :: "'row schema \<Rightarrow> 'row \<Rightarrow> 'row \<Rightarrow> bool" where
  "clashes sch y x \<longleftrightarrow> sch_pk sch y = sch_pk sch x \<or> sch_unique sch y x"

definition create_result :: "'row schema \<Rightarrow> 'row \<Rightarrow> 'row list \<Rightarrow> 'row list \<Rightarrow> go_error + 'row \<Rightarrow> bool" where
  "create_result sch row rows rows' r \<longleftrightarrow>
     (case r of
        Inr x \<Rightarrow> (\<exists>i t. x = sch_created sch i t row) \<and> (\<forall>y\<in>set rows. \<not> clashes sch y x)
                 \<and> rows' = rows @ [sch_column sch x]
      | Inl e \<Rightarrow> is_external e \<and> rows' = rows)"

definition update_result ::
    "'row schema \<Rightarrow> ('row \<Rightarrow> bool) \<Rightarrow> ('row \<Rightarrow> 'row) \<Rightarrow> 'row list \<Rightarrow> 'row list \<Rightarrow> go_error + nat \<Rightarrow> bool" where
  "update_result sch p f rows rows' r \<longleftrightarrow>
     (case r of
        Inr n \<Rightarrow> n = length (filter p rows) \<and>
                 (\<exists>t. rows' = map (\<lambda>x. if p x then sch_touch sch t (f x) else x) rows)
      | Inl e \<Rightarrow> is_external e \<and> rows' = rows)"

text \<open>\<^verbatim>\<open>Save\<close> writes every column of the row with this key, and inserts when there is none.\<close>

definition save_result :: "'row schema \<Rightarrow> 'row \<Rightarrow> 'row list \<Rightarrow> 'row list \<Rightarrow> go_error + 'row \<Rightarrow> bool" where
  "save_result sch row rows rows' r \<longleftrightarrow>
     (if \<exists>y\<in>set rows. sch_pk sch y = sch_pk sch row
      then (case r of
              Inr x \<Rightarrow> (\<exists>t. x = sch_touch sch t row) \<and>
                       rows' = map (\<lambda>y. if sch_pk sch y = sch_pk sch row then sch_column sch x else y) rows
            | Inl e \<Rightarrow> is_external e \<and> rows' = rows)
      else create_result sch row rows rows' r)"

definition delete_result :: "('row \<Rightarrow> bool) \<Rightarrow> 'row list \<Rightarrow> 'row list \<Rightarrow> go_error + nat \<Rightarrow> bool" where
  "delete_result p rows rows' r \<longleftrightarrow>
     (case r of
        Inr n \<Rightarrow> n = length (filter p rows) \<and> rows' = filter (\<lambda>x. \<not> p x) rows
      | Inl e \<Rightarrow> is_external e \<and> rows' = rows)"

definition count_result :: "('row \<Rightarrow> bool) \<Rightarrow> 'row list \<Rightarrow> go_error + nat \<Rightarrow> bool" where
  "count_result p rows r \<longleftrightarrow>
     (case r of Inr n \<Rightarrow> n = length (filter p rows) | Inl e \<Rightarrow> is_external e)"

text \<open>
  \<^verbatim>\<open>Offset\<close> and \<^verbatim>\<open>Limit\<close>: GORM writes no OFFSET unless it is positive, and no LIMIT
  when it is negative.
\<close>

definition page_rows :: "int \<Rightarrow> int \<Rightarrow> 'row list \<Rightarrow> 'row list" where
  "page_rows off lim rows =
     (if lim < 0 then drop (nat off) rows else take (nat lim) (drop (nat off) rows))"

lemma page_rows_limit [simp]: "0 \<le> lim \<Longrightarrow> page_rows off lim rows = take (nat lim) (drop (nat off) rows)"
  by (simp add: page_rows_def)

definition find_result ::
    "('row \<Rightarrow> bool) \<Rightarrow> ('row \<Rightarrow> int) \<Rightarrow> int \<Rightarrow> int \<Rightarrow> 'row list \<Rightarrow> go_error + 'row list \<Rightarrow> bool" where
  "find_result p key off lim rows r \<longleftrightarrow>
     (case r of
        Inr xs \<Rightarrow> (\<exists>ys. mset ys = mset (filter p rows) \<and> sorted (map key ys)
                        \<and> xs = page_rows off lim ys)
      | Inl e \<Rightarrow> is_external e)"

lemmas result_defs = first_result_def create_result_def update_result_def save_result_def
  delete_result_def count_result_def find_result_def

section \<open>The contracts\<close>

text \<open>
  A table handle: \<open>get\<close> and \<open>upd\<close> locate the table in the database, \<open>rest\<close> is whatever the
  statement leaves alone outside the database.
\<close>

locale gorm_table =
  fixes db :: "'w \<Rightarrow> 'd"
    and rest :: "'w \<Rightarrow> 'r"
    and rely :: "'d \<Rightarrow> 'd \<Rightarrow> bool"
    and get :: "'d \<Rightarrow> 'row list"
    and upd :: "('row list \<Rightarrow> 'row list) \<Rightarrow> 'd \<Rightarrow> 'd"
    and sch :: "'row schema"
    and T :: "('w, 'row) table_api"
  assumes First_law: "db_First T p w = (r, w') \<Longrightarrow>
      rest w' = rest w \<and> rely (db w) (db w') \<and> first_result sch p (get (db w')) r"
    and FirstForUpdate_law: "db_FirstForUpdate T p w = (r, w') \<Longrightarrow>
      rest w' = rest w \<and> rely (db w) (db w') \<and> first_result sch p (get (db w')) r"
    and Create_law: "db_Create T row w = (cr, w') \<Longrightarrow>
      rest w' = rest w \<and> (\<exists>d rows. rely (db w) d \<and> db w' = upd (\<lambda>_. rows) d
        \<and> create_result sch row (get d) rows cr)"
    and Save_law: "db_Save T row w = (cr, w') \<Longrightarrow>
      rest w' = rest w \<and> (\<exists>d rows. rely (db w) d \<and> db w' = upd (\<lambda>_. rows) d
        \<and> save_result sch row (get d) rows cr)"
    and Updates_law: "db_Updates T p f w = (nr, w') \<Longrightarrow>
      rest w' = rest w \<and> (\<exists>d rows. rely (db w) d \<and> db w' = upd (\<lambda>_. rows) d
        \<and> update_result sch p f (get d) rows nr)"
    and Delete_law: "db_Delete T p w = (nr, w') \<Longrightarrow>
      rest w' = rest w \<and> (\<exists>d rows. rely (db w) d \<and> db w' = upd (\<lambda>_. rows) d
        \<and> delete_result p (get d) rows nr)"
    and Count_law: "db_Count T p w = (nr, w') \<Longrightarrow>
      rest w' = rest w \<and> rely (db w) (db w') \<and> count_result p (get (db w')) nr"
    and Find_law: "db_Find T p key off lim w = (fr, w') \<Longrightarrow>
      rest w' = rest w \<and> rely (db w) (db w') \<and> find_result p key off lim (get (db w')) fr"
    and upd_get [simp]: "upd (\<lambda>_. get d) d = d"
    and get_upd [simp]: "get (upd g d) = g (get d)"
    and upd_upd [simp]: "upd g (upd h d) = upd (\<lambda>x. g (h x)) d"
    and rely_refl [simp, intro]: "rely d d"
    and rely_trans: "rely d d1 \<Longrightarrow> rely d1 d2 \<Longrightarrow> rely d d2"

text \<open>A handle whose statements fail only for a reason in the data.\<close>

locale reliable_table = gorm_table +
  assumes First_reliable: "db_First T p w = (Inl e, w') \<Longrightarrow> e = ErrRecordNotFound"
    and Create_reliable: "db_Create T row w = (Inl e, w') \<Longrightarrow> sch_pk sch row = 0 \<Longrightarrow>
      \<exists>y\<in>set (get (db w')). sch_unique sch y row"
    and Updates_reliable: "db_Updates T p f w = (nr, w') \<Longrightarrow> \<exists>n. nr = Inr n"
    and Find_reliable: "db_Find T p key off lim w = (fr, w') \<Longrightarrow> \<exists>xs. fr = Inr xs"

text \<open>
  \<^verbatim>\<open>db.Transaction(fn)\<close>: commits what \<^verbatim>\<open>fn\<close> did when it returns nil; on an error of
  \<^verbatim>\<open>fn\<close>, or of the begin or the commit, nothing of it remains in the database.
\<close>

definition tx_result ::
    "('w \<Rightarrow> 'd) \<Rightarrow> ('w \<Rightarrow> 'r) \<Rightarrow> ('d \<Rightarrow> 'd \<Rightarrow> bool) \<Rightarrow> ('w \<Rightarrow> (go_error + 'c) \<times> 'w) \<Rightarrow>
      'w \<Rightarrow> go_error + 'c \<Rightarrow> 'w \<Rightarrow> bool" where
  "tx_result db rest rely f w r w' \<longleftrightarrow>
     (case r of
        Inr u \<Rightarrow> (\<exists>w1 w2. rest w1 = rest w \<and> rely (db w) (db w1) \<and> f w1 = (Inr u, w2)
                   \<and> rest w' = rest w2 \<and> rely (db w2) (db w'))
      | Inl e \<Rightarrow> rely (db w) (db w') \<and>
          ((\<exists>w1 w2. rest w1 = rest w \<and> rely (db w) (db w1) \<and> f w1 = (Inl e, w2) \<and> rest w' = rest w2)
           \<or> is_external e \<and> (rest w' = rest w \<or>
               (\<exists>w1 w2 u. rest w1 = rest w \<and> rely (db w) (db w1) \<and> f w1 = (Inr u, w2)
                  \<and> rest w' = rest w2))))"

text \<open>A function that assigns nothing.\<close>

definition no_capture :: "(go_error + unit) \<times> 'w \<Rightarrow> (go_error + captured) \<times> 'w" where
  "no_capture = map_prod (map_sum id (\<lambda>_. None)) id"

locale gorm_session =
  fixes db :: "'w \<Rightarrow> 'd"
    and rest :: "'w \<Rightarrow> 'r"
    and rely :: "'d \<Rightarrow> 'd \<Rightarrow> bool"
    and transaction :: "('w \<Rightarrow> (go_error + 'c) \<times> 'w) \<Rightarrow> 'w \<Rightarrow> (go_error + 'c) \<times> 'w"
  assumes Transaction_law: "transaction f w = (tr, w') \<Longrightarrow> tx_result db rest rely f w tr w'"

locale reliable_session = gorm_session +
  assumes Transaction_reliable: "transaction f w = (Inl e, w') \<Longrightarrow>
    \<exists>w1 w2. rest w1 = rest w \<and> rely (db w) (db w1) \<and> f w1 = (Inl e, w2)"

text \<open>
  Redis: a counter is a string holding a decimal integer, a missing one counts as 0. A command
  that returns an error has not changed a key.
\<close>

definition counter_value :: "bytes option \<Rightarrow> int option" where
  "counter_value v =
     (case v of None \<Rightarrow> Some 0 | Some (Text s) \<Rightarrow> parse_int s | Some (Doc _) \<Rightarrow> None)"

definition incr_result :: "int \<Rightarrow> string \<Rightarrow> redis_kv \<Rightarrow> redis_kv \<Rightarrow> go_error + int \<Rightarrow> bool" where
  "incr_result n k m m' r \<longleftrightarrow>
     (case r of
        Inr v \<Rightarrow> (\<exists>c. counter_value (m k) = Some c \<and> v = c + n) \<and> m' = m(k \<mapsto> Text (show_int v))
      | Inl e \<Rightarrow> is_external e \<and> m' = m)"

definition setnx_result :: "string \<Rightarrow> bytes \<Rightarrow> redis_kv \<Rightarrow> redis_kv \<Rightarrow> go_error + bool \<Rightarrow> bool" where
  "setnx_result k v m m' r \<longleftrightarrow>
     (case r of
        Inr b \<Rightarrow> (if b then m k = None \<and> m' = m(k \<mapsto> v) else m k \<noteq> None \<and> m' = m)
      | Inl e \<Rightarrow> is_external e \<and> m' = m)"

definition get_result :: "string \<Rightarrow> redis_kv \<Rightarrow> go_error + bytes \<Rightarrow> bool" where
  "get_result k m r \<longleftrightarrow>
     (case r of Inr v \<Rightarrow> m k = Some v | Inl e \<Rightarrow> e = RedisNil \<and> m k = None \<or> is_external e)"

definition write_result :: "redis_kv \<Rightarrow> redis_kv \<Rightarrow> redis_kv \<Rightarrow> go_error + unit \<Rightarrow> bool" where
  "write_result m written m' r \<longleftrightarrow>
     (case r of Inr _ \<Rightarrow> m' = written | Inl e \<Rightarrow> is_external e \<and> m' = m)"

lemmas redis_defs = incr_result_def setnx_result_def get_result_def write_result_def

locale redis_client =
  fixes rest :: "'w \<Rightarrow> 'r"
    and kv :: "'w \<Rightarrow> redis_kv"
    and X :: "'w ext"
  assumes SetNX_law: "rdb_SetNX X k v ttl w = (br, w') \<Longrightarrow>
      rest w' = rest w \<and> setnx_result k v (kv w) (kv w') br"
    and Get_law: "rdb_Get X k w = (sr, w') \<Longrightarrow> rest w' = rest w \<and> kv w' = kv w \<and> get_result k (kv w) sr"
    and Set_law: "rdb_Set X k v ttl w = (ur, w') \<Longrightarrow>
      rest w' = rest w \<and> write_result (kv w) ((kv w)(k \<mapsto> v)) (kv w') ur"
    and Del_law: "rdb_Del X k w = (ur, w') \<Longrightarrow>
      rest w' = rest w \<and> write_result (kv w) ((kv w)(k := None)) (kv w') ur"
    and DecrBy_law: "rdb_DecrBy X k n w = (ir, w') \<Longrightarrow>
      rest w' = rest w \<and> incr_result (- n) k (kv w) (kv w') ir"
    and IncrBy_law: "rdb_IncrBy X k n w = (ir, w') \<Longrightarrow>
      rest w' = rest w \<and> incr_result n k (kv w) (kv w') ir"

text \<open>A client whose commands succeed, as long as the counters hold integers.\<close>

locale reliable_redis = redis_client +
  assumes SetNX_reliable: "rdb_SetNX X k v ttl w = (br, w') \<Longrightarrow> \<exists>b. br = Inr b"
    and Get_reliable: "rdb_Get X k w = (Inl e, w') \<Longrightarrow> e = RedisNil"
    and Set_reliable: "rdb_Set X k v ttl w = (ur, w') \<Longrightarrow> ur = Inr ()"
    and Del_reliable: "rdb_Del X k w = (ur, w') \<Longrightarrow> ur = Inr ()"
    and DecrBy_reliable: "rdb_DecrBy X k n w = (Inl e, w') \<Longrightarrow> counter_value (kv w k) = None"
    and IncrBy_reliable: "rdb_IncrBy X k n w = (Inl e, w') \<Longrightarrow> counter_value (kv w k) = None"

text \<open>
  Kafka's synchronous producer: an accepted message is appended to the log; one that is reported
  as failed may have been appended all the same (a lost acknowledgement).
\<close>

locale kafka_producer =
  fixes rest :: "'w \<Rightarrow> 'r"
    and log :: "'w \<Rightarrow> message list"
    and X :: "'w ext"
  assumes SendMessage_law: "kafka_SendMessage X topic key val w = (ur, w') \<Longrightarrow>
      rest w' = rest w \<and>
      (case ur of Inr _ \<Rightarrow> log w' = log w @ [(topic, key, val)]
       | Inl e \<Rightarrow> is_external e \<and> (log w' = log w \<or> log w' = log w @ [(topic, key, val)]))"

text \<open>A broker that accepts every message.\<close>

locale reliable_kafka = kafka_producer +
  assumes SendMessage_reliable: "kafka_SendMessage X topic key val w = (ur, w') \<Longrightarrow> ur = Inr ()"

text \<open>Reading the clock, drawing a UUID or a random number touches none of the services;
  a random float lies in the half-open unit interval.\<close>

locale process_inputs =
  fixes rest :: "'w \<Rightarrow> 'r"
    and X :: "'w ext"
  assumes Now_law: "time_Now X w = (t, w') \<Longrightarrow> rest w' = rest w"
    and New_law: "uuid_New X w = (u, w') \<Longrightarrow> rest w' = rest w"
    and Float64_law: "rand_Float64 X w = (x, w') \<Longrightarrow>
      rest w' = rest w \<and> \<not> f64_lt x f64_zero \<and> f64_lt x f64_one"
    and Intn_law: "rand_Intn X n w = (i, w') \<Longrightarrow> rest w' = rest w \<and> (0 < n \<longrightarrow> 0 \<le> i \<and> i < n)"

end
