(* ===== verification/Runtime.thy ===== *)
theory Runtime
  imports Store
begin

text \<open>
  The contracts of all services together, as one process of the program uses them
  (\<open>runtime\<close>), the case without other sessions (\<open>quiet_runtime\<close>), and the case where in
  addition nothing fails by itself (\<open>reliable_runtime\<close>).
\<close>

lemma no_capture_cases:
  "no_capture p = (s, v) \<Longrightarrow> (\<And>e. s = Inl e \<Longrightarrow> p = (Inl e, v) \<Longrightarrow> P) \<Longrightarrow> (s = Inr None \<Longrightarrow> p = (Inr (), v) \<Longrightarrow> P) \<Longrightarrow> P"
  by (cases p; cases "fst p") (auto simp: no_capture_def)

locale runtime =
  inv: gorm_table db "\<lambda>w. (kv w, log w)" rely t_inventories t_inventories_update
    inventory_schema "inventories_tbl X" +
  ord: gorm_table db "\<lambda>w. (kv w, log w)" rely t_orders t_orders_update
    "order_schema num" "orders_tbl X" +
  pay: gorm_table db "\<lambda>w. (kv w, log w)" rely t_payments t_payments_update
    "payment_schema num" "payments_tbl X" +
  prod: gorm_table db "\<lambda>w. (kv w, log w)" rely t_products t_products_update
    "product_schema num" "products_tbl X" +
  ob: gorm_table db "\<lambda>w. (kv w, log w)" rely t_outbox t_outbox_update
    "outbox_schema jsonb" "outbox_tbl X" +
  usr: gorm_table db "\<lambda>w. (kv w, log w)" rely t_users t_users_update
    user_schema "users_tbl X" +
  tx: gorm_session db "\<lambda>w. (kv w, log w)" rely "db_Transaction X" +
  rdb: redis_client "\<lambda>w. (db w, log w)" kv X +
  kafka: kafka_producer "\<lambda>w. (db w, kv w)" log X +
  inp: process_inputs "\<lambda>w. (db w, kv w, log w)" X
  for db :: "'w \<Rightarrow> tables" and kv :: "'w \<Rightarrow> redis_kv" and log :: "'w \<Rightarrow> message list"
    and rely :: "tables \<Rightarrow> tables \<Rightarrow> bool" and num :: "float64 \<Rightarrow> float64"
    and jsonb :: "json \<Rightarrow> json" and X :: "'w ext"

text \<open>No other session changes the tables while a handler runs.\<close>

locale quiet_runtime = runtime where rely = "(=)"

begin

lemmas inv_First = inv.First_law [simplified]
lemmas ord_First = ord.First_law [simplified]
lemmas prod_First = prod.First_law [simplified]

text \<open>A write that succeeds or fails, with the table after it as an equation.\<close>

lemma inv_Updates:
  "db_Updates (inventories_tbl X) p f w = (r, w') \<Longrightarrow>
    kv w' = kv w \<and> log w' = log w \<and> (\<exists>rows. db w' = (db w)\<lparr>t_inventories := rows\<rparr>
      \<and> update_result inventory_schema p f (t_inventories (db w)) rows r)"
  by (drule inv.Updates_law) auto

lemma ord_Updates:
  "db_Updates (orders_tbl X) p f w = (r, w') \<Longrightarrow>
    kv w' = kv w \<and> log w' = log w \<and> (\<exists>rows. db w' = (db w)\<lparr>t_orders := rows\<rparr>
      \<and> update_result (order_schema num) p f (t_orders (db w)) rows r)"
  by (drule ord.Updates_law) auto

lemma ob_Updates:
  "db_Updates (outbox_tbl X) p f w = (r, w') \<Longrightarrow>
    kv w' = kv w \<and> log w' = log w \<and> (\<exists>rows. db w' = (db w)\<lparr>t_outbox := rows\<rparr>
      \<and> update_result (outbox_schema jsonb) p f (t_outbox (db w)) rows r)"
  by (drule ob.Updates_law) auto

lemma ord_Create:
  "db_Create (orders_tbl X) row w = (r, w') \<Longrightarrow>
    kv w' = kv w \<and> log w' = log w \<and> (\<exists>rows. db w' = (db w)\<lparr>t_orders := rows\<rparr>
      \<and> create_result (order_schema num) row (t_orders (db w)) rows r)"
  by (drule ord.Create_law) auto

lemma pay_Create:
  "db_Create (payments_tbl X) row w = (r, w') \<Longrightarrow>
    kv w' = kv w \<and> log w' = log w \<and> (\<exists>rows. db w' = (db w)\<lparr>t_payments := rows\<rparr>
      \<and> create_result (payment_schema num) row (t_payments (db w)) rows r)"
  by (drule pay.Create_law) auto

lemma ob_Create:
  "db_Create (outbox_tbl X) row w = (r, w') \<Longrightarrow>
    kv w' = kv w \<and> log w' = log w \<and> (\<exists>rows. db w' = (db w)\<lparr>t_outbox := rows\<rparr>
      \<and> create_result (outbox_schema jsonb) row (t_outbox (db w)) rows r)"
  by (drule ob.Create_law) auto

text \<open>
  A transaction whose body leaves Redis and Kafka alone: it commits what the body did, or nothing
  of it remains.
\<close>

lemma Transaction_quiet:
  assumes "db_Transaction X f w = (r, w')"
    and "\<And>v s v'. f v = (s, v') \<Longrightarrow> db v = db w \<Longrightarrow>
      kv v' = kv v \<and> log v' = log v \<and> (case s of Inr u \<Rightarrow> Q u (db v') | Inl e \<Rightarrow> R e)"
  shows "kv w' = kv w \<and> log w' = log w \<and>
    (case r of Inr u \<Rightarrow> Q u (db w') | Inl e \<Rightarrow> db w' = db w \<and> (R e \<or> is_external e))"
  using tx.Transaction_law [OF assms(1)] assms(2)
  by (cases r) (fastforce simp: tx_result_def)+

lemma Transaction_quiet_unit:
  assumes "db_Transaction X (\<lambda>v. no_capture (f v)) w = (r, w')"
    and "\<And>v s v'. f v = (s, v') \<Longrightarrow> db v = db w \<Longrightarrow>
      kv v' = kv v \<and> log v' = log v \<and> (case s of Inr _ \<Rightarrow> Q (db v') | Inl e \<Rightarrow> R e)"
  shows "kv w' = kv w \<and> log w' = log w \<and>
    (case r of Inr _ \<Rightarrow> Q (db w') | Inl e \<Rightarrow> db w' = db w \<and> (R e \<or> is_external e))"
proof (rule Transaction_quiet [OF assms(1), where Q = "\<lambda>_. Q"])
  fix v s v' assume "no_capture (f v) = (s, v')" "db v = db w"
  then show "kv v' = kv v \<and> log v' = log v \<and> (case s of Inr _ \<Rightarrow> Q (db v') | Inl e \<Rightarrow> R e)"
    by (elim no_capture_cases) (use assms(2) in fastforce)+
qed

end

locale reliable_runtime = quiet_runtime +
  inv: reliable_table db "\<lambda>w. (kv w, log w)" "(=)" t_inventories t_inventories_update
    inventory_schema "inventories_tbl X" +
  ord: reliable_table db "\<lambda>w. (kv w, log w)" "(=)" t_orders t_orders_update
    "order_schema num" "orders_tbl X" +
  pay: reliable_table db "\<lambda>w. (kv w, log w)" "(=)" t_payments t_payments_update
    "payment_schema num" "payments_tbl X" +
  prod: reliable_table db "\<lambda>w. (kv w, log w)" "(=)" t_products t_products_update
    "product_schema num" "products_tbl X" +
  ob: reliable_table db "\<lambda>w. (kv w, log w)" "(=)" t_outbox t_outbox_update
    "outbox_schema jsonb" "outbox_tbl X" +
  usr: reliable_table db "\<lambda>w. (kv w, log w)" "(=)" t_users t_users_update
    user_schema "users_tbl X" +
  tx: reliable_session db "\<lambda>w. (kv w, log w)" "(=)" "db_Transaction X" +
  rdb: reliable_redis "\<lambda>w. (db w, log w)" kv X +
  kafka: reliable_kafka "\<lambda>w. (db w, kv w)" log X


context reliable_runtime
begin

text \<open>A transaction fails only when its body does.\<close>

lemma Transaction_reliable:
  assumes "db_Transaction X f w = (r, w')"
    and "\<And>v s v'. f v = (s, v') \<Longrightarrow> db v = db w \<Longrightarrow>
      kv v' = kv v \<and> log v' = log v \<and> (case s of Inr u \<Rightarrow> Q u (db v') | Inl e \<Rightarrow> R e)"
  shows "kv w' = kv w \<and> log w' = log w \<and>
    (case r of Inr u \<Rightarrow> Q u (db w') | Inl e \<Rightarrow> db w' = db w \<and> R e)"
proof (cases r)
  case (Inl e)
  then obtain v v' where "db w = db v" "f v = (Inl e, v')"
    using tx.Transaction_reliable assms(1) by blast
  then have "R e" using assms(2) [of v "Inl e" v'] by simp
  then show ?thesis using Inl Transaction_quiet [OF assms] by simp
qed (use Transaction_quiet [OF assms] in simp)

lemma Transaction_reliable_unit:
  assumes "db_Transaction X (\<lambda>v. no_capture (f v)) w = (r, w')"
    and "\<And>v s v'. f v = (s, v') \<Longrightarrow> db v = db w \<Longrightarrow>
      kv v' = kv v \<and> log v' = log v \<and> (case s of Inr _ \<Rightarrow> Q (db v') | Inl e \<Rightarrow> R e)"
  shows "kv w' = kv w \<and> log w' = log w \<and>
    (case r of Inr _ \<Rightarrow> Q (db w') | Inl e \<Rightarrow> db w' = db w \<and> R e)"
proof (rule Transaction_reliable [OF assms(1), where Q = "\<lambda>_. Q"])
  fix v s v' assume "no_capture (f v) = (s, v')" "db v = db w"
  then show "kv v' = kv v \<and> log v' = log v \<and> (case s of Inr _ \<Rightarrow> Q (db v') | Inl e \<Rightarrow> R e)"
    by (elim no_capture_cases) (use assms(2) in fastforce)+
qed

end

end
