(* ===== verification/Reference_Store.thy ===== *)
theory Reference_Store
  imports Runtime
begin

text \<open>
  A store that meets the contracts: tables as lists, Redis as a map, Kafka's log as a list.
  Each call takes the next entry of a script of failures (\<open>mem_faults\<close>, obeyed when the store
  is \<open>flaky\<close>) and lets other sessions run the next entry of a script of their actions
  (\<open>mem_others\<close>, executed by \<open>run\<close>). With \<open>run\<close> the identity there is no interference.
\<close>

record 'o mem =
  mem_db :: tables
  mem_kv :: redis_kv
  mem_log :: "message list"
  mem_clock :: time
  mem_faults :: "bool list"
  mem_others :: "'o list list"
  mem_uuids :: nat
  mem_rands :: "float64 list"

section \<open>Entering a call\<close>

definition mem_fault :: "bool \<Rightarrow> 'o mem \<Rightarrow> bool" where
  "mem_fault flaky w = (flaky \<and> (case mem_faults w of [] \<Rightarrow> False | b # _ \<Rightarrow> b))"

definition mem_interfere :: "('o \<Rightarrow> tables \<Rightarrow> tables) \<Rightarrow> 'o mem \<Rightarrow> tables" where
  "mem_interfere run w =
     (case mem_others w of [] \<Rightarrow> mem_db w | acts # _ \<Rightarrow> fold run acts (mem_db w))"

definition mem_enter :: "('o \<Rightarrow> tables \<Rightarrow> tables) \<Rightarrow> 'o mem \<Rightarrow> 'o mem" where
  "mem_enter run w =
     w\<lparr>mem_db := mem_interfere run w, mem_clock := mem_clock w + 1,
       mem_faults := tl (mem_faults w), mem_others := tl (mem_others w)\<rparr>"

definition rely_of :: "('o \<Rightarrow> tables \<Rightarrow> tables) \<Rightarrow> tables \<Rightarrow> tables \<Rightarrow> bool" where
  "rely_of run d d' \<longleftrightarrow> (\<exists>acts. d' = fold run acts d)"

lemma rely_of_refl [simp]: "rely_of run d d"
  by (auto simp: rely_of_def intro: exI [of _ "[]"])

lemma rely_of_trans: "rely_of run d d1 \<Longrightarrow> rely_of run d1 d2 \<Longrightarrow> rely_of run d d2"
  unfolding rely_of_def by (metis fold_append comp_apply)

lemma rely_of_interfere [simp]: "rely_of run (mem_db w) (mem_interfere run w)"
  by (auto simp: mem_interfere_def rely_of_def split: list.splits intro: exI [of _ "[]"])

lemma rely_of_quiet: "rely_of (\<lambda>_ d. d) = (=)"
proof (intro ext)
  fix d d' :: tables
  have "fold (\<lambda>_ d. d) acts d = d" for acts :: "'a list"
    by (induction acts) auto
  then show "rely_of (\<lambda>(_ :: 'a) d. d) d d' = (d = d')"
    by (auto simp: rely_of_def)
qed

lemma mem_enter_simps [simp]:
  "mem_db (mem_enter run w) = mem_interfere run w"
  "mem_kv (mem_enter run w) = mem_kv w"
  "mem_log (mem_enter run w) = mem_log w"
  by (simp_all add: mem_enter_def)

section \<open>Statements\<close>

text \<open>
  A read applies \<open>q\<close> to the table; a write gives its result and the new table. A scripted
  fault makes either fail and leaves the table alone.
\<close>

definition mem_read ::
    "bool \<Rightarrow> ('o \<Rightarrow> tables \<Rightarrow> tables) \<Rightarrow> (tables \<Rightarrow> go_error + 'a) \<Rightarrow> 'o mem \<Rightarrow> (go_error + 'a) \<times> 'o mem" where
  "mem_read flaky run q w =
     (let w1 = mem_enter run w in
      if mem_fault flaky w then (Inl (ErrExternal ''bad connection''), w1) else (q (mem_db w1), w1))"

definition mem_write ::
    "bool \<Rightarrow> ('o \<Rightarrow> tables \<Rightarrow> tables) \<Rightarrow> (('row list \<Rightarrow> 'row list) \<Rightarrow> tables \<Rightarrow> tables) \<Rightarrow>
     (time \<Rightarrow> tables \<Rightarrow> (go_error + 'a) \<times> 'row list option) \<Rightarrow> 'o mem \<Rightarrow> (go_error + 'a) \<times> 'o mem" where
  "mem_write flaky run upd q w =
     (let w1 = mem_enter run w in
      if mem_fault flaky w then (Inl (ErrExternal ''bad connection''), w1)
      else case q (mem_clock w1) (mem_db w1) of
             (r, None) \<Rightarrow> (r, w1)
           | (r, Some rows) \<Rightarrow> (r, w1\<lparr>mem_db := upd (\<lambda>_. rows) (mem_db w1)\<rparr>))"

definition fresh_pk :: "'row schema \<Rightarrow> 'row list \<Rightarrow> nat" where
  "fresh_pk sch rows = Suc (foldr (\<lambda>x m. max (sch_pk sch x) m) rows 0)"

definition least_row :: "'row schema \<Rightarrow> ('row \<Rightarrow> bool) \<Rightarrow> 'row list \<Rightarrow> go_error + 'row" where
  "least_row sch p rows =
     (case sort_key (sch_pk sch) (filter p rows) of [] \<Rightarrow> Inl ErrRecordNotFound | x # _ \<Rightarrow> Inr x)"

definition insert_row :: "'row schema \<Rightarrow> 'row \<Rightarrow> time \<Rightarrow> 'row list \<Rightarrow> (go_error + 'row) \<times> 'row list option" where
  "insert_row sch row t rows =
     (let x = sch_created sch (fresh_pk sch rows) t row in
      if list_ex (\<lambda>y. sch_pk sch y = sch_pk sch x \<or> sch_unique sch y x) rows
      then (Inl (ErrExternal ''duplicate key value violates unique constraint''), None)
      else (Inr x, Some (rows @ [sch_column sch x])))"

definition save_row :: "'row schema \<Rightarrow> 'row \<Rightarrow> time \<Rightarrow> 'row list \<Rightarrow> (go_error + 'row) \<times> 'row list option" where
  "save_row sch row t rows =
     (if list_ex (\<lambda>y. sch_pk sch y = sch_pk sch row) rows
      then (let x = sch_touch sch t row in
            (Inr x, Some (map (\<lambda>y. if sch_pk sch y = sch_pk sch row then sch_column sch x else y) rows)))
      else insert_row sch row t rows)"

definition mem_table ::
    "bool \<Rightarrow> ('o \<Rightarrow> tables \<Rightarrow> tables) \<Rightarrow> (tables \<Rightarrow> 'row list) \<Rightarrow>
     (('row list \<Rightarrow> 'row list) \<Rightarrow> tables \<Rightarrow> tables) \<Rightarrow> 'row schema \<Rightarrow> ('o mem, 'row) table_api" where
  "mem_table flaky run get upd sch =
     \<lparr>db_First = (\<lambda>p. mem_read flaky run (\<lambda>d. least_row sch p (get d))),
      db_FirstForUpdate = (\<lambda>p. mem_read flaky run (\<lambda>d. least_row sch p (get d))),
      db_Create = (\<lambda>row. mem_write flaky run upd (\<lambda>t d. insert_row sch row t (get d))),
      db_Save = (\<lambda>row. mem_write flaky run upd (\<lambda>t d. save_row sch row t (get d))),
      db_Updates = (\<lambda>p f. mem_write flaky run upd (\<lambda>t d.
        (Inr (length (filter p (get d))), Some (map (\<lambda>x. if p x then sch_touch sch t (f x) else x) (get d))))),
      db_Delete = (\<lambda>p. mem_write flaky run upd (\<lambda>t d.
        (Inr (length (filter p (get d))), Some (filter (\<lambda>x. \<not> p x) (get d))))),
      db_Count = (\<lambda>p. mem_read flaky run (\<lambda>d. Inr (length (filter p (get d))))),
      db_Find = (\<lambda>p key off lim. mem_read flaky run (\<lambda>d.
        Inr (page_rows off lim (sort_key key (filter p (get d))))))\<rparr>"

section \<open>Transactions, Redis, Kafka\<close>

definition mem_Transaction ::
    "bool \<Rightarrow> ('o \<Rightarrow> tables \<Rightarrow> tables) \<Rightarrow> ('o mem \<Rightarrow> (go_error + 'c) \<times> 'o mem) \<Rightarrow> 'o mem \<Rightarrow>
     (go_error + 'c) \<times> 'o mem" where
  "mem_Transaction flaky run f w =
     (let w1 = mem_enter run w in
      if mem_fault flaky w then (Inl (ErrExternal ''begin failed''), w1)
      else case f w1 of
             (Inl e, w2) \<Rightarrow> (Inl e, w2\<lparr>mem_db := mem_db w1\<rparr>)
           | (Inr u, w2) \<Rightarrow>
               (let w3 = mem_enter run w2 in
                if mem_fault flaky w2 then (Inl (ErrExternal ''commit failed''), w3\<lparr>mem_db := mem_db w1\<rparr>)
                else (Inr u, w3)))"

definition mem_redis ::
    "bool \<Rightarrow> (redis_kv \<Rightarrow> (go_error + 'a) \<times> redis_kv) \<Rightarrow> 'o mem \<Rightarrow> (go_error + 'a) \<times> 'o mem" where
  "mem_redis flaky q w =
     (let w1 = w\<lparr>mem_faults := tl (mem_faults w)\<rparr> in
      if mem_fault flaky w then (Inl (ErrExternal ''i/o timeout''), w1)
      else case q (mem_kv w1) of (r, m) \<Rightarrow> (r, w1\<lparr>mem_kv := m\<rparr>))"

definition mem_incr :: "int \<Rightarrow> string \<Rightarrow> redis_kv \<Rightarrow> (go_error + int) \<times> redis_kv" where
  "mem_incr n k m =
     (case counter_value (m k) of
        None \<Rightarrow> (Inl (ErrExternal ''ERR value is not an integer or out of range''), m)
      | Some c \<Rightarrow> (Inr (c + n), m(k \<mapsto> Text (show_int (c + n)))))"

definition mem_send :: "bool \<Rightarrow> string \<Rightarrow> string \<Rightarrow> json \<Rightarrow> 'o mem \<Rightarrow> (go_error + unit) \<times> 'o mem" where
  "mem_send flaky topic key val w =
     (let w1 = w\<lparr>mem_faults := tl (mem_faults w)\<rparr> in
      if mem_fault flaky w then (Inl (ErrExternal ''kafka: request timed out''), w1)
      else (Inr (), w1\<lparr>mem_log := mem_log w1 @ [(topic, key, val)]\<rparr>))"

definition mem_ext ::
    "bool \<Rightarrow> ('o \<Rightarrow> tables \<Rightarrow> tables) \<Rightarrow> (float64 \<Rightarrow> float64) \<Rightarrow> (json \<Rightarrow> json) \<Rightarrow> 'o mem ext" where
  "mem_ext flaky run num jsonb =
     \<lparr>inventories_tbl = mem_table flaky run t_inventories t_inventories_update inventory_schema,
      orders_tbl = mem_table flaky run t_orders t_orders_update (order_schema num),
      payments_tbl = mem_table flaky run t_payments t_payments_update (payment_schema num),
      products_tbl = mem_table flaky run t_products t_products_update (product_schema num),
      outbox_tbl = mem_table flaky run t_outbox t_outbox_update (outbox_schema jsonb),
      users_tbl = mem_table flaky run t_users t_users_update user_schema,
      db_Transaction = mem_Transaction flaky run,
      rdb_SetNX = (\<lambda>k v ttl. mem_redis flaky (\<lambda>m.
        case m k of None \<Rightarrow> (Inr True, m(k \<mapsto> v)) | Some _ \<Rightarrow> (Inr False, m))),
      rdb_Get = (\<lambda>k. mem_redis flaky (\<lambda>m.
        ((case m k of None \<Rightarrow> Inl RedisNil | Some v \<Rightarrow> Inr v), m))),
      rdb_Set = (\<lambda>k v ttl. mem_redis flaky (\<lambda>m. (Inr (), m(k \<mapsto> v)))),
      rdb_Del = (\<lambda>k. mem_redis flaky (\<lambda>m. (Inr (), m(k := None)))),
      rdb_DecrBy = (\<lambda>k n. mem_redis flaky (mem_incr (- n) k)),
      rdb_IncrBy = (\<lambda>k n. mem_redis flaky (mem_incr n k)),
      kafka_SendMessage = mem_send flaky,
      time_Now = (\<lambda>w. (mem_clock w, w\<lparr>mem_clock := mem_clock w + 1000000\<rparr>)),
      uuid_New = (\<lambda>w. (''uuid-'' @ show_nat (mem_uuids w), w\<lparr>mem_uuids := Suc (mem_uuids w)\<rparr>)),
      rand_Float64 = (\<lambda>w. case mem_rands w of [] \<Rightarrow> (f64_zero, w)
                              | x # xs \<Rightarrow> (if \<not> f64_lt x f64_zero \<and> f64_lt x f64_one then x else f64_zero,
                                             w\<lparr>mem_rands := xs\<rparr>)),
      rand_Intn = (\<lambda>n w. (mem_clock w mod n, w))\<rparr>"

text \<open>An empty store at a given instant, with nothing scripted.\<close>

definition mem_empty :: "'o mem" where
  "mem_empty =
     \<lparr>mem_db = \<lparr>t_inventories = [], t_orders = [], t_payments = [], t_products = [], t_outbox = [], t_users = []\<rparr>,
      mem_kv = Map.empty, mem_log = [], mem_clock = 0, mem_faults = [], mem_others = [],
      mem_uuids = 0, mem_rands = []\<rparr>"

section \<open>The reference store meets the contracts\<close>

lemma mem_read_law:
  assumes "mem_read flaky run q w = (r, w')" "\<And>d. ok (q d) d" "\<And>e d. is_external e \<Longrightarrow> ok (Inl e) d"
  shows "mem_kv w' = mem_kv w \<and> mem_log w' = mem_log w \<and> rely_of run (mem_db w) (mem_db w')
    \<and> ok r (mem_db w')"
  using assms by (auto simp: mem_read_def Let_def split: if_splits)

lemma mem_write_law:
  assumes "mem_write flaky run upd q w = (r, w')"
    and "\<And>t d. ok (fst (q t d)) d (case snd (q t d) of None \<Rightarrow> get d | Some rows \<Rightarrow> rows)"
    and "\<And>e d. is_external e \<Longrightarrow> ok (Inl e) d (get d)"
    and "\<And>d. upd (\<lambda>_. get d) d = d"
  shows "mem_kv w' = mem_kv w \<and> mem_log w' = mem_log w \<and>
    (\<exists>d rows. rely_of run (mem_db w) d \<and> mem_db w' = upd (\<lambda>_. rows) d \<and> ok r d rows)"
proof -
  let ?w = "mem_enter run w"
  show ?thesis
  proof (cases "mem_fault flaky w")
    case True
    with assms(1) have "r = Inl (ErrExternal ''bad connection'')" "w' = ?w"
      by (simp_all add: mem_write_def)
    then show ?thesis using assms(3,4)
      by (intro conjI exI [of _ "mem_db ?w"] exI [of _ "get (mem_db ?w)"]) auto
  next
    case False
    obtain r0 o0 where q: "q (mem_clock ?w) (mem_db ?w) = (r0, o0)" by fastforce
    let ?rows = "case o0 of None \<Rightarrow> get (mem_db ?w) | Some rows \<Rightarrow> rows"
    have "r = r0" and w': "w' = (case o0 of None \<Rightarrow> ?w | Some rows \<Rightarrow> ?w\<lparr>mem_db := upd (\<lambda>_. rows) (mem_db ?w)\<rparr>)"
      using assms(1) False q by (auto simp: mem_write_def Let_def split: option.splits)
    moreover have "ok r0 (mem_db ?w) ?rows" using assms(2) [of "mem_clock ?w" "mem_db ?w"] q by simp
    ultimately show ?thesis using assms(4)
      by (intro conjI exI [of _ "mem_db ?w"] exI [of _ ?rows]) (auto split: option.splits)
  qed
qed

lemma least_row_first: "first_result sch p rows (least_row sch p rows)"
proof (cases "sort_key (sch_pk sch) (filter p rows)")
  case Nil
  then have "filter p rows = []" by (metis length_0_conv length_sort)
  then show ?thesis by (auto simp: first_result_def least_row_def filter_empty_conv)
next
  case (Cons x xs)
  have set: "set (x # xs) = {y \<in> set rows. p y}"
    by (metis Cons set_filter set_sort)
  have "sorted (map (sch_pk sch) (x # xs))" using Cons sorted_sort_key by metis
  then have "\<forall>y\<in>set (x # xs). sch_pk sch x \<le> sch_pk sch y" by simp
  then show ?thesis using Cons set unfolding first_result_def least_row_def by auto
qed

lemma insert_row_create:
  "create_result sch row rows
     (case snd (insert_row sch row t rows) of None \<Rightarrow> rows | Some rows' \<Rightarrow> rows')
     (fst (insert_row sch row t rows))"
  by (auto simp: create_result_def insert_row_def Let_def clashes_def list_ex_iff)

lemma save_row_save:
  "save_result sch row rows
     (case snd (save_row sch row t rows) of None \<Rightarrow> rows | Some rows' \<Rightarrow> rows')
     (fst (save_row sch row t rows))"
  using insert_row_create [of sch row rows t]
  by (auto simp: save_result_def save_row_def Let_def list_ex_iff)

lemma fresh_pk_fresh: "y \<in> set rows \<Longrightarrow> sch_pk sch y < fresh_pk sch rows"
  by (induction rows) (auto simp: fresh_pk_def)


lemma external_results:
  assumes "is_external e"
  shows "first_result sch p rows (Inl e)" "create_result sch row rows rows (Inl e)"
    "save_result sch row rows rows (Inl e)" "update_result sch p f rows rows (Inl e)"
    "delete_result p rows rows (Inl e)" "count_result p rows (Inl e)"
    "find_result p key off lim rows (Inl e)"
  using assms by (simp_all add: result_defs)

lemma plain_results:
  "update_result sch p f rows (map (\<lambda>x. if p x then sch_touch sch t (f x) else x) rows)
     (Inr (length (filter p rows)))"
  "delete_result p rows (filter (\<lambda>x. \<not> p x) rows) (Inr (length (filter p rows)))"
  "count_result p rows (Inr (length (filter p rows)))"
  "find_result p key off lim rows (Inr (page_rows off lim (sort_key key (filter p rows))))"
  by (auto simp: update_result_def delete_result_def count_result_def find_result_def
      intro!: exI [of _ "sort_key key (filter p rows)"])

lemma mem_table_gorm:
  assumes lens: "\<And>d. upd (\<lambda>_. get d) d = d" "\<And>g d. get (upd g d) = g (get d)"
    "\<And>g h d. upd g (upd h d) = upd (\<lambda>x. g (h x)) d"
  shows "gorm_table mem_db (\<lambda>w. (mem_kv w, mem_log w)) (rely_of run) get upd sch (mem_table flaky run get upd sch)"
proof (unfold_locales, goal_cases)
  case (1 p w r w')
  then have "mem_read flaky run (\<lambda>d. least_row sch p (get d)) w = (r, w')"
    by (simp add: mem_table_def)
  from mem_read_law [OF this, of "\<lambda>r d. first_result sch p (get d) r"] show ?case
    by (simp add: least_row_first external_results)
next
  case (2 p w r w')
  then have "mem_read flaky run (\<lambda>d. least_row sch p (get d)) w = (r, w')"
    by (simp add: mem_table_def)
  from mem_read_law [OF this, of "\<lambda>r d. first_result sch p (get d) r"] show ?case
    by (simp add: least_row_first external_results)
next
  case (3 row w r w')
  then have "mem_write flaky run upd (\<lambda>t d. insert_row sch row t (get d)) w = (r, w')"
    by (simp add: mem_table_def)
  from mem_write_law [OF this, of "\<lambda>r d rows. create_result sch row (get d) rows r" get] show ?case
    by (simp add: insert_row_create external_results lens)
next
  case (4 row w r w')
  then have "mem_write flaky run upd (\<lambda>t d. save_row sch row t (get d)) w = (r, w')"
    by (simp add: mem_table_def)
  from mem_write_law [OF this, of "\<lambda>r d rows. save_result sch row (get d) rows r" get] show ?case
    by (simp add: save_row_save external_results lens)
next
  case (5 p f w r w')
  then have "mem_write flaky run upd (\<lambda>t d. (Inr (length (filter p (get d))),
      Some (map (\<lambda>x. if p x then sch_touch sch t (f x) else x) (get d)))) w = (r, w')"
    by (simp add: mem_table_def)
  from mem_write_law [OF this, of "\<lambda>r d rows. update_result sch p f (get d) rows r" get] show ?case
    by (simp add: plain_results external_results lens)
next
  case (6 p w r w')
  then have "mem_write flaky run upd (\<lambda>t d. (Inr (length (filter p (get d))),
      Some (filter (\<lambda>x. \<not> p x) (get d)))) w = (r, w')"
    by (simp add: mem_table_def)
  from mem_write_law [OF this, of "\<lambda>r d rows. delete_result p (get d) rows r" get] show ?case
    by (simp add: plain_results external_results lens)
next
  case (7 p w r w')
  then have "mem_read flaky run (\<lambda>d. Inr (length (filter p (get d)))) w = (r, w')"
    by (simp add: mem_table_def)
  from mem_read_law [OF this, of "\<lambda>r d. count_result p (get d) r"] show ?case
    by (simp add: plain_results external_results)
next
  case (8 p key off lim w r w')
  then have "mem_read flaky run (\<lambda>d. Inr (page_rows off lim (sort_key key (filter p (get d))))) w = (r, w')"
    by (simp add: mem_table_def)
  from mem_read_law [OF this, of "\<lambda>r d. find_result p key off lim (get d) r"] show ?case
    by (simp add: plain_results external_results)
qed (use lens rely_of_trans in auto)

lemma tx_result_body_error:
  assumes "f u = (Inl e, v)" "rest u = rest w" "rely (db w) (db u)" "rest w' = rest v" "rely (db w) (db w')"
  shows "tx_result db rest rely f w (Inl e) w'"
  using assms unfolding tx_result_def by auto

lemma tx_result_begin_error:
  assumes "is_external e" "rest w' = rest w" "rely (db w) (db w')"
  shows "tx_result db rest rely f w (Inl e) w'"
  using assms unfolding tx_result_def by auto

lemma tx_result_commit_error:
  assumes "is_external e" "f u = (Inr x, v)" "rest u = rest w" "rely (db w) (db u)"
    "rest w' = rest v" "rely (db w) (db w')"
  shows "tx_result db rest rely f w (Inl e) w'"
  using assms unfolding tx_result_def by auto

lemma tx_result_commit:
  assumes "f u = (Inr x, v)" "rest u = rest w" "rely (db w) (db u)" "rest w' = rest v" "rely (db v) (db w')"
  shows "tx_result db rest rely f w (Inr x) w'"
  using assms unfolding tx_result_def by auto

lemma mem_session:
  "gorm_session mem_db (\<lambda>w. (mem_kv w, mem_log w)) (rely_of run) (mem_Transaction flaky run)"
proof (unfold_locales, goal_cases)
  case (1 f w r w')
  let ?w = "mem_enter run w"
  obtain r2 w2 where f: "f ?w = (r2, w2)" by fastforce
  show ?case
  proof (cases "mem_fault flaky w")
    case True
    with 1 have "r = Inl (ErrExternal ''begin failed'')" "w' = ?w"
      by (auto simp: mem_Transaction_def)
    then show ?thesis by (simp add: tx_result_begin_error)
  next
    case ok: False
    show ?thesis
    proof (cases r2)
      case (Inl e)
      with 1 f ok have "r = Inl e" "w' = w2\<lparr>mem_db := mem_db ?w\<rparr>"
        by (auto simp: mem_Transaction_def Let_def)
      with f Inl show ?thesis by (auto intro!: tx_result_body_error [where u = ?w])
    next
      case (Inr u)
      with f have f': "f ?w = (Inr u, w2)" by simp
      show ?thesis
      proof (cases "mem_fault flaky w2")
        case True
        with 1 f Inr ok have "r = Inl (ErrExternal ''commit failed'')"
          "w' = (mem_enter run w2)\<lparr>mem_db := mem_db ?w\<rparr>"
          by (auto simp: mem_Transaction_def Let_def)
        with f' show ?thesis by (auto intro!: tx_result_commit_error [where u = ?w])
      next
        case False
        with 1 f Inr ok have "r = Inr u" "w' = mem_enter run w2"
          by (auto simp: mem_Transaction_def Let_def)
        with f' show ?thesis by (auto intro!: tx_result_commit [where u = ?w])
      qed
    qed
  qed
qed

lemma mem_redis_law:
  assumes "mem_redis flaky q w = (r, w')" "\<And>m. ok m (snd (q m)) (fst (q m))"
    "\<And>e m. is_external e \<Longrightarrow> ok m m (Inl e)"
  shows "mem_db w' = mem_db w \<and> mem_log w' = mem_log w \<and> ok (mem_kv w) (mem_kv w') r"
  using assms(1) assms(2) [of "mem_kv w"] assms(3)
  by (auto simp: mem_redis_def Let_def split: if_splits prod.splits)

lemma mem_redis_client:
  "redis_client (\<lambda>w. (mem_db w, mem_log w)) mem_kv (mem_ext flaky run num jsonb)"
proof (unfold_locales, goal_cases)
  case (1 k v ttl w r w')
  then have "mem_redis flaky (\<lambda>m. case m k of None \<Rightarrow> (Inr True, m(k \<mapsto> v)) | Some _ \<Rightarrow> (Inr False, m)) w = (r, w')"
    by (simp add: mem_ext_def)
  from mem_redis_law [OF this, of "\<lambda>m m' r. setnx_result k v m m' r"] show ?case
    by (auto simp: setnx_result_def split: option.splits)
next
  case (2 k w r w')
  then have "mem_redis flaky (\<lambda>m. ((case m k of None \<Rightarrow> Inl RedisNil | Some v \<Rightarrow> Inr v), m)) w = (r, w')"
    by (simp add: mem_ext_def)
  from mem_redis_law [OF this, of "\<lambda>m m' r. m' = m \<and> get_result k m r"] show ?case
    by (auto simp: get_result_def split: option.splits)
next
  case (3 k v ttl w r w')
  then have "mem_redis flaky (\<lambda>m. (Inr (), m(k \<mapsto> v))) w = (r, w')"
    by (simp add: mem_ext_def)
  from mem_redis_law [OF this, of "\<lambda>m m' r. write_result m (m(k \<mapsto> v)) m' r"] show ?case
    by (auto simp: write_result_def split: option.splits)
next
  case (4 k w r w')
  then have "mem_redis flaky (\<lambda>m. (Inr (), m(k := None))) w = (r, w')"
    by (simp add: mem_ext_def)
  from mem_redis_law [OF this, of "\<lambda>m m' r. write_result m (m(k := None)) m' r"] show ?case
    by (auto simp: write_result_def split: option.splits)
next
  case (5 k n w r w')
  then have "mem_redis flaky (mem_incr (- n) k) w = (r, w')"
    by (simp add: mem_ext_def)
  from mem_redis_law [OF this, of "\<lambda>m m' r. incr_result (- n) k m m' r"] show ?case
    by (auto simp: incr_result_def mem_incr_def split: option.splits)
next
  case (6 k n w r w')
  then have "mem_redis flaky (mem_incr n k) w = (r, w')"
    by (simp add: mem_ext_def)
  from mem_redis_law [OF this, of "\<lambda>m m' r. incr_result n k m m' r"] show ?case
    by (auto simp: incr_result_def mem_incr_def split: option.splits)
qed

lemma mem_kafka:
  "kafka_producer (\<lambda>w. (mem_db w, mem_kv w)) mem_log (mem_ext flaky run num jsonb)"
  by unfold_locales (auto simp: mem_ext_def mem_send_def Let_def split: if_splits)

lemma mem_inputs:
  "process_inputs (\<lambda>w. (mem_db w, mem_kv w, mem_log w)) (mem_ext flaky run num jsonb)"
  by unfold_locales (auto simp: mem_ext_def zero_below_one split: list.splits if_splits)

lemma mem_runtime:
  "runtime mem_db mem_kv mem_log (rely_of run) num jsonb (mem_ext flaky run num jsonb)"
  unfolding runtime_def
  by (simp add: mem_redis_client mem_kafka mem_inputs)
    (simp add: mem_ext_def mem_table_gorm mem_session)

interpretation shared: runtime mem_db mem_kv mem_log "rely_of run" num jsonb "mem_ext flaky run num jsonb"
  for run flaky num jsonb
  by (rule mem_runtime)

interpretation quiet: quiet_runtime mem_db mem_kv mem_log num jsonb "mem_ext flaky (\<lambda>_ d. d) num jsonb"
  for flaky num jsonb
  using mem_runtime [of "\<lambda>_ d. d" num jsonb flaky] by (simp add: quiet_runtime_def rely_of_quiet)

section \<open>Without failures\<close>

lemma mem_fault_reliable [simp]: "mem_fault False w = False"
  by (simp add: mem_fault_def)

lemma mem_reliable_table_axioms:
  assumes lens: "\<And>d. upd (\<lambda>_. get d) d = d" "\<And>g d. get (upd g d) = g (get d)"
    "\<And>g h d. upd g (upd h d) = upd (\<lambda>x. g (h x)) d"
    and pk: "\<And>i t x. sch_pk sch (sch_created sch i t x) = (if sch_pk sch x = 0 then i else sch_pk sch x)"
    and un: "\<And>i t x y. sch_unique sch y (sch_created sch i t x) = sch_unique sch y x"
  shows "reliable_table mem_db (\<lambda>w. (mem_kv w, mem_log w)) (rely_of run) get upd sch
    (mem_table False run get upd sch)"
  unfolding reliable_table_def reliable_table_axioms_def
proof (intro conjI mem_table_gorm lens allI impI, goal_cases)
  case (1 p w e w')
  then show ?case
    by (auto simp: mem_table_def mem_read_def Let_def least_row_def split: list.splits)
next
  case (2 row w e w')
  let ?rows = "get (mem_interfere run w)"
  from 2 obtain y where "y \<in> set ?rows" "get (mem_db w') = ?rows"
    "sch_pk sch y = fresh_pk sch ?rows \<or> sch_unique sch y row"
    by (auto simp: mem_table_def mem_write_def insert_row_def Let_def list_ex_iff pk un
        split: if_splits)
  with fresh_pk_fresh [of y ?rows sch] show ?case by auto
next
  case (3 p f w nr w')
  then show ?case by (auto simp: mem_table_def mem_write_def Let_def)
next
  case (4 p key off lim w fr w')
  then show ?case by (auto simp: mem_table_def mem_read_def Let_def)
qed

lemma mem_reliable_session:
  "reliable_session mem_db (\<lambda>w. (mem_kv w, mem_log w)) (rely_of run) (mem_Transaction False run)"
  unfolding reliable_session_def reliable_session_axioms_def
proof (intro conjI mem_session allI impI)
  fix f :: "'a mem \<Rightarrow> (go_error + 'b) \<times> 'a mem" and w e w'
  assume "mem_Transaction False run f w = (Inl e, w')"
  then obtain v where "f (mem_enter run w) = (Inl e, v)"
    by (auto simp: mem_Transaction_def Let_def split: sum.splits prod.splits)
  then show "\<exists>u v. (mem_kv u, mem_log u) = (mem_kv w, mem_log w) \<and>
      rely_of run (mem_db w) (mem_db u) \<and> f u = (Inl e, v)"
    by (intro exI [of _ "mem_enter run w"] exI [of _ v]) simp
qed

lemma mem_reliable_redis:
  "reliable_redis (\<lambda>w. (mem_db w, mem_log w)) mem_kv (mem_ext False run num jsonb)"
  unfolding reliable_redis_def reliable_redis_axioms_def
  by (intro conjI mem_redis_client allI impI)
    (auto simp: mem_ext_def mem_redis_def mem_incr_def Let_def split: option.splits)

lemma mem_reliable_kafka:
  "reliable_kafka (\<lambda>w. (mem_db w, mem_kv w)) mem_log (mem_ext False run num jsonb)"
  unfolding reliable_kafka_def reliable_kafka_axioms_def
  by (intro conjI mem_kafka allI impI) (auto simp: mem_ext_def mem_send_def Let_def)

lemma mem_reliable_tables:
  "reliable_table mem_db (\<lambda>w. (mem_kv w, mem_log w)) (rely_of run) t_inventories t_inventories_update
     inventory_schema (mem_table False run t_inventories t_inventories_update inventory_schema)"
  "reliable_table mem_db (\<lambda>w. (mem_kv w, mem_log w)) (rely_of run) t_orders t_orders_update
     (order_schema num) (mem_table False run t_orders t_orders_update (order_schema num))"
  "reliable_table mem_db (\<lambda>w. (mem_kv w, mem_log w)) (rely_of run) t_payments t_payments_update
     (payment_schema num) (mem_table False run t_payments t_payments_update (payment_schema num))"
  "reliable_table mem_db (\<lambda>w. (mem_kv w, mem_log w)) (rely_of run) t_products t_products_update
     (product_schema num) (mem_table False run t_products t_products_update (product_schema num))"
  "reliable_table mem_db (\<lambda>w. (mem_kv w, mem_log w)) (rely_of run) t_outbox t_outbox_update
     (outbox_schema jsonb) (mem_table False run t_outbox t_outbox_update (outbox_schema jsonb))"
  "reliable_table mem_db (\<lambda>w. (mem_kv w, mem_log w)) (rely_of run) t_users t_users_update
     user_schema (mem_table False run t_users t_users_update user_schema)"
  by (rule mem_reliable_table_axioms; simp add: schema_defs)+

lemma mem_reliable_runtime:
  "reliable_runtime (mem_db :: 'o mem \<Rightarrow> tables) mem_kv mem_log num jsonb (mem_ext False (\<lambda>_ d. d) num jsonb)"
  unfolding reliable_runtime_def
  using mem_reliable_tables [of "\<lambda>(_ :: 'o) d. d"] mem_reliable_session [of "\<lambda>(_ :: 'o) d. d"]
  by (simp add: quiet.quiet_runtime_axioms mem_reliable_redis mem_reliable_kafka rely_of_quiet)
    (simp add: mem_ext_def)

interpretation reliable: reliable_runtime mem_db mem_kv mem_log num jsonb "mem_ext False (\<lambda>_ d. d) num jsonb"
  for num jsonb
  by (rule mem_reliable_runtime)

text \<open>The store the witnesses run on: no other sessions, and columns that keep what they are given.\<close>

abbreviation demo_ext :: "bool \<Rightarrow> unit mem ext" where
  "demo_ext flaky \<equiv> mem_ext flaky (\<lambda>_ d. d) (\<lambda>x. x) (\<lambda>j. j)"

lemma demo_quiet: "quiet_runtime mem_db mem_kv mem_log (\<lambda>x. x) (\<lambda>j. j) (demo_ext flaky)"
  by (rule quiet.quiet_runtime_axioms)

lemma demo_reliable: "reliable_runtime mem_db mem_kv mem_log (\<lambda>x. x) (\<lambda>j. j) (demo_ext False)"
  by (rule reliable.reliable_runtime_axioms)

end
