(* ===== verification/Event.thy ===== *)
theory Event
  imports Models
begin

text \<open>
  \<^verbatim>\<open>pkg/event\<close>: the saga's event types, topics and payloads, with what
  \<^verbatim>\<open>encoding/json\<close> makes of them. Go embeds \<^verbatim>\<open>BaseEvent\<close> in every payload; here each
  payload record extends the record \<open>BaseEvent\<close>. \<^verbatim>\<open>Marshal\<close> writes the embedded fields
  first, under the names of the struct tags, and refuses a float that is not finite.
  \<^verbatim>\<open>Unmarshal\<close> finds a field's member up to the case of its letters, lets the last one win,
  keeps the zero value for a missing or null member, and fails on a member of another type.
  Modelled keys are ASCII. A string member that holds an instant is decoded as an instant only.
\<close>

section \<open>Names\<close>

definition OrderCreated :: string where "OrderCreated = ''ORDER_CREATED''"
definition OrderCompleted :: string where "OrderCompleted = ''ORDER_COMPLETED''"
definition OrderCancelled :: string where "OrderCancelled = ''ORDER_CANCELLED''"
definition PaymentRequested :: string where "PaymentRequested = ''PAYMENT_REQUESTED''"
definition StockDeducted :: string where "StockDeducted = ''STOCK_DEDUCTED''"
definition StockDeductFailed :: string where "StockDeductFailed = ''STOCK_DEDUCT_FAILED''"
definition PaymentSuccess :: string where "PaymentSuccess = ''PAYMENT_SUCCESS''"
definition PaymentFailed :: string where "PaymentFailed = ''PAYMENT_FAILED''"

definition TopicOrderEvents :: string where "TopicOrderEvents = ''order-events''"
definition TopicInventoryEvents :: string where "TopicInventoryEvents = ''inventory-events''"
definition TopicPaymentEvents :: string where "TopicPaymentEvents = ''payment-events''"

lemmas event_type_defs = OrderCreated_def OrderCompleted_def OrderCancelled_def PaymentRequested_def
  StockDeducted_def StockDeductFailed_def PaymentSuccess_def PaymentFailed_def

lemmas topic_defs = TopicOrderEvents_def TopicInventoryEvents_def TopicPaymentEvents_def

section \<open>Payloads\<close>

record BaseEvent =
  ev_EventID :: string
  ev_EventType :: string
  ev_Timestamp :: time

record OrderCreatedEvent = BaseEvent +
  oc_OrderNo :: string
  oc_UserID :: nat
  oc_ProductID :: nat
  oc_Quantity :: int
  oc_TotalPrice :: float64

record OrderCompletedEvent = BaseEvent +
  of_OrderNo :: string
  of_ProductID :: nat
  of_Quantity :: int

record OrderCancelledEvent = BaseEvent +
  ox_OrderNo :: string
  ox_UserID :: nat
  ox_ProductID :: nat
  ox_Quantity :: int
  ox_Reason :: string

record PaymentRequestedEvent = BaseEvent +
  pr_OrderNo :: string
  pr_UserID :: nat
  pr_Amount :: float64

record StockDeductedEvent = BaseEvent +
  sd_OrderNo :: string
  sd_ProductID :: nat
  sd_Quantity :: int

record StockDeductFailedEvent = BaseEvent +
  sf_OrderNo :: string
  sf_ProductID :: nat
  sf_Reason :: string

record PaymentResultEvent = BaseEvent +
  ps_OrderNo :: string
  ps_PaymentID :: string
  ps_Amount :: float64

datatype payload =
    PayOrderCreated OrderCreatedEvent
  | PayOrderCompleted OrderCompletedEvent
  | PayOrderCancelled OrderCancelledEvent
  | PayPaymentRequested PaymentRequestedEvent
  | PayStockDeducted StockDeductedEvent
  | PayStockDeductFailed StockDeductFailedEvent
  | PayPaymentResult PaymentResultEvent

section \<open>Marshal\<close>

definition base_members :: "'a BaseEvent_scheme \<Rightarrow> (string \<times> json) list" where
  "base_members e =
     [(''event_id'', JStr (ev_EventID e)), (''event_type'', JStr (ev_EventType e)),
      (''timestamp'', JTime (ev_Timestamp e))]"

definition marshal_float :: "float64 \<Rightarrow> go_error + json" where
  "marshal_float f =
     (if f64_is_finite f then Inr (JFloat f) else Inl (ErrJSON ''json: unsupported value''))"

fun json_Marshal :: "payload \<Rightarrow> go_error + json" where
  "json_Marshal (PayOrderCreated e) =
     sum_bind (marshal_float (oc_TotalPrice e)) (\<lambda>p. Inr (JObj (base_members e @
       [(''order_no'', JStr (oc_OrderNo e)), (''user_id'', JInt (int (oc_UserID e))),
        (''product_id'', JInt (int (oc_ProductID e))), (''quantity'', JInt (oc_Quantity e)),
        (''total_price'', p)])))"
| "json_Marshal (PayOrderCompleted e) =
     Inr (JObj (base_members e @
       [(''order_no'', JStr (of_OrderNo e)), (''product_id'', JInt (int (of_ProductID e))),
        (''quantity'', JInt (of_Quantity e))]))"
| "json_Marshal (PayOrderCancelled e) =
     Inr (JObj (base_members e @
       [(''order_no'', JStr (ox_OrderNo e)), (''user_id'', JInt (int (ox_UserID e))),
        (''product_id'', JInt (int (ox_ProductID e))), (''quantity'', JInt (ox_Quantity e)),
        (''reason'', JStr (ox_Reason e))]))"
| "json_Marshal (PayPaymentRequested e) =
     sum_bind (marshal_float (pr_Amount e)) (\<lambda>a. Inr (JObj (base_members e @
       [(''order_no'', JStr (pr_OrderNo e)), (''user_id'', JInt (int (pr_UserID e))),
        (''amount'', a)])))"
| "json_Marshal (PayStockDeducted e) =
     Inr (JObj (base_members e @
       [(''order_no'', JStr (sd_OrderNo e)), (''product_id'', JInt (int (sd_ProductID e))),
        (''quantity'', JInt (sd_Quantity e))]))"
| "json_Marshal (PayStockDeductFailed e) =
     Inr (JObj (base_members e @
       [(''order_no'', JStr (sf_OrderNo e)), (''product_id'', JInt (int (sf_ProductID e))),
        (''reason'', JStr (sf_Reason e))]))"
| "json_Marshal (PayPaymentResult e) =
     sum_bind (marshal_float (ps_Amount e)) (\<lambda>a. Inr (JObj (base_members e @
       [(''order_no'', JStr (ps_OrderNo e)), (''payment_id'', JStr (ps_PaymentID e)),
        (''amount'', a)])))"

section \<open>Unmarshal\<close>

definition lower_char :: "char \<Rightarrow> char" where
  "lower_char c = (if 65 \<le> (of_char c :: nat) \<and> (of_char c :: nat) \<le> 90 then char_of (of_char c + 32 :: nat) else c)"

text \<open>The same on the bits of the character, for evaluation.\<close>

lemma lower_char_code [code]:
  "lower_char (Char a b c d e f g h) =
     (if g \<and> \<not> f \<and> \<not> h \<and> (a \<or> b \<or> c \<or> d \<or> e) \<and> \<not> (d \<and> e \<and> (c \<or> a \<and> b))
      then Char a b c d e True g h else Char a b c d e f g h)"
  by (cases a; cases b; cases c; cases d; cases e; cases f; cases g; cases h; simp add: lower_char_def char_of_def bit_0)

definition fold_key :: "string \<Rightarrow> string" where
  "fold_key k = map lower_char k"

definition json_get :: "string \<Rightarrow> (string \<times> json) list \<Rightarrow> json option" where
  "json_get f ms = map_of (rev (map (\<lambda>(k, v). (fold_key k, v)) ms)) f"

definition type_error :: "go_error + 'a" where
  "type_error = Inl (ErrJSON ''json: cannot unmarshal value into Go struct field'')"

definition dec_string :: "string \<Rightarrow> (string \<times> json) list \<Rightarrow> go_error + string" where
  "dec_string f ms =
     (case json_get f ms of
        None \<Rightarrow> Inr '''' | Some JNull \<Rightarrow> Inr '''' | Some (JStr s) \<Rightarrow> Inr s | Some _ \<Rightarrow> type_error)"

definition dec_uint :: "string \<Rightarrow> (string \<times> json) list \<Rightarrow> go_error + nat" where
  "dec_uint f ms =
     (case json_get f ms of
        None \<Rightarrow> Inr 0 | Some JNull \<Rightarrow> Inr 0
      | Some (JInt i) \<Rightarrow> (if 0 \<le> i \<and> i < 2 ^ 64 then Inr (nat i) else type_error)
      | Some _ \<Rightarrow> type_error)"

definition dec_int :: "string \<Rightarrow> (string \<times> json) list \<Rightarrow> go_error + int" where
  "dec_int f ms =
     (case json_get f ms of
        None \<Rightarrow> Inr 0 | Some JNull \<Rightarrow> Inr 0
      | Some (JInt i) \<Rightarrow> (if in_int64 i then Inr i else type_error)
      | Some _ \<Rightarrow> type_error)"

definition dec_float :: "string \<Rightarrow> (string \<times> json) list \<Rightarrow> go_error + float64" where
  "dec_float f ms =
     (case json_get f ms of
        None \<Rightarrow> Inr f64_zero | Some JNull \<Rightarrow> Inr f64_zero
      | Some (JInt i) \<Rightarrow> (if f64_is_finite (f64_of_int i) then Inr (f64_of_int i) else type_error)
      | Some (JFloat x) \<Rightarrow> Inr x
      | Some _ \<Rightarrow> type_error)"

definition dec_time :: "string \<Rightarrow> (string \<times> json) list \<Rightarrow> go_error + time" where
  "dec_time f ms =
     (case json_get f ms of
        None \<Rightarrow> Inr 0 | Some JNull \<Rightarrow> Inr 0 | Some (JTime t) \<Rightarrow> Inr t | Some _ \<Rightarrow> type_error)"

lemmas dec_defs = dec_string_def dec_uint_def dec_int_def dec_float_def dec_time_def

text \<open>A struct is read from an object; null leaves every field at its zero value.\<close>

definition json_Unmarshal :: "((string \<times> json) list \<Rightarrow> go_error + 'a) \<Rightarrow> json \<Rightarrow> go_error + 'a" where
  "json_Unmarshal dec j =
     (case j of JObj ms \<Rightarrow> dec ms | JNull \<Rightarrow> dec [] | _ \<Rightarrow> type_error)"

definition dec_BaseEvent :: "(string \<times> json) list \<Rightarrow> go_error + BaseEvent" where
  "dec_BaseEvent ms =
     sum_bind (dec_string ''event_id'' ms) (\<lambda>i. sum_bind (dec_string ''event_type'' ms) (\<lambda>t.
     sum_bind (dec_time ''timestamp'' ms) (\<lambda>ts.
       Inr \<lparr>ev_EventID = i, ev_EventType = t, ev_Timestamp = ts\<rparr>)))"

definition dec_OrderCreated :: "(string \<times> json) list \<Rightarrow> go_error + OrderCreatedEvent" where
  "dec_OrderCreated ms =
     sum_bind (dec_BaseEvent ms) (\<lambda>b. sum_bind (dec_string ''order_no'' ms) (\<lambda>n.
     sum_bind (dec_uint ''user_id'' ms) (\<lambda>u. sum_bind (dec_uint ''product_id'' ms) (\<lambda>p.
     sum_bind (dec_int ''quantity'' ms) (\<lambda>q. sum_bind (dec_float ''total_price'' ms) (\<lambda>x.
       Inr (BaseEvent.extend b (OrderCreatedEvent.fields n u p q x))))))))"

definition dec_OrderCompleted :: "(string \<times> json) list \<Rightarrow> go_error + OrderCompletedEvent" where
  "dec_OrderCompleted ms =
     sum_bind (dec_BaseEvent ms) (\<lambda>b. sum_bind (dec_string ''order_no'' ms) (\<lambda>n.
     sum_bind (dec_uint ''product_id'' ms) (\<lambda>p. sum_bind (dec_int ''quantity'' ms) (\<lambda>q.
       Inr (BaseEvent.extend b (OrderCompletedEvent.fields n p q))))))"

definition dec_OrderCancelled :: "(string \<times> json) list \<Rightarrow> go_error + OrderCancelledEvent" where
  "dec_OrderCancelled ms =
     sum_bind (dec_BaseEvent ms) (\<lambda>b. sum_bind (dec_string ''order_no'' ms) (\<lambda>n.
     sum_bind (dec_uint ''user_id'' ms) (\<lambda>u. sum_bind (dec_uint ''product_id'' ms) (\<lambda>p.
     sum_bind (dec_int ''quantity'' ms) (\<lambda>q. sum_bind (dec_string ''reason'' ms) (\<lambda>r.
       Inr (BaseEvent.extend b (OrderCancelledEvent.fields n u p q r))))))))"

definition dec_PaymentRequested :: "(string \<times> json) list \<Rightarrow> go_error + PaymentRequestedEvent" where
  "dec_PaymentRequested ms =
     sum_bind (dec_BaseEvent ms) (\<lambda>b. sum_bind (dec_string ''order_no'' ms) (\<lambda>n.
     sum_bind (dec_uint ''user_id'' ms) (\<lambda>u. sum_bind (dec_float ''amount'' ms) (\<lambda>a.
       Inr (BaseEvent.extend b (PaymentRequestedEvent.fields n u a))))))"

definition dec_StockDeducted :: "(string \<times> json) list \<Rightarrow> go_error + StockDeductedEvent" where
  "dec_StockDeducted ms =
     sum_bind (dec_BaseEvent ms) (\<lambda>b. sum_bind (dec_string ''order_no'' ms) (\<lambda>n.
     sum_bind (dec_uint ''product_id'' ms) (\<lambda>p. sum_bind (dec_int ''quantity'' ms) (\<lambda>q.
       Inr (BaseEvent.extend b (StockDeductedEvent.fields n p q))))))"

definition dec_StockDeductFailed :: "(string \<times> json) list \<Rightarrow> go_error + StockDeductFailedEvent" where
  "dec_StockDeductFailed ms =
     sum_bind (dec_BaseEvent ms) (\<lambda>b. sum_bind (dec_string ''order_no'' ms) (\<lambda>n.
     sum_bind (dec_uint ''product_id'' ms) (\<lambda>p. sum_bind (dec_string ''reason'' ms) (\<lambda>r.
       Inr (BaseEvent.extend b (StockDeductFailedEvent.fields n p r))))))"

definition dec_PaymentResult :: "(string \<times> json) list \<Rightarrow> go_error + PaymentResultEvent" where
  "dec_PaymentResult ms =
     sum_bind (dec_BaseEvent ms) (\<lambda>b. sum_bind (dec_string ''order_no'' ms) (\<lambda>n.
     sum_bind (dec_string ''payment_id'' ms) (\<lambda>p. sum_bind (dec_float ''amount'' ms) (\<lambda>a.
       Inr (BaseEvent.extend b (PaymentResultEvent.fields n p a))))))"

section \<open>What is read back\<close>

lemma json_get_Nil [simp]: "json_get f [] = None"
  by (simp add: json_get_def)

lemma json_get_Cons:
  "json_get f ((k, v) # ms) =
     (case json_get f ms of None \<Rightarrow> (if fold_key k = f then Some v else None) | Some x \<Rightarrow> Some x)"
  by (auto simp: json_get_def map_add_def split: option.splits)

lemma lower_keys [simp]:
  "fold_key ''event_id'' = ''event_id''" "fold_key ''event_type'' = ''event_type''"
  "fold_key ''timestamp'' = ''timestamp''" "fold_key ''order_no'' = ''order_no''"
  "fold_key ''user_id'' = ''user_id''" "fold_key ''product_id'' = ''product_id''"
  "fold_key ''quantity'' = ''quantity''" "fold_key ''total_price'' = ''total_price''"
  "fold_key ''reason'' = ''reason''" "fold_key ''payment_id'' = ''payment_id''"
  "fold_key ''amount'' = ''amount''"
  by (simp_all add: fold_key_def lower_char_def)

text \<open>
  What the \<^verbatim>\<open>jsonb\<close> column may do to an object of scalar members with distinct names:
  reorder the members, so that every name still has its value.
\<close>

fun json_scalar :: "json \<Rightarrow> bool" where
  "json_scalar (JObj ms) = False"
| "json_scalar (JArr xs) = False"
| "json_scalar j = True"

definition jsonb_faithful :: "(json \<Rightarrow> json) \<Rightarrow> bool" where
  "jsonb_faithful jsonb \<longleftrightarrow>
     (\<forall>ms. distinct (map (\<lambda>m. fold_key (fst m)) ms) \<and> (\<forall>m\<in>set ms. json_scalar (snd m)) \<longrightarrow>
       (\<exists>ms'. jsonb (JObj ms) = JObj ms' \<and> (\<forall>f. json_get f ms' = json_get f ms)))"

lemma jsonb_faithful_id: "jsonb_faithful (\<lambda>j. j)"
  by (simp add: jsonb_faithful_def)

text \<open>Decoding depends on the members' values only.\<close>

lemma dec_cong:
  assumes "\<And>f. json_get f ms' = json_get f ms"
  shows "dec_BaseEvent ms' = dec_BaseEvent ms" "dec_OrderCreated ms' = dec_OrderCreated ms"
    "dec_OrderCompleted ms' = dec_OrderCompleted ms" "dec_OrderCancelled ms' = dec_OrderCancelled ms"
    "dec_PaymentRequested ms' = dec_PaymentRequested ms" "dec_StockDeducted ms' = dec_StockDeducted ms"
    "dec_StockDeductFailed ms' = dec_StockDeductFailed ms" "dec_PaymentResult ms' = dec_PaymentResult ms"
  by (simp_all add: assms dec_BaseEvent_def dec_OrderCreated_def dec_OrderCompleted_def
      dec_OrderCancelled_def dec_PaymentRequested_def dec_StockDeducted_def dec_StockDeductFailed_def
      dec_PaymentResult_def dec_defs)

text \<open>The values a payload can carry over the wire.\<close>

definition is_uint :: "nat \<Rightarrow> bool" where
  "is_uint n \<longleftrightarrow> n < 2 ^ 64"

fun payload_ok :: "payload \<Rightarrow> bool" where
  "payload_ok (PayOrderCreated e) =
     (is_uint (oc_UserID e) \<and> is_uint (oc_ProductID e) \<and> in_int64 (oc_Quantity e) \<and> f64_is_finite (oc_TotalPrice e))"
| "payload_ok (PayOrderCompleted e) = (is_uint (of_ProductID e) \<and> in_int64 (of_Quantity e))"
| "payload_ok (PayOrderCancelled e) =
     (is_uint (ox_UserID e) \<and> is_uint (ox_ProductID e) \<and> in_int64 (ox_Quantity e))"
| "payload_ok (PayPaymentRequested e) = (is_uint (pr_UserID e) \<and> f64_is_finite (pr_Amount e))"
| "payload_ok (PayStockDeducted e) = (is_uint (sd_ProductID e) \<and> in_int64 (sd_Quantity e))"
| "payload_ok (PayStockDeductFailed e) = is_uint (sf_ProductID e)"
| "payload_ok (PayPaymentResult e) = f64_is_finite (ps_Amount e)"

fun payload_base :: "payload \<Rightarrow> BaseEvent" where
  "payload_base (PayOrderCreated e) = BaseEvent.truncate e"
| "payload_base (PayOrderCompleted e) = BaseEvent.truncate e"
| "payload_base (PayOrderCancelled e) = BaseEvent.truncate e"
| "payload_base (PayPaymentRequested e) = BaseEvent.truncate e"
| "payload_base (PayStockDeducted e) = BaseEvent.truncate e"
| "payload_base (PayStockDeductFailed e) = BaseEvent.truncate e"
| "payload_base (PayPaymentResult e) = BaseEvent.truncate e"

text \<open>\<^verbatim>\<open>Unmarshal\<close> into a variable of the struct type of \<open>p\<close>.\<close>

fun unmarshal_like :: "payload \<Rightarrow> json \<Rightarrow> go_error + payload" where
  "unmarshal_like (PayOrderCreated _) j = map_sum id PayOrderCreated (json_Unmarshal dec_OrderCreated j)"
| "unmarshal_like (PayOrderCompleted _) j = map_sum id PayOrderCompleted (json_Unmarshal dec_OrderCompleted j)"
| "unmarshal_like (PayOrderCancelled _) j = map_sum id PayOrderCancelled (json_Unmarshal dec_OrderCancelled j)"
| "unmarshal_like (PayPaymentRequested _) j = map_sum id PayPaymentRequested (json_Unmarshal dec_PaymentRequested j)"
| "unmarshal_like (PayStockDeducted _) j = map_sum id PayStockDeducted (json_Unmarshal dec_StockDeducted j)"
| "unmarshal_like (PayStockDeductFailed _) j = map_sum id PayStockDeductFailed (json_Unmarshal dec_StockDeductFailed j)"
| "unmarshal_like (PayPaymentResult _) j = map_sum id PayPaymentResult (json_Unmarshal dec_PaymentResult j)"

lemma sum_bind_marshal_float:
  "sum_bind (marshal_float f) g = Inr y \<longleftrightarrow> f64_is_finite f \<and> g (JFloat f) = Inr y"
  by (simp add: marshal_float_def)

lemmas member_simps = json_get_Cons base_members_def dec_defs dec_BaseEvent_def in_int64_def is_uint_def

text \<open>Every payload marshals to an object of scalar members with distinct names.\<close>

lemma Marshal_members:
  assumes "json_Marshal p = Inr j"
  obtains ms where "j = JObj ms" "distinct (map (\<lambda>m. fold_key (fst m)) ms)"
    "\<forall>m\<in>set ms. json_scalar (snd m)"
  using assms by (cases p) (auto simp: sum_bind_marshal_float base_members_def)

lemma Marshal_succeeds: "payload_ok p \<Longrightarrow> \<exists>j. json_Marshal p = Inr j"
  by (cases p) (auto simp: marshal_float_def)

lemma Unmarshal_Marshal:
  "payload_ok p \<Longrightarrow> json_Marshal p = Inr j \<Longrightarrow> unmarshal_like p j = Inr p"
  by (cases p)
    (auto simp: sum_bind_marshal_float json_Unmarshal_def member_simps dec_OrderCreated_def
      dec_OrderCompleted_def dec_OrderCancelled_def dec_PaymentRequested_def dec_StockDeducted_def
      dec_StockDeductFailed_def dec_PaymentResult_def BaseEvent.extend_def OrderCreatedEvent.fields_def
      OrderCompletedEvent.fields_def OrderCancelledEvent.fields_def PaymentRequestedEvent.fields_def
      StockDeductedEvent.fields_def StockDeductFailedEvent.fields_def PaymentResultEvent.fields_def)

lemma Unmarshal_base:
  "json_Marshal p = Inr j \<Longrightarrow> json_Unmarshal dec_BaseEvent j = Inr (payload_base p)"
  by (cases p)
    (auto simp: sum_bind_marshal_float json_Unmarshal_def member_simps BaseEvent.truncate_def)

lemma jsonb_Unmarshal:
  assumes "jsonb_faithful jsonb" "json_Marshal p = Inr j"
  shows "unmarshal_like p' (jsonb j) = unmarshal_like p' j"
    and "json_Unmarshal dec_BaseEvent (jsonb j) = json_Unmarshal dec_BaseEvent j"
proof -
  obtain ms where j: "j = JObj ms" "distinct (map (\<lambda>m. fold_key (fst m)) ms)" "\<forall>m\<in>set ms. json_scalar (snd m)"
    using Marshal_members [OF assms(2)] by blast
  then obtain ms' where ms': "jsonb j = JObj ms'" "\<And>f. json_get f ms' = json_get f ms"
    using assms(1) unfolding jsonb_faithful_def by blast
  show "unmarshal_like p' (jsonb j) = unmarshal_like p' j"
    unfolding j(1) ms'(1) [unfolded j(1)]
    by (cases p') (simp_all add: json_Unmarshal_def dec_cong [OF ms'(2)])
  show "json_Unmarshal dec_BaseEvent (jsonb j) = json_Unmarshal dec_BaseEvent j"
    unfolding j(1) ms'(1) [unfolded j(1)] by (simp add: json_Unmarshal_def dec_cong [OF ms'(2)])
qed

lemma map_sum_Inr_iff: "map_sum id f r = Inr y \<longleftrightarrow> (\<exists>x. r = Inr x \<and> f x = y)"
  by (cases r) auto

text \<open>A message that decodes to a payload.\<close>

definition carries :: "json \<Rightarrow> payload \<Rightarrow> bool" where
  "carries val p \<longleftrightarrow> unmarshal_like p val = Inr p \<and> json_Unmarshal dec_BaseEvent val = Inr (payload_base p)"

lemma carries_decode:
  "carries val (PayOrderCreated e1) \<Longrightarrow> json_Unmarshal dec_OrderCreated val = Inr e1"
  "carries val (PayOrderCompleted e2) \<Longrightarrow> json_Unmarshal dec_OrderCompleted val = Inr e2"
  "carries val (PayOrderCancelled e3) \<Longrightarrow> json_Unmarshal dec_OrderCancelled val = Inr e3"
  "carries val (PayPaymentRequested e4) \<Longrightarrow> json_Unmarshal dec_PaymentRequested val = Inr e4"
  "carries val (PayStockDeducted e5) \<Longrightarrow> json_Unmarshal dec_StockDeducted val = Inr e5"
  "carries val (PayStockDeductFailed e6) \<Longrightarrow> json_Unmarshal dec_StockDeductFailed val = Inr e6"
  "carries val (PayPaymentResult e7) \<Longrightarrow> json_Unmarshal dec_PaymentResult val = Inr e7"
  by (simp_all add: carries_def map_sum_Inr_iff)

lemma carries_base: "carries val p \<Longrightarrow> json_Unmarshal dec_BaseEvent val = Inr (payload_base p)"
  by (simp add: carries_def)

section \<open>Properties\<close>


definition demo_payload :: payload where
  "demo_payload = PayOrderCreated
     \<lparr>ev_EventID = ''e-1'', ev_EventType = OrderCreated, ev_Timestamp = 5, oc_OrderNo = ''42'',
      oc_UserID = 7, oc_ProductID = 1, oc_Quantity = 2, oc_TotalPrice = f64_one\<rparr>"

text \<open>A column that reverses the members.\<close>

fun reverse_members :: "json \<Rightarrow> json" where
  "reverse_members (JObj ms) = JObj (rev ms)"
| "reverse_members j = j"

lemma json_get_rev:
  "distinct (map (\<lambda>m. fold_key (fst m)) ms) \<Longrightarrow> json_get f (rev ms) = json_get f ms"
proof -
  let ?ms = "map (\<lambda>(k, v). (fold_key k, v)) ms"
  assume "distinct (map (\<lambda>m. fold_key (fst m)) ms)"
  then have "distinct (map fst ?ms)" by (simp add: comp_def case_prod_unfold)
  then have "map_of (rev ?ms) = map_of ?ms"
    by (subst map_of_inject_set) (simp_all flip: rev_map)
  then show ?thesis by (simp add: json_get_def rev_map)
qed

lemma reverse_faithful: "jsonb_faithful reverse_members"
  by (auto simp: jsonb_faithful_def json_get_rev)


end
