(* ===== verification/Product.thy ===== *)
theory Product
  imports Reference_Store Event
begin

text \<open>
  \<^verbatim>\<open>internal/product\<close>: the repository, the service on the database, and the cache-aside
  service that decorates it. The Go interface \<^verbatim>\<open>ProductServicer\<close> is a record of functions,
  which both services provide; its contract is the locale \<open>product_servicer\<close>. The cache entries
  of all products are coherent with the table when each holds nothing, the product's current
  row, or the empty marker of a product that does not exist. Keys do not expire in the model, and
  one request runs at a time, so \<^verbatim>\<open>singleflight\<close> is a plain call.
\<close>

section \<open>model.go\<close>

record CreateProductRequest =
  cpr_Name :: string
  cpr_Description :: string
  cpr_Price :: float64
  cpr_Category :: string
  cpr_ImageURL :: string

record UpdateProductRequest =
  upr_Name :: string
  upr_Description :: string
  upr_Price :: float64
  upr_Category :: string
  upr_ImageURL :: string
  upr_Status :: "int option"

text \<open>What \<^verbatim>\<open>encoding/json\<close> makes of a \<^verbatim>\<open>Product\<close>.\<close>

definition json_Marshal_Product :: "Product \<Rightarrow> go_error + json" where
  "json_Marshal_Product p =
     sum_bind (marshal_float (prod_Price p)) (\<lambda>price. Inr (JObj
       [(''id'', JInt (int (prod_ID p))), (''name'', JStr (prod_Name p)),
        (''description'', JStr (prod_Description p)), (''price'', price),
        (''category'', JStr (prod_Category p)), (''image_url'', JStr (prod_ImageURL p)),
        (''status'', JInt (prod_Status p)), (''created_at'', JTime (prod_CreatedAt p)),
        (''updated_at'', JTime (prod_UpdatedAt p))]))"

definition in_int16 :: "int \<Rightarrow> bool" where
  "in_int16 x \<longleftrightarrow> - (2 ^ 15) \<le> x \<and> x < 2 ^ 15"

definition dec_int16 :: "string \<Rightarrow> (string \<times> json) list \<Rightarrow> go_error + int" where
  "dec_int16 f ms = sum_bind (dec_int f ms) (\<lambda>i. if in_int16 i then Inr i else type_error)"

definition dec_Product :: "(string \<times> json) list \<Rightarrow> go_error + Product" where
  "dec_Product ms =
     sum_bind (dec_uint ''id'' ms) (\<lambda>i. sum_bind (dec_string ''name'' ms) (\<lambda>n.
     sum_bind (dec_string ''description'' ms) (\<lambda>d. sum_bind (dec_float ''price'' ms) (\<lambda>p.
     sum_bind (dec_string ''category'' ms) (\<lambda>c. sum_bind (dec_string ''image_url'' ms) (\<lambda>u.
     sum_bind (dec_int16 ''status'' ms) (\<lambda>s. sum_bind (dec_time ''created_at'' ms) (\<lambda>tc.
     sum_bind (dec_time ''updated_at'' ms) (\<lambda>tu.
       Inr \<lparr>prod_ID = i, prod_Name = n, prod_Description = d, prod_Price = p, prod_Category = c,
            prod_ImageURL = u, prod_Status = s, prod_CreatedAt = tc, prod_UpdatedAt = tu\<rparr>)))))))))"

text \<open>
  \<^verbatim>\<open>Unmarshal\<close> of a stored value. A value that spells an object or an array is a \<open>Doc\<close>, so a
  \<open>Text\<close> is a JSON scalar or no JSON at all: only null, with white space around it, is accepted.
\<close>

definition json_trim :: "string \<Rightarrow> string" where
  "json_trim s =
     (let blank = (\<lambda>c. c = CHR '' '' \<or> c = CHR 0x09 \<or> c = CHR 0x0A \<or> c = CHR 0x0D) in
      rev (dropWhile blank (rev (dropWhile blank s))))"

fun unmarshal_bytes :: "((string \<times> json) list \<Rightarrow> go_error + 'a) \<Rightarrow> bytes \<Rightarrow> go_error + 'a" where
  "unmarshal_bytes dec (Doc j) = json_Unmarshal dec j"
| "unmarshal_bytes dec (Text s) =
     (if json_trim s = ''null'' then json_Unmarshal dec JNull
      else Inl (ErrJSON ''json: cannot unmarshal''))"

section \<open>repository.go\<close>

definition ProductRepository_Create :: "('w, Product) table_api \<Rightarrow> Product \<Rightarrow> 'w \<Rightarrow> (go_error + Product) \<times> 'w" where
  "ProductRepository_Create db p w = db_Create db p w"

definition FindProductByID :: "('w, Product) table_api \<Rightarrow> nat \<Rightarrow> 'w \<Rightarrow> (go_error + Product) \<times> 'w" where
  "FindProductByID db pid w = db_First db (\<lambda>x. prod_ID x = pid) w"

definition FindProductByName :: "('w, Product) table_api \<Rightarrow> string \<Rightarrow> 'w \<Rightarrow> (go_error + Product) \<times> 'w" where
  "FindProductByName db name w = db_First db (\<lambda>x. prod_Name x = name) w"

text \<open>The error of \<^verbatim>\<open>Count\<close> is not looked at: the total stays 0 then.\<close>

definition FindAllProducts ::
    "('w, Product) table_api \<Rightarrow> int \<Rightarrow> int \<Rightarrow> 'w \<Rightarrow> (Product list \<times> int \<times> go_error option) \<times> 'w" where
  "FindAllProducts db page pageSize w =
     (case db_Count db (\<lambda>x. prod_Status x = 1) w of
        (counted, w1) \<Rightarrow>
          (let total = (case counted of Inl _ \<Rightarrow> 0 | Inr n \<Rightarrow> int n);
               offset = wrap64 (wrap64 (page - 1) * pageSize) in
           case db_Find db (\<lambda>x. prod_Status x = 1) (\<lambda>x. - prod_CreatedAt x) offset pageSize w1 of
             (Inl err, w2) \<Rightarrow> (([], total, Some err), w2)
           | (Inr products, w2) \<Rightarrow> ((products, total, None), w2)))"

definition ProductRepository_Update :: "('w, Product) table_api \<Rightarrow> Product \<Rightarrow> 'w \<Rightarrow> (go_error + Product) \<times> 'w" where
  "ProductRepository_Update db p w = db_Save db p w"

definition ProductRepository_Delete :: "('w, Product) table_api \<Rightarrow> nat \<Rightarrow> 'w \<Rightarrow> (go_error + unit) \<times> 'w" where
  "ProductRepository_Delete db pid w =
     (case db_Delete db (\<lambda>x. prod_ID x = pid) w of
        (Inl err, w1) \<Rightarrow> (Inl err, w1) | (Inr _, w1) \<Rightarrow> (Inr (), w1))"

section \<open>service\_interface.go\<close>

record 'w ProductServicer =
  svc_CreateProduct :: "CreateProductRequest \<Rightarrow> 'w \<Rightarrow> (go_error + Product) \<times> 'w"
  svc_GetProductByID :: "nat \<Rightarrow> 'w \<Rightarrow> (go_error + Product) \<times> 'w"
  svc_GetProductByName :: "string \<Rightarrow> 'w \<Rightarrow> (go_error + Product) \<times> 'w"
  svc_ListProducts :: "int \<Rightarrow> int \<Rightarrow> 'w \<Rightarrow> (Product list \<times> int \<times> go_error option) \<times> 'w"
  svc_Update :: "nat \<Rightarrow> UpdateProductRequest \<Rightarrow> 'w \<Rightarrow> (go_error + Product) \<times> 'w"
  svc_Delete :: "nat \<Rightarrow> 'w \<Rightarrow> (go_error + unit) \<times> 'w"
  svc_GetPrice :: "nat \<Rightarrow> 'w \<Rightarrow> (go_error + float64) \<times> 'w"

section \<open>service.go\<close>

definition ProductService_CreateProduct ::
    "('w, Product) table_api \<Rightarrow> CreateProductRequest \<Rightarrow> 'w \<Rightarrow> (go_error + Product) \<times> 'w" where
  "ProductService_CreateProduct db req w =
     ProductRepository_Create db
       \<lparr>prod_ID = 0, prod_Name = cpr_Name req, prod_Description = cpr_Description req,
        prod_Price = cpr_Price req, prod_Category = cpr_Category req, prod_ImageURL = cpr_ImageURL req,
        prod_Status = 1, prod_CreatedAt = 0, prod_UpdatedAt = 0\<rparr> w"

definition ProductService_GetProductByID ::
    "('w, Product) table_api \<Rightarrow> nat \<Rightarrow> 'w \<Rightarrow> (go_error + Product) \<times> 'w" where
  "ProductService_GetProductByID db pid w =
     (case FindProductByID db pid w of
        (Inl err, w1) \<Rightarrow>
          (if errors_is err ErrRecordNotFound then (Inl ProdErrProductNotFound, w1) else (Inl err, w1))
      | (Inr p, w1) \<Rightarrow> (Inr p, w1))"

definition ProductService_GetProductByName ::
    "('w, Product) table_api \<Rightarrow> string \<Rightarrow> 'w \<Rightarrow> (go_error + Product) \<times> 'w" where
  "ProductService_GetProductByName db name w =
     (case FindProductByName db name w of
        (Inl err, w1) \<Rightarrow>
          (if errors_is err ErrRecordNotFound then (Inl ProdErrProductNotFound, w1) else (Inl err, w1))
      | (Inr p, w1) \<Rightarrow> (Inr p, w1))"

definition ProductService_ListProducts ::
    "('w, Product) table_api \<Rightarrow> int \<Rightarrow> int \<Rightarrow> 'w \<Rightarrow> (Product list \<times> int \<times> go_error option) \<times> 'w" where
  "ProductService_ListProducts db page pageSize w = FindAllProducts db page pageSize w"

text \<open>The assignments of \<^verbatim>\<open>Update\<close>, one per field that the request sets.\<close>

definition set_fields :: "UpdateProductRequest \<Rightarrow> Product \<Rightarrow> Product" where
  "set_fields req p0 =
     (let p1 = (if upr_Name req \<noteq> '''' then p0\<lparr>prod_Name := upr_Name req\<rparr> else p0);
          p2 = (if upr_Description req \<noteq> '''' then p1\<lparr>prod_Description := upr_Description req\<rparr> else p1);
          p3 = (if f64_lt f64_zero (upr_Price req) then p2\<lparr>prod_Price := upr_Price req\<rparr> else p2);
          p4 = (if upr_Category req \<noteq> '''' then p3\<lparr>prod_Category := upr_Category req\<rparr> else p3);
          p5 = (if upr_ImageURL req \<noteq> '''' then p4\<lparr>prod_ImageURL := upr_ImageURL req\<rparr> else p4)
      in (case upr_Status req of None \<Rightarrow> p5 | Some s \<Rightarrow> p5\<lparr>prod_Status := s\<rparr>))"

definition ProductService_Update ::
    "('w, Product) table_api \<Rightarrow> nat \<Rightarrow> UpdateProductRequest \<Rightarrow> 'w \<Rightarrow> (go_error + Product) \<times> 'w" where
  "ProductService_Update db pid req w =
     (case FindProductByID db pid w of
        (Inl err, w1) \<Rightarrow>
          (if errors_is err ErrRecordNotFound then (Inl ProdErrProductNotFound, w1) else (Inl err, w1))
      | (Inr p, w1) \<Rightarrow> ProductRepository_Update db (set_fields req p) w1)"

definition ProductService_Delete :: "('w, Product) table_api \<Rightarrow> nat \<Rightarrow> 'w \<Rightarrow> (go_error + unit) \<times> 'w" where
  "ProductService_Delete db pid w =
     (case FindProductByID db pid w of
        (Inl err, w1) \<Rightarrow>
          (if errors_is err ErrRecordNotFound then (Inl ProdErrProductNotFound, w1) else (Inl err, w1))
      | (Inr _, w1) \<Rightarrow> ProductRepository_Delete db pid w1)"

definition ProductService_GetPrice :: "('w, Product) table_api \<Rightarrow> nat \<Rightarrow> 'w \<Rightarrow> (go_error + float64) \<times> 'w" where
  "ProductService_GetPrice db pid w =
     (case FindProductByID db pid w of
        (Inl err, w1) \<Rightarrow>
          (if errors_is err ErrRecordNotFound then (Inl ProdErrProductNotFound, w1) else (Inl err, w1))
      | (Inr p, w1) \<Rightarrow> (Inr (prod_Price p), w1))"

definition ProductService :: "('w, Product) table_api \<Rightarrow> 'w ProductServicer" where
  "ProductService db =
     \<lparr>svc_CreateProduct = ProductService_CreateProduct db, svc_GetProductByID = ProductService_GetProductByID db,
      svc_GetProductByName = ProductService_GetProductByName db, svc_ListProducts = ProductService_ListProducts db,
      svc_Update = ProductService_Update db, svc_Delete = ProductService_Delete db,
      svc_GetPrice = ProductService_GetPrice db\<rparr>"

section \<open>cached\_service.go\<close>

definition cacheKeyPrefix :: string where "cacheKeyPrefix = ''product:detail:''"
definition second :: int where "second = 1000000000"
definition cacheTTLBase :: int where "cacheTTLBase = 5 * 60 * second"
definition cacheTTLJitter :: int where "cacheTTLJitter = 60"
definition cacheNullTTL :: int where "cacheNullTTL = 60 * second"
definition cacheNullValue :: string where "cacheNullValue = ''''"

definition cacheKey :: "nat \<Rightarrow> string" where
  "cacheKey pid = cacheKeyPrefix @ show_nat pid"

definition cacheTTL :: "'w ext \<Rightarrow> 'w \<Rightarrow> int \<times> 'w" where
  "cacheTTL X w = (case rand_Intn X cacheTTLJitter w of (i, w1) \<Rightarrow> (cacheTTLBase + i * second, w1))"

text \<open>What is run on a miss, under the key's \<^verbatim>\<open>singleflight\<close> group.\<close>

definition cache_fill :: "'w ext \<Rightarrow> 'w ProductServicer \<Rightarrow> nat \<Rightarrow> 'w \<Rightarrow> (go_error + Product) \<times> 'w" where
  "cache_fill X inner pid w =
     (case svc_GetProductByID inner pid w of
        (Inl err, w1) \<Rightarrow>
          (if err = ProdErrProductNotFound
           then (case rdb_Set X (cacheKey pid) (Text cacheNullValue) cacheNullTTL w1 of (_, w2) \<Rightarrow> (Inl err, w2))
           else (Inl err, w1))
      | (Inr p, w1) \<Rightarrow>
          (let data = (case json_Marshal_Product p of Inl _ \<Rightarrow> Text '''' | Inr j \<Rightarrow> Doc j) in
           case cacheTTL X w1 of (ttl, w2) \<Rightarrow>
             (case rdb_Set X (cacheKey pid) data ttl w2 of (_, w3) \<Rightarrow> (Inr p, w3))))"

definition CachedProductService_GetProductByID ::
    "'w ext \<Rightarrow> 'w ProductServicer \<Rightarrow> nat \<Rightarrow> 'w \<Rightarrow> (go_error + Product) \<times> 'w" where
  "CachedProductService_GetProductByID X inner pid w =
     (case rdb_Get X (cacheKey pid) w of
        (Inr val, w1) \<Rightarrow>
          (if val = Text cacheNullValue then (Inl ProdErrProductNotFound, w1)
           else (case unmarshal_bytes dec_Product val of
                   Inr p \<Rightarrow> (Inr p, w1)
                 | Inl _ \<Rightarrow> cache_fill X inner pid w1))
      | (Inl err, w1) \<Rightarrow> cache_fill X inner pid w1)"

definition CachedProductService_Update ::
    "'w ext \<Rightarrow> 'w ProductServicer \<Rightarrow> nat \<Rightarrow> UpdateProductRequest \<Rightarrow> 'w \<Rightarrow> (go_error + Product) \<times> 'w" where
  "CachedProductService_Update X inner pid req w =
     (case svc_Update inner pid req w of
        (Inl err, w1) \<Rightarrow> (Inl err, w1)
      | (Inr p, w1) \<Rightarrow> (case rdb_Del X (cacheKey pid) w1 of (_, w2) \<Rightarrow> (Inr p, w2)))"

definition CachedProductService_Delete ::
    "'w ext \<Rightarrow> 'w ProductServicer \<Rightarrow> nat \<Rightarrow> 'w \<Rightarrow> (go_error + unit) \<times> 'w" where
  "CachedProductService_Delete X inner pid w =
     (case svc_Delete inner pid w of
        (Inl err, w1) \<Rightarrow> (Inl err, w1)
      | (Inr _, w1) \<Rightarrow> (case rdb_Del X (cacheKey pid) w1 of (_, w2) \<Rightarrow> (Inr (), w2)))"

definition CachedProductService :: "'w ext \<Rightarrow> 'w ProductServicer \<Rightarrow> 'w ProductServicer" where
  "CachedProductService X inner =
     \<lparr>svc_CreateProduct = svc_CreateProduct inner,
      svc_GetProductByID = CachedProductService_GetProductByID X inner,
      svc_GetProductByName = svc_GetProductByName inner, svc_ListProducts = svc_ListProducts inner,
      svc_Update = CachedProductService_Update X inner, svc_Delete = CachedProductService_Delete X inner,
      svc_GetPrice = svc_GetPrice inner\<rparr>"

section \<open>A product survives the cache\<close>

text \<open>The values a row of the table has: its numbers fit their Go types, the price is a number.\<close>

definition product_ok :: "Product \<Rightarrow> bool" where
  "product_ok p \<longleftrightarrow> is_uint (prod_ID p) \<and> in_int16 (prod_Status p) \<and> f64_is_finite (prod_Price p)"

lemma lower_product_keys [simp]:
  "fold_key ''id'' = ''id''" "fold_key ''name'' = ''name''" "fold_key ''description'' = ''description''"
  "fold_key ''price'' = ''price''" "fold_key ''category'' = ''category''" "fold_key ''image_url'' = ''image_url''"
  "fold_key ''status'' = ''status''" "fold_key ''created_at'' = ''created_at''"
  "fold_key ''updated_at'' = ''updated_at''"
  by (simp_all add: fold_key_def lower_char_def)

lemma product_roundtrip:
  assumes "product_ok p"
  shows "\<exists>j. json_Marshal_Product p = Inr j \<and> json_Unmarshal dec_Product j = Inr p"
  using assms
  by (simp add: product_ok_def json_Marshal_Product_def marshal_float_def json_Unmarshal_def dec_Product_def
      dec_int16_def in_int16_def member_simps)

lemma cacheKey_inject [simp, key_simps]: "cacheKey i = cacheKey j \<longleftrightarrow> i = j"
  by (simp add: cacheKey_def)

section \<open>The contract of a product service\<close>

definition product_read :: "Product list \<Rightarrow> nat \<Rightarrow> go_error + Product \<Rightarrow> bool" where
  "product_read ps i r \<longleftrightarrow>
     (case r of
        Inr p \<Rightarrow> p \<in> set ps \<and> prod_ID p = i
      | Inl e \<Rightarrow> e = ProdErrProductNotFound \<and> (\<forall>x\<in>set ps. prod_ID x \<noteq> i) \<or> is_external e)"

definition product_updated ::
    "(float64 \<Rightarrow> float64) \<Rightarrow> UpdateProductRequest \<Rightarrow> nat \<Rightarrow> Product list \<Rightarrow> Product list \<Rightarrow> go_error + Product \<Rightarrow> bool" where
  "product_updated num req i ps ps' r \<longleftrightarrow>
     (case r of
        Inr p \<Rightarrow> (\<exists>old\<in>set ps. \<exists>t. prod_ID old = i \<and> p = (set_fields req old)\<lparr>prod_UpdatedAt := t\<rparr>) \<and>
                 ps' = map (\<lambda>y. if prod_ID y = i then p\<lparr>prod_Price := num (prod_Price p)\<rparr> else y) ps
      | Inl e \<Rightarrow> ps' = ps \<and> (e = ProdErrProductNotFound \<and> (\<forall>x\<in>set ps. prod_ID x \<noteq> i) \<or> is_external e))"

definition product_deleted :: "nat \<Rightarrow> Product list \<Rightarrow> Product list \<Rightarrow> go_error + unit \<Rightarrow> bool" where
  "product_deleted i ps ps' r \<longleftrightarrow>
     (case r of
        Inr _ \<Rightarrow> (\<exists>x\<in>set ps. prod_ID x = i) \<and> ps' = filter (\<lambda>x. prod_ID x \<noteq> i) ps
      | Inl e \<Rightarrow> ps' = ps \<and> (e = ProdErrProductNotFound \<and> (\<forall>x\<in>set ps. prod_ID x \<noteq> i) \<or> is_external e))"

lemmas product_contract = product_read_def product_updated_def product_deleted_def

text \<open>The requests \<^verbatim>\<open>encoding/json\<close> can produce.\<close>

definition update_ok :: "UpdateProductRequest \<Rightarrow> bool" where
  "update_ok req \<longleftrightarrow> f64_is_finite (upr_Price req) \<and> (case upr_Status req of None \<Rightarrow> True | Some s \<Rightarrow> in_int16 s)"

text \<open>
  \<open>good\<close> is what the service needs of a world, \<open>products\<close> the table. Creating a product keeps
  \<open>good\<close> only for the plain service (see below), so the contract does not promise it.
\<close>

locale product_servicer =
  fixes products :: "'w \<Rightarrow> Product list"
    and good :: "'w \<Rightarrow> bool"
    and num :: "float64 \<Rightarrow> float64"
    and S :: "'w ProductServicer"
  assumes good_ids: "good w \<Longrightarrow> distinct (map prod_ID (products w))"
    and Get_law: "good w \<Longrightarrow> svc_GetProductByID S i w = (pr, w') \<Longrightarrow>
      good w' \<and> products w' = products w \<and> product_read (products w) i pr"
    and Update_law: "good w \<Longrightarrow> update_ok req \<Longrightarrow> svc_Update S i req w = (pr, w') \<Longrightarrow>
      good w' \<and> product_updated num req i (products w) (products w') pr"
    and Delete_law: "good w \<Longrightarrow> svc_Delete S i w = (ur, w') \<Longrightarrow>
      good w' \<and> product_deleted i (products w) (products w') ur"

text \<open>What clients do with a service.\<close>

inductive served :: "'w ProductServicer \<Rightarrow> 'w \<Rightarrow> 'w \<Rightarrow> bool" for S where
  served_none: "served S w w"
| served_get: "served S w w1 \<Longrightarrow> svc_GetProductByID S i w1 = (pr, w2) \<Longrightarrow> served S w w2"
| served_update: "served S w w1 \<Longrightarrow> update_ok req \<Longrightarrow> svc_Update S i req w1 = (pr, w2) \<Longrightarrow> served S w w2"
| served_delete: "served S w w1 \<Longrightarrow> svc_Delete S i w1 = (ur, w2) \<Longrightarrow> served S w w2"

lemma set_fields_ID [simp]: "prod_ID (set_fields req p) = prod_ID p"
  by (simp add: set_fields_def Let_def split: option.split)

lemma set_fields_ok: "product_ok p \<Longrightarrow> update_ok req \<Longrightarrow> product_ok (set_fields req p)"
  by (auto simp: product_ok_def update_ok_def set_fields_def Let_def split: option.split)

context product_servicer
begin

lemma served_good: "served S w w' \<Longrightarrow> good w \<Longrightarrow> good w'"
  by (induction rule: served.induct) (auto dest: Get_law Update_law Delete_law)

text \<open>A read after an update sees it, a read after a deletion finds nothing.\<close>

lemma update_then_get:
  assumes "good w" "update_ok req" "svc_Update S i req w = (Inr p, w1)" "svc_GetProductByID S i w1 = (pr, w2)"
  shows "case pr of Inr q \<Rightarrow> q = p\<lparr>prod_Price := num (prod_Price p)\<rparr> | Inl e \<Rightarrow> is_external e"
proof -
  let ?new = "p\<lparr>prod_Price := num (prod_Price p)\<rparr>"
  have upd: "good w1" "product_updated num req i (products w) (products w1) (Inr p)"
    using Update_law [OF assms(1-3)] by simp_all
  then obtain old where "old \<in> set (products w)" "prod_ID old = i" and p: "prod_ID p = i"
    and ps: "products w1 = map (\<lambda>y. if prod_ID y = i then ?new else y) (products w)"
    by (auto simp: product_updated_def)
  then have "?new \<in> set (products w1)" unfolding ps set_map by (intro rev_image_eqI [of old]) simp_all
  then have here: "\<exists>x\<in>set (products w1). prod_ID x = i" using p by (intro bexI [of _ ?new]) simp_all
  have there: "x = ?new" if "x \<in> set (products w1)" "prod_ID x = i" for x
    using that ps by (auto split: if_splits)
  have "product_read (products w1) i pr" using Get_law [OF upd(1) assms(4)] by simp
  then show ?thesis using here there by (cases pr) (auto simp: product_read_def)
qed

lemma delete_then_get:
  assumes "good w" "svc_Delete S i w = (Inr u, w1)" "svc_GetProductByID S i w1 = (pr, w2)"
  shows "\<exists>e. pr = Inl e \<and> (e = ProdErrProductNotFound \<or> is_external e)"
proof -
  have del: "good w1" "products w1 = filter (\<lambda>x. prod_ID x \<noteq> i) (products w)"
    using Delete_law [OF assms(1,2)] by (simp_all add: product_deleted_def)
  then show ?thesis using Get_law [OF del(1) assms(3)]
    by (cases pr) (auto simp: product_read_def)
qed

text \<open>The reads of two services over the same table can differ only when a call fails.\<close>

lemma read_determined:
  assumes "good w" "product_read (products w) i pr" "product_read (products w) i pr'"
    and "\<And>e. pr = Inl e \<Longrightarrow> \<not> is_external e" "\<And>e. pr' = Inl e \<Longrightarrow> \<not> is_external e"
  shows "pr = pr'"
  using assms good_ids [OF assms(1)]
  by (cases pr; cases pr') (auto simp: product_read_def distinct_map dest: inj_onD)

end

section \<open>The service on the database\<close>

definition product_ids :: "Product list \<Rightarrow> bool" where
  "product_ids ps \<longleftrightarrow> distinct (map prod_ID ps)"

lemma product_ids_update:
  "prod_ID x = i \<Longrightarrow> map prod_ID (map (\<lambda>y. if prod_ID y = i then x else y) ps) = map prod_ID ps"
  by (induction ps) auto

lemma product_ids_filter: "product_ids ps \<Longrightarrow> product_ids (filter P ps)"
  by (simp add: product_ids_def distinct_map inj_on_def)

context quiet_runtime
begin

lemma prod_Save:
  "db_Save (products_tbl X) row w = (r, w') \<Longrightarrow>
    kv w' = kv w \<and> log w' = log w \<and> (\<exists>rows. db w' = (db w)\<lparr>t_products := rows\<rparr>
      \<and> save_result (product_schema num) row (t_products (db w)) rows r)"
  by (drule prod.Save_law) auto

lemma prod_Delete:
  "db_Delete (products_tbl X) p w = (r, w') \<Longrightarrow>
    kv w' = kv w \<and> log w' = log w \<and> (\<exists>rows. db w' = (db w)\<lparr>t_products := rows\<rparr>
      \<and> delete_result p (t_products (db w)) rows r)"
  by (drule prod.Delete_law) auto

lemma prod_Create:
  "db_Create (products_tbl X) row w = (r, w') \<Longrightarrow>
    kv w' = kv w \<and> log w' = log w \<and> (\<exists>rows. db w' = (db w)\<lparr>t_products := rows\<rparr>
      \<and> create_result (product_schema num) row (t_products (db w)) rows r)"
  by (drule prod.Create_law) auto

lemma FindProductByID_result:
  assumes "FindProductByID (products_tbl X) i w = (r, w')"
  shows "kv w' = kv w \<and> log w' = log w \<and> db w' = db w \<and>
    (case r of
       Inr p \<Rightarrow> p \<in> set (t_products (db w)) \<and> prod_ID p = i
     | Inl e \<Rightarrow> e = ErrRecordNotFound \<and> (\<forall>x\<in>set (t_products (db w)). prod_ID x \<noteq> i) \<or> is_external e)"
  using prod_First [OF assms [unfolded FindProductByID_def]] by (auto simp: first_result_def split: sum.splits)

lemma GetProductByID_result:
  assumes "ProductService_GetProductByID (products_tbl X) i w = (r, w')"
  shows "kv w' = kv w \<and> log w' = log w \<and> db w' = db w \<and> product_read (t_products (db w)) i r"
proof -
  obtain f u where find: "FindProductByID (products_tbl X) i w = (f, u)" by fastforce
  show ?thesis using assms find FindProductByID_result [OF find]
    by (cases f) (auto simp: ProductService_GetProductByID_def product_read_def split: if_splits)
qed

lemma ProductService_Update_result:
  assumes "ProductService_Update (products_tbl X) i req w = (r, w')"
  shows "kv w' = kv w \<and> log w' = log w \<and> (\<exists>ps. db w' = (db w)\<lparr>t_products := ps\<rparr> \<and>
    product_updated num req i (t_products (db w)) ps r)"
proof -
  obtain f u where find: "FindProductByID (products_tbl X) i w = (f, u)" by fastforce
  note found = FindProductByID_result [OF find]
  show ?thesis
  proof (cases f)
    case (Inl e)
    then show ?thesis using assms find found
      by (auto simp: ProductService_Update_def product_updated_def split: if_splits
          intro!: exI [of _ "t_products (db w)"])
  next
    case (Inr old)
    then have save: "db_Save (products_tbl X) (set_fields req old) u = (r, w')"
      using assms find by (simp add: ProductService_Update_def ProductRepository_Update_def)
    have old: "old \<in> set (t_products (db w))" "prod_ID old = i" using Inr found by simp_all
    then have "\<exists>y\<in>set (t_products (db w)). sch_pk (product_schema num) y = sch_pk (product_schema num) (set_fields req old)"
      by (auto simp: product_schema_def)
    then show ?thesis using prod_Save [OF save] found old
      by (cases r) (auto simp: save_result_def product_updated_def product_schema_def)
  qed
qed

lemma ProductService_Delete_result:
  assumes "ProductService_Delete (products_tbl X) i w = (r, w')"
  shows "kv w' = kv w \<and> log w' = log w \<and> (\<exists>ps. db w' = (db w)\<lparr>t_products := ps\<rparr> \<and>
    product_deleted i (t_products (db w)) ps r)"
proof -
  obtain f u where find: "FindProductByID (products_tbl X) i w = (f, u)" by fastforce
  note found = FindProductByID_result [OF find]
  show ?thesis
  proof (cases f)
    case (Inl e)
    then show ?thesis using assms find found
      by (auto simp: ProductService_Delete_def product_deleted_def split: if_splits
          intro!: exI [of _ "t_products (db w)"])
  next
    case (Inr old)
    then obtain n where "db_Delete (products_tbl X) (\<lambda>x. prod_ID x = i) u = (n, w')"
        "r = (case n of Inl e \<Rightarrow> Inl e | Inr _ \<Rightarrow> Inr ())"
      using assms find
      by (auto simp: ProductService_Delete_def ProductRepository_Delete_def split: prod.splits sum.splits)
    with prod_Delete [OF this(1)] found Inr show ?thesis
      by (cases n) (auto simp: delete_result_def product_deleted_def)
  qed
qed

end

lemma product_deleted_ids: "product_deleted i ps ps' r \<Longrightarrow> product_ids ps \<Longrightarrow> product_ids ps'"
  by (cases r) (auto simp: product_deleted_def product_ids_filter)

lemma product_updated_ids: "product_updated num req i ps ps' r \<Longrightarrow> product_ids ps \<Longrightarrow> product_ids ps'"
proof (cases r)
  case (Inr p)
  assume upd: "product_updated num req i ps ps' r" and ids: "product_ids ps"
  let ?p = "p\<lparr>prod_Price := num (prod_Price p)\<rparr>"
  have "prod_ID ?p = i" "ps' = map (\<lambda>y. if prod_ID y = i then ?p else y) ps"
    using upd Inr by (auto simp: product_updated_def)
  then have "map prod_ID ps' = map prod_ID ps" using product_ids_update [of ?p i ps] by (simp only:)
  then show ?thesis using ids by (simp only: product_ids_def)
qed (simp add: product_updated_def)

sublocale quiet_runtime \<subseteq> plain: product_servicer "\<lambda>w. t_products (db w)"
    "\<lambda>w. product_ids (t_products (db w))" num "ProductService (products_tbl X)"
proof (unfold_locales, goal_cases)
  case (1 w)
  then show ?case by (simp add: product_ids_def)
next
  case (2 w i r w')
  then show ?case using GetProductByID_result [of i w r w'] by (simp add: ProductService_def)
next
  case (3 w req i r w')
  then obtain ps where "db w' = (db w)\<lparr>t_products := ps\<rparr>" "product_updated num req i (t_products (db w)) ps r"
    using ProductService_Update_result [of i req w r w'] by (auto simp: ProductService_def)
  then show ?case using 3(1) by (auto intro: product_updated_ids)
next
  case (4 w i r w')
  then obtain ps where "db w' = (db w)\<lparr>t_products := ps\<rparr>" "product_deleted i (t_products (db w)) ps r"
    using ProductService_Delete_result [of i w r w'] by (auto simp: ProductService_def)
  then show ?case using 4(1) by (auto intro: product_deleted_ids)
qed

section \<open>The cached service\<close>

text \<open>What the cache may hold for a product.\<close>

definition cache_entry_ok :: "Product list \<Rightarrow> nat \<Rightarrow> bytes option \<Rightarrow> bool" where
  "cache_entry_ok ps i v \<longleftrightarrow>
     v = None
     \<or> v = Some (Text cacheNullValue) \<and> (\<forall>x\<in>set ps. prod_ID x \<noteq> i)
     \<or> (\<exists>x\<in>set ps. \<exists>j. prod_ID x = i \<and> json_Marshal_Product x = Inr j \<and> v = Some (Doc j))"

definition cache_good :: "Product list \<Rightarrow> redis_kv \<Rightarrow> bool" where
  "cache_good ps m \<longleftrightarrow>
     product_ids ps \<and> (\<forall>x\<in>set ps. product_ok x) \<and> (\<forall>i. cache_entry_ok ps i (m (cacheKey i)))"

lemma cache_entry_ok_cong:
  assumes "\<And>x. prod_ID x = k \<Longrightarrow> x \<in> set ps' \<longleftrightarrow> x \<in> set ps"
  shows "cache_entry_ok ps' k v = cache_entry_ok ps k v"
  using assms unfolding cache_entry_ok_def by blast

lemma cache_good_ok: "cache_good ps m \<Longrightarrow> x \<in> set ps \<Longrightarrow> product_ok x"
  by (simp add: cache_good_def)

lemma cache_good_fill:
  "cache_good ps m \<Longrightarrow> cache_entry_ok ps i (Some v) \<Longrightarrow> cache_good ps (m(cacheKey i \<mapsto> v))"
  by (simp add: cache_good_def)

lemma cache_good_update:
  assumes "cache_good ps m" "product_updated num req i ps ps' (Inr p)" "update_ok req"
    and "\<And>x. f64_is_finite x \<Longrightarrow> f64_is_finite (num x)"
  shows "cache_good ps' (m(cacheKey i := None))"
proof -
  let ?p = "p\<lparr>prod_Price := num (prod_Price p)\<rparr>"
  obtain old t where old: "old \<in> set ps" "prod_ID old = i" "p = (set_fields req old)\<lparr>prod_UpdatedAt := t\<rparr>"
    and ps': "ps' = map (\<lambda>y. if prod_ID y = i then ?p else y) ps"
    using assms(2) by (auto simp: product_updated_def)
  have "product_ok (set_fields req old)" using assms(1,3) old set_fields_ok by (auto simp: cache_good_def)
  then have "product_ok ?p" using old(3) assms(4) by (simp add: product_ok_def)
  then have "\<forall>x\<in>set ps'. product_ok x" using assms(1) ps' by (auto simp: cache_good_def)
  moreover have "product_ids ps'" using product_updated_ids [OF assms(2)] assms(1) by (simp add: cache_good_def)
  moreover have "cache_entry_ok ps' k (m (cacheKey k))" if "k \<noteq> i" for k
  proof -
    have "x \<in> set ps' \<longleftrightarrow> x \<in> set ps" if "prod_ID x = k" for x
      using ps' old that \<open>k \<noteq> i\<close> by (auto simp: image_iff)
    then show ?thesis using assms(1) cache_entry_ok_cong [of k ps' ps] by (auto simp: cache_good_def)
  qed
  ultimately show ?thesis by (simp add: cache_good_def) (simp add: cache_entry_ok_def)
qed

lemma cache_good_delete:
  assumes "cache_good ps m"
  shows "cache_good (filter (\<lambda>x. prod_ID x \<noteq> i) ps) (m(cacheKey i := None))"
proof -
  have "cache_entry_ok (filter (\<lambda>x. prod_ID x \<noteq> i) ps) k (m (cacheKey k))" if "k \<noteq> i" for k
    using assms that cache_entry_ok_cong [of k "filter (\<lambda>x. prod_ID x \<noteq> i) ps" ps] by (auto simp: cache_good_def)
  then show ?thesis using assms
    by (simp add: cache_good_def product_ids_filter) (simp add: cache_entry_ok_def)
qed

text \<open>Prices that the column rounds stay numbers.\<close>

locale cached_runtime = reliable_runtime +
  assumes num_finite: "f64_is_finite x \<Longrightarrow> f64_is_finite (num x)"

begin

abbreviation plain_service :: "'a ProductServicer" where
  "plain_service \<equiv> ProductService (products_tbl X)"

lemma GetProductByID_reliable:
  "ProductService_GetProductByID (products_tbl X) i w = (Inl e, w') \<Longrightarrow> e = ProdErrProductNotFound"
  by (auto simp: ProductService_GetProductByID_def FindProductByID_def
      dest!: prod.First_reliable split: sum.splits prod.splits if_splits)

lemma cacheTTL_result: "cacheTTL X w = (t, w') \<Longrightarrow> db w' = db w \<and> kv w' = kv w \<and> log w' = log w"
  using inp.Intn_law by (fastforce simp: cacheTTL_def split: prod.splits)

lemma cache_fill_result:
  assumes "cache_fill X plain_service i w = (r, w')" "cache_good (t_products (db w)) (kv w)"
  shows "db w' = db w \<and> cache_good (t_products (db w)) (kv w') \<and> product_read (t_products (db w)) i r
    \<and> (\<forall>e. r = Inl e \<longrightarrow> \<not> is_external e)"
proof -
  let ?ps = "t_products (db w)"
  obtain g u where get: "ProductService_GetProductByID (products_tbl X) i w = (g, u)" by fastforce
  note got = GetProductByID_result [OF get]
  show ?thesis
  proof (cases g)
    case (Inl e)
    then have e: "e = ProdErrProductNotFound" using get GetProductByID_reliable by blast
    obtain s where set: "rdb_Set X (cacheKey i) (Text cacheNullValue) cacheNullTTL u = (s, w')" and "r = Inl e"
      using assms(1) get Inl e by (auto simp: cache_fill_def ProductService_def split: prod.splits)
    moreover have "cache_entry_ok ?ps i (Some (Text cacheNullValue))"
      using got Inl e by (auto simp: product_read_def cache_entry_ok_def)
    ultimately show ?thesis using rdb.Set_law [OF set] rdb.Set_reliable [OF set] got Inl e assms(2)
      by (auto simp: write_result_def cache_good_fill)
  next
    case (Inr p)
    then have p: "p \<in> set ?ps" "prod_ID p = i" using got by (simp_all add: product_read_def)
    then obtain j where j: "json_Marshal_Product p = Inr j"
      using product_roundtrip [OF cache_good_ok [OF assms(2)]] by blast
    obtain t v where ttl: "cacheTTL X u = (t, v)" by fastforce
    obtain s where set: "rdb_Set X (cacheKey i) (Doc j) t v = (s, w')" and "r = Inr p"
      using assms(1) get Inr j ttl by (auto simp: cache_fill_def ProductService_def Let_def split: prod.splits)
    moreover have "cache_entry_ok ?ps i (Some (Doc j))"
      using p j by (auto simp: cache_entry_ok_def)
    ultimately show ?thesis
      using rdb.Set_law [OF set] rdb.Set_reliable [OF set] got Inr p assms(2) cacheTTL_result [OF ttl]
      by (auto simp: write_result_def cache_good_fill product_read_def)
  qed
qed

lemma cached_Get_result:
  assumes "CachedProductService_GetProductByID X plain_service i w = (r, w')"
    and good: "cache_good (t_products (db w)) (kv w)"
  shows "db w' = db w \<and> cache_good (t_products (db w)) (kv w') \<and> product_read (t_products (db w)) i r
    \<and> (\<forall>e. r = Inl e \<longrightarrow> \<not> is_external e)"
proof -
  let ?ps = "t_products (db w)"
  obtain g u where get: "rdb_Get X (cacheKey i) w = (g, u)" by fastforce
  note got = rdb.Get_law [OF get]
  then have u: "db u = db w" "kv u = kv w" by auto
  have entry: "cache_entry_ok ?ps i (kv w (cacheKey i))" using good by (simp add: cache_good_def)
  show ?thesis
  proof (cases g)
    case (Inl e)
    then show ?thesis using assms get u cache_fill_result [of i u r w']
      by (simp add: CachedProductService_GetProductByID_def)
  next
    case (Inr v)
    then have v: "kv w (cacheKey i) = Some v" using got by (simp add: get_result_def)
    show ?thesis
    proof (cases "v = Text cacheNullValue")
      case True
      then show ?thesis using assms get Inr u entry v
        by (auto simp: CachedProductService_GetProductByID_def product_read_def cache_entry_ok_def)
    next
      case False
      then obtain x j where x: "x \<in> set ?ps" "prod_ID x = i" "json_Marshal_Product x = Inr j" "v = Doc j"
        using entry v by (auto simp: cache_entry_ok_def)
      then have dec: "json_Unmarshal dec_Product j = Inr x"
        using product_roundtrip [OF cache_good_ok [OF good x(1)]] by simp
      then have "r = Inr x" "w' = u"
        using assms(1) get Inr False x(4) by (simp_all add: CachedProductService_GetProductByID_def)
      then show ?thesis using good u x by (simp add: product_read_def)
    qed
  qed
qed

end

sublocale cached_runtime \<subseteq> cached: product_servicer "\<lambda>w. t_products (db w)"
    "\<lambda>w. cache_good (t_products (db w)) (kv w)" num "CachedProductService X (ProductService (products_tbl X))"
proof (unfold_locales, goal_cases)
  case (1 w)
  then show ?case by (simp add: cache_good_def product_ids_def)
next
  case (2 w i r w')
  then show ?case using cached_Get_result [of i w r w'] by (simp add: CachedProductService_def)
next
  case (3 w req i r w')
  obtain g u where upd: "ProductService_Update (products_tbl X) i req w = (g, u)" by fastforce
  note eff = ProductService_Update_result [OF upd]
  show ?case
  proof (cases g)
    case (Inl e)
    then show ?thesis using 3 upd eff
      by (auto simp: CachedProductService_def ProductService_def CachedProductService_Update_def product_updated_def)
  next
    case (Inr p)
    obtain s where del: "rdb_Del X (cacheKey i) u = (s, w')" and r: "r = Inr p"
      using 3(3) upd Inr
      by (auto simp: CachedProductService_def ProductService_def CachedProductService_Update_def split: prod.splits)
    have w': "db w' = db u" "kv w' = (kv u)(cacheKey i := None)"
      using rdb.Del_law [OF del] rdb.Del_reliable [OF del] by (simp_all add: write_result_def)
    show ?thesis using eff w' r Inr cache_good_update [OF 3(1) _ 3(2) num_finite] by auto
  qed
next
  case (4 w i r w')
  obtain g u where upd: "ProductService_Delete (products_tbl X) i w = (g, u)" by fastforce
  note eff = ProductService_Delete_result [OF upd]
  show ?case
  proof (cases g)
    case (Inl e)
    then show ?thesis using 4 upd eff
      by (auto simp: CachedProductService_def ProductService_def CachedProductService_Delete_def product_deleted_def)
  next
    case (Inr p)
    obtain s where del: "rdb_Del X (cacheKey i) u = (s, w')" and r: "r = Inr ()"
      using 4(2) upd Inr
      by (auto simp: CachedProductService_def ProductService_def CachedProductService_Delete_def split: prod.splits)
    have w': "db w' = db u" "kv w' = (kv u)(cacheKey i := None)"
      using rdb.Del_law [OF del] rdb.Del_reliable [OF del] by (simp_all add: write_result_def)
    show ?thesis using eff w' r Inr cache_good_delete [OF 4(1), of i] by (auto simp: product_deleted_def)
  qed
qed

context quiet_runtime
begin

lemma page_bounds:
  assumes "0 \<le> psize" "ProductService_ListProducts (products_tbl X) page psize w = ((ps, tot, err), w')"
  shows "int (length ps) \<le> psize \<and> sorted (map (\<lambda>x. - prod_CreatedAt x) ps)
    \<and> (\<forall>x. x \<in> set ps \<longrightarrow> x \<in> set (t_products (db w)) \<and> prod_Status x = 1)
    \<and> (tot = 0 \<or> tot = int (length (filter (\<lambda>x. prod_Status x = 1) (t_products (db w)))))
    \<and> db w' = db w"
proof -
  let ?on = "\<lambda>x. prod_Status x = 1" and ?key = "\<lambda>x. - prod_CreatedAt x"
  let ?off = "wrap64 (wrap64 (page - 1) * psize)"
  obtain c u where c: "db_Count (products_tbl X) ?on w = (c, u)" by fastforce
  obtain f v where f: "db_Find (products_tbl X) ?on ?key ?off psize u = (f, v)" by fastforce
  have tot: "db u = db w" "tot = (case c of Inl _ \<Rightarrow> 0 | Inr n \<Rightarrow> int n)" "w' = v"
    "ps = (case f of Inl _ \<Rightarrow> [] | Inr xs \<Rightarrow> xs)"
    using assms(2) c f prod.Count_law [OF c]
    by (auto simp: ProductService_ListProducts_def FindAllProducts_def Let_def split: sum.splits)
  have n: "tot = 0 \<or> tot = int (length (filter ?on (t_products (db w))))"
    using prod.Count_law [OF c] tot by (auto simp: count_result_def split: sum.splits)
  show ?thesis
  proof (cases f)
    case (Inl e)
    then show ?thesis using tot n assms(1) prod.Find_law [OF f] by auto
  next
    case (Inr xs)
    then obtain ys where ys: "mset ys = mset (filter ?on (t_products (db w)))" "sorted (map ?key ys)"
      and xs: "xs = take (nat psize) (drop (nat ?off) ys)"
      using prod.Find_law [OF f] tot assms(1) by (auto simp: find_result_def)
    have "set xs \<subseteq> set ys" using xs by (meson set_drop_subset set_take_subset subset_trans)
    moreover have "set ys = set (filter ?on (t_products (db w)))" using ys(1) by (metis set_mset_mset)
    moreover have "sorted (map ?key xs)" using ys(2) by (simp add: xs sorted_wrt_take sorted_wrt_drop flip: take_map drop_map)
    moreover have "int (length xs) \<le> psize" using xs assms(1) by simp
    ultimately show ?thesis using tot n Inr prod.Find_law [OF f] by auto
  qed
qed

end

context cached_runtime
begin

lemmas cached_contract = cached.product_servicer_axioms

lemma reads_agree:
  assumes "cache_good (t_products (db w)) (kv w)"
  shows "fst (CachedProductService_GetProductByID X plain_service i w)
    = fst (ProductService_GetProductByID (products_tbl X) i w)"
proof -
  obtain r u where cached_read: "CachedProductService_GetProductByID X plain_service i w = (r, u)" by fastforce
  obtain r' u' where plain_read: "ProductService_GetProductByID (products_tbl X) i w = (r', u')" by fastforce
  have "r = r'"
  proof (rule cached.read_determined [OF assms])
    show "product_read (t_products (db w)) i r" "\<And>e. r = Inl e \<Longrightarrow> \<not> is_external e"
      using cached_Get_result [OF cached_read assms] by simp_all
    show "product_read (t_products (db w)) i r'" using GetProductByID_result [OF plain_read] by simp
    show "\<not> is_external e" if "r' = Inl e" for e
      using GetProductByID_reliable [of i w e u'] plain_read that by simp
  qed
  then show ?thesis using cached_read plain_read by simp
qed

lemma own_writes:
  assumes good: "cache_good (t_products (db w)) (kv w)" "update_ok req"
    and upd: "CachedProductService_Update X plain_service i req w = (Inr p, w1)"
    and get: "CachedProductService_GetProductByID X plain_service i w1 = (r, w2)"
    and del: "CachedProductService_Delete X plain_service i w2 = (Inr u, w3)"
    and get': "CachedProductService_GetProductByID X plain_service i w3 = (r', w4)"
  shows "r = Inr (p\<lparr>prod_Price := num (prod_Price p)\<rparr>)
    \<and> (\<exists>old\<in>set (t_products (db w)). \<exists>t. prod_ID old = i \<and> p = (set_fields req old)\<lparr>prod_UpdatedAt := t\<rparr>)
    \<and> r' = Inl ProdErrProductNotFound"
proof -
  note svc = CachedProductService_def
  have S: "svc_Update (CachedProductService X plain_service) i req w = (Inr p, w1)"
    "svc_GetProductByID (CachedProductService X plain_service) i w1 = (r, w2)"
    "svc_Delete (CachedProductService X plain_service) i w2 = (Inr u, w3)"
    "svc_GetProductByID (CachedProductService X plain_service) i w3 = (r', w4)"
    using upd get del get' by (simp_all add: svc)
  have one: "cache_good (t_products (db w1)) (kv w1)" using cached.Update_law [OF good S(1)] by simp
  have two: "cache_good (t_products (db w2)) (kv w2)" using cached.Get_law [OF one S(2)] by blast
  have three: "cache_good (t_products (db w3)) (kv w3)" using cached.Delete_law [OF two S(3)] by simp
  have "r = Inr (p\<lparr>prod_Price := num (prod_Price p)\<rparr>)"
    using cached.update_then_get [OF good S(1,2)] cached_Get_result [OF get one] by (cases r) auto
  moreover have "r' = Inl ProdErrProductNotFound"
    using cached.delete_then_get [OF two S(3,4)] cached_Get_result [OF get' three] by auto
  moreover have "product_updated num req i (t_products (db w)) (t_products (db w1)) (Inr p)"
    using cached.Update_law [OF good S(1)] by simp
  ultimately show ?thesis by (simp add: product_updated_def)
qed

end
section \<open>On the reference store\<close>

lemma mem_cached: "cached_runtime mem_db mem_kv mem_log (\<lambda>x. x) jsonb (mem_ext False (\<lambda>_ d. d) (\<lambda>x. x) jsonb)"
  by (simp add: cached_runtime_def cached_runtime_axioms_def reliable.reliable_runtime_axioms)

interpretation mem_cached: cached_runtime mem_db mem_kv mem_log "\<lambda>x. x" jsonb "mem_ext False (\<lambda>_ d. d) (\<lambda>x. x) jsonb"
  for jsonb
  by (rule mem_cached)

text \<open>Both services keep the contract.\<close>

interpretation plain_products: product_servicer "\<lambda>w. t_products (mem_db w)"
    "\<lambda>w. product_ids (t_products (mem_db w))" "\<lambda>x. x" "ProductService (products_tbl (demo_ext flaky))"
  for flaky
  by (rule quiet.plain.product_servicer_axioms)

interpretation cached_products: product_servicer "\<lambda>w. t_products (mem_db w)"
    "\<lambda>w. cache_good (t_products (mem_db w)) (mem_kv w)" "\<lambda>x. x"
    "CachedProductService (demo_ext False) (ProductService (products_tbl (demo_ext False)))"
  by (rule mem_cached.cached.product_servicer_axioms)

section \<open>Properties\<close>



text \<open>Clients read their own writes through the cache. A read that follows an update of the product
  returns the fields the update set over those it left out, with the price as the column keeps it;
  one that follows a deletion reports that there is no such product.\<close>

theorem cache_reads_own_writes:
  assumes "cached_runtime db kv log num jsonb X"
    and "cache_good (t_products (db w)) (kv w)" "update_ok req"
    and "CachedProductService_Update X (ProductService (products_tbl X)) i req w = (Inr p, w1)"
    and "CachedProductService_GetProductByID X (ProductService (products_tbl X)) i w1 = (r, w2)"
    and "CachedProductService_Delete X (ProductService (products_tbl X)) i w2 = (Inr u, w3)"
    and "CachedProductService_GetProductByID X (ProductService (products_tbl X)) i w3 = (r', w4)"
  shows "r = Inr (p\<lparr>prod_Price := num (prod_Price p)\<rparr>)
    \<and> (\<exists>old\<in>set (t_products (db w)). \<exists>t. prod_ID old = i \<and> p = (set_fields req old)\<lparr>prod_UpdatedAt := t\<rparr>)
    \<and> r' = Inl ProdErrProductNotFound"
  by (rule cached_runtime.own_writes [OF assms])

text \<open>A page of the product list. It holds at most \<^verbatim>\<open>page_size\<close> products, all of them on sale and
  in the table, newest first; the total counts every product on sale, or is 0 when counting failed.\<close>

theorem product_page_bounds:
  assumes "quiet_runtime db kv log num jsonb X" "0 \<le> psize"
    and "ProductService_ListProducts (products_tbl X) page psize w = ((ps, tot, err), w')"
  shows "int (length ps) \<le> psize \<and> sorted (map (\<lambda>x. - prod_CreatedAt x) ps)
    \<and> (\<forall>x. x \<in> set ps \<longrightarrow> x \<in> set (t_products (db w)) \<and> prod_Status x = 1)
    \<and> (tot = 0 \<or> tot = int (length (filter (\<lambda>x. prod_Status x = 1) (t_products (db w)))))
    \<and> db w' = db w"
  by (rule quiet_runtime.page_bounds [OF assms])
section \<open>Scenarios and witnesses\<close>

definition demo_product :: "nat \<Rightarrow> string \<Rightarrow> Product" where
  "demo_product i name =
     \<lparr>prod_ID = i, prod_Name = name, prod_Description = '''', prod_Price = f64_one, prod_Category = '''',
      prod_ImageURL = '''', prod_Status = 1, prod_CreatedAt = 7, prod_UpdatedAt = 7\<rparr>"

text \<open>A shop with one product, and a cached marker that product 2 does not exist.\<close>

definition demo_shop :: "unit mem" where
  "demo_shop = mem_empty\<lparr>mem_db := (mem_db (mem_empty :: unit mem))\<lparr>t_products := [demo_product 1 ''phone'']\<rparr>,
     mem_kv := [cacheKey 2 \<mapsto> Text '''']\<rparr>"

abbreviation demo_plain :: "unit mem ProductServicer" where
  "demo_plain \<equiv> ProductService (products_tbl (demo_ext False))"

abbreviation demo_cached :: "unit mem ProductServicer" where
  "demo_cached \<equiv> CachedProductService (demo_ext False) demo_plain"

definition demo_update :: UpdateProductRequest where
  "demo_update = \<lparr>upr_Name = ''tablet'', upr_Description = '''', upr_Price = f64_zero, upr_Category = '''',
     upr_ImageURL = '''', upr_Status = None\<rparr>"

definition demo_create :: CreateProductRequest where
  "demo_create = \<lparr>cpr_Name = ''watch'', cpr_Description = '''', cpr_Price = f64_one, cpr_Category = '''', cpr_ImageURL = ''''\<rparr>"

lemma demo_shop_good: "cache_good (t_products (mem_db demo_shop)) (mem_kv demo_shop)"
  by (auto simp: demo_shop_def mem_empty_def cache_good_def product_ids_def demo_product_def product_ok_def
      is_uint_def in_int16_def f64_one_parts cache_entry_ok_def cacheNullValue_def)

lemma demo_update_ok: "update_ok demo_update"
  by (simp add: update_ok_def demo_update_def f64_is_finite_def f64_zero_def f64_exp_def)

text \<open>Creating a product does not remove the empty marker that an earlier read of its number left
  behind: the created product 2 is in the table, and the cached service still reports that there is
  none.\<close>

theorem created_product_stays_hidden:
  "\<exists>p w'. svc_CreateProduct demo_cached demo_create demo_shop = (Inr p, w') \<and> prod_ID p = 2
     \<and> fst (svc_GetProductByID demo_plain 2 w') = Inr p
     \<and> fst (svc_GetProductByID demo_cached 2 w') = Inl ProdErrProductNotFound"
proof -
  let ?r = "svc_CreateProduct demo_cached demo_create demo_shop"
  have "fst ?r = Inr (case fst ?r of Inr p \<Rightarrow> p | Inl _ \<Rightarrow> demo_product 0 '''')" by code_simp
  moreover have "case fst ?r of Inr p \<Rightarrow> prod_ID p = 2 \<and> fst (svc_GetProductByID demo_plain 2 (snd ?r)) = Inr p
       \<and> fst (svc_GetProductByID demo_cached 2 (snd ?r)) = Inl ProdErrProductNotFound | Inl _ \<Rightarrow> False"
    by code_simp
  ultimately show ?thesis by (cases ?r) (auto split: sum.splits)
qed



theorem cache_reads_own_writes_witness:
  "\<exists>p w1. CachedProductService_Update (demo_ext False) demo_plain 1 demo_update demo_shop = (Inr p, w1)
     \<and> prod_Name p = ''tablet''
     \<and> fst (CachedProductService_GetProductByID (demo_ext False) demo_plain 1 w1) = Inr p"
proof -
  let ?get = "CachedProductService_GetProductByID (demo_ext False) demo_plain 1"
  let ?del = "CachedProductService_Delete (demo_ext False) demo_plain 1"
  let ?upd = "CachedProductService_Update (demo_ext False) demo_plain 1 demo_update demo_shop"
  have "case fst ?upd of Inr p \<Rightarrow> prod_Name p = ''tablet'' | Inl _ \<Rightarrow> False" by code_simp
  then obtain p w1 where upd: "?upd = (Inr p, w1)" "prod_Name p = ''tablet''"
    by (cases ?upd) (auto split: sum.splits)
  have "case fst (?del (snd (?get (snd ?upd)))) of Inr u \<Rightarrow> True | Inl _ \<Rightarrow> False" by code_simp
  then obtain w3 where del: "?del (snd (?get w1)) = (Inr (), w3)"
    using upd by (cases "?del (snd (?get w1))") (auto split: sum.splits)
  from cache_reads_own_writes [OF mem_cached demo_shop_good demo_update_ok upd(1) prod.collapse [symmetric]
      del prod.collapse [symmetric]]
  show ?thesis using upd by auto
qed

theorem product_page_bounds_witness:
  "fst (ProductService_ListProducts (products_tbl (demo_ext False)) 1 1 demo_shop) = ([demo_product 1 ''phone''], 1, None)
     \<and> prod_Status (demo_product 1 ''phone'') = 1"
proof -
  have run: "fst (ProductService_ListProducts (products_tbl (demo_ext False)) 1 1 demo_shop) = ([demo_product 1 ''phone''], 1, None)"
    by code_simp
  then obtain w' where "ProductService_ListProducts (products_tbl (demo_ext False)) 1 1 demo_shop
      = (([demo_product 1 ''phone''], 1, None), w')" by (metis prod.collapse)
  from product_page_bounds [OF demo_quiet _ this] run show ?thesis by simp
qed

end
