(* ===== verification/Config.thy ===== *)
theory Config
  imports Float64
begin

text \<open>
  \<^verbatim>\<open>pkg/config\<close>: the configuration of a process, a record per struct, and the connection
  strings built from it. A configuration is an argument of the definitions that read it;
  \<^verbatim>\<open>LoadConfig\<close>, which has viper fill it from a YAML file and the environment, is in \<open>Platform\<close>.
\<close>

section \<open>The structs\<close>

record NacosConfig =
  nc_Enabled :: bool
  nc_Host :: string
  nc_Port :: nat
  nc_Namespace :: string
  nc_Group :: string
  nc_ServiceName :: string
  nc_InstanceIP :: string
  nc_DataID :: string

record RouteConfig =
  rc_PathPrefix :: string
  rc_ServiceName :: string
  rc_Resource :: string

record SentinelConfig =
  sc_SeckillQPS :: float64
  sc_SeckillBreakerErrorRate :: float64
  sc_BreakerMinRequests :: nat
  sc_BreakerStatIntervalMs :: nat
  sc_BreakerRetryTimeoutMs :: nat
  sc_DefaultQPS :: float64

record GatewayConfig =
  gc_Routes :: "RouteConfig list"
  gc_Sentinel :: SentinelConfig
  gc_RefreshSecMs :: int

record SnowflakeConfig =
  sfc_NodeID :: int

record ConsumerGroupConfig =
  cg_GroupID :: string
  cg_Topic :: string

record KafkaConfig =
  kc_Brokers :: "string list"
  kc_Topic :: string
  kc_ProduceTopic :: string
  kc_ConsumerGroups :: "ConsumerGroupConfig list"

record OutboxConfig =
  obc_IntervalMs :: int

record PaymentConfig =
  pc_SuccessRate :: float64

record ServerConfig =
  srv_Port :: int

record ReplicaConfig =
  rep_Host :: string
  rep_Port :: int
  rep_User :: string
  rep_Password :: string

record DatabaseConfig =
  dbc_Driver :: string
  dbc_Host :: string
  dbc_Port :: int
  dbc_User :: string
  dbc_Password :: string
  dbc_DBName :: string
  dbc_SSLMode :: string
  dbc_Timezone :: string
  dbc_Replicas :: "ReplicaConfig list"

record RedisConfig =
  rdc_Host :: string
  rdc_Port :: int
  rdc_Password :: string
  rdc_DB :: int

record JWTConfig =
  jwc_Secret :: string
  jwc_ExpireHours :: int

record Config =
  cfg_Server :: ServerConfig
  cfg_Database :: DatabaseConfig
  cfg_JWT :: JWTConfig
  cfg_Redis :: RedisConfig
  cfg_Snowflake :: SnowflakeConfig
  cfg_Kafka :: KafkaConfig
  cfg_Outbox :: OutboxConfig
  cfg_Payment :: PaymentConfig
  cfg_Nacos :: NacosConfig
  cfg_Gateway :: GatewayConfig

section \<open>Connection strings\<close>

text \<open>The format of both functions.\<close>

definition postgres_url :: "string \<Rightarrow> string \<Rightarrow> string \<Rightarrow> int \<Rightarrow> string \<Rightarrow> string \<Rightarrow> string" where
  "postgres_url user pw host port dbname sslmode =
     ''postgres://'' @ user @ '':'' @ pw @ ''@'' @ host @ '':'' @ show_int port @ ''/'' @ dbname @ ''?sslmode='' @ sslmode"

definition DSN :: "DatabaseConfig \<Rightarrow> string" where
  "DSN d = postgres_url (dbc_User d) (dbc_Password d) (dbc_Host d) (dbc_Port d) (dbc_DBName d) (dbc_SSLMode d)"

definition ReplicaDSNs :: "DatabaseConfig \<Rightarrow> string list" where
  "ReplicaDSNs d =
     map (\<lambda>r. let user = (if rep_User r = '''' then dbc_User d else rep_User r);
                  pw = (if rep_Password r = '''' then dbc_Password d else rep_Password r) in
              postgres_url user pw (rep_Host r) (rep_Port r) (dbc_DBName d) (dbc_SSLMode d))
         (dbc_Replicas d)"

text \<open>A replica that says nothing but its address is reached like the primary there.\<close>

lemma replica_defaults:
  "r \<in> set (dbc_Replicas d) \<Longrightarrow> rep_User r = '''' \<Longrightarrow> rep_Password r = '''' \<Longrightarrow>
     DSN (d\<lparr>dbc_Host := rep_Host r, dbc_Port := rep_Port r\<rparr>) \<in> set (ReplicaDSNs d)"
  by (force simp: ReplicaDSNs_def DSN_def Let_def)

end
