(* ===== verification/Registry.thy ===== *)
theory Registry
  imports Config
begin

text \<open>
  \<^verbatim>\<open>pkg/registry\<close>: a process registers itself in Nacos and leaves it again. The SDK's naming
  and configuration clients and the list of network interfaces are parameters, the record
  \<open>nacos_sdk\<close> over a type of worlds; \<open>naming_service\<close> states what is relied on, through the
  instances the registry holds. The callbacks handed to \<^verbatim>\<open>Subscribe\<close> and \<^verbatim>\<open>ListenConfig\<close>
  run later, in other goroutines: the two operations only hand them over, and what they do is modelled
  where they are defined, in the gateway and the payment service.
\<close>

section \<open>The SDK\<close>

record Instance =
  in_Ip :: string
  in_Port :: nat
  in_Healthy :: bool
  in_Enable :: bool

record ClientConfig =
  cc_NamespaceId :: string
  cc_TimeoutMs :: nat
  cc_NotLoadCacheAtStart :: bool
  cc_LogDir :: string
  cc_CacheDir :: string
  cc_LogLevel :: string

record NacosServerConfig =
  ns_IpAddr :: string
  ns_Port :: nat
  ns_ContextPath :: string

record RegisterInstanceParam =
  ri_Ip :: string
  ri_Port :: nat
  ri_ServiceName :: string
  ri_GroupName :: string
  ri_Weight :: int
  ri_Enable :: bool
  ri_Healthy :: bool
  ri_Ephemeral :: bool

record DeregisterInstanceParam =
  di_Ip :: string
  di_Port :: nat
  di_ServiceName :: string
  di_GroupName :: string
  di_Ephemeral :: bool

text \<open>An interface address: an IP network, with whether it is a loopback and its IPv4 text, or another kind.\<close>

datatype net_addr = IPNet bool "string option" | OtherAddr

record 'w nacos_sdk =
  NewNamingClient :: "ClientConfig \<Rightarrow> NacosServerConfig list \<Rightarrow> 'w \<Rightarrow> (go_error + unit) \<times> 'w"
  NewConfigClient :: "ClientConfig \<Rightarrow> NacosServerConfig list \<Rightarrow> 'w \<Rightarrow> (go_error + unit) \<times> 'w"
  naming_RegisterInstance :: "RegisterInstanceParam \<Rightarrow> 'w \<Rightarrow> (go_error + bool) \<times> 'w"
  naming_DeregisterInstance :: "DeregisterInstanceParam \<Rightarrow> 'w \<Rightarrow> (go_error + bool) \<times> 'w"
  naming_SelectInstances :: "string \<Rightarrow> string \<Rightarrow> bool \<Rightarrow> 'w \<Rightarrow> (go_error + Instance list) \<times> 'w"
  naming_Subscribe :: "string \<Rightarrow> string \<Rightarrow> 'w \<Rightarrow> (go_error + unit) \<times> 'w"
  config_GetConfig :: "string \<Rightarrow> string \<Rightarrow> 'w \<Rightarrow> (go_error + string) \<times> 'w"
  config_PublishConfig :: "string \<Rightarrow> string \<Rightarrow> string \<Rightarrow> 'w \<Rightarrow> (go_error + bool) \<times> 'w"
  config_ListenConfig :: "string \<Rightarrow> string \<Rightarrow> 'w \<Rightarrow> (go_error + unit) \<times> 'w"
  net_InterfaceAddrs :: "'w \<Rightarrow> (go_error + net_addr list) \<times> 'w"

section \<open>nacos.go\<close>

definition DefaultGroup :: string where "DefaultGroup = ''DEFAULT_GROUP''"

record Options =
  op_Host :: string
  op_Port :: nat
  op_Namespace :: string
  op_Group :: string
  op_ServiceName :: string
  op_InstanceIP :: string
  op_InstancePort :: nat
  op_DataID :: string

record Client =
  cl_opts :: Options
  cl_registered :: bool

definition New :: "'w nacos_sdk \<Rightarrow> Options \<Rightarrow> 'w \<Rightarrow> (go_error + Client) \<times> 'w" where
  "New N opts w =
     (if op_Host opts = '''' then (Inl ErrNacosHostRequired, w)
      else
        (let opts1 = (if op_Port opts = 0 then opts\<lparr>op_Port := 8848\<rparr> else opts);
             opts2 = (if op_Group opts1 = '''' then opts1\<lparr>op_Group := DefaultGroup\<rparr> else opts1);
             clientCfg = \<lparr>cc_NamespaceId = op_Namespace opts2, cc_TimeoutMs = 5000, cc_NotLoadCacheAtStart = True,
                          cc_LogDir = ''/tmp/nacos/log'', cc_CacheDir = ''/tmp/nacos/cache'', cc_LogLevel = ''info''\<rparr>;
             serverCfgs = [\<lparr>ns_IpAddr = op_Host opts2, ns_Port = op_Port opts2, ns_ContextPath = ''/nacos''\<rparr>] in
         (case NewNamingClient N clientCfg serverCfgs w of
            (Inl err, w1) \<Rightarrow> (Inl (Errorf ''nacos: new naming client'' err), w1)
          | (Inr _, w1) \<Rightarrow>
              (case NewConfigClient N clientCfg serverCfgs w1 of
                 (Inl err, w2) \<Rightarrow> (Inl (Errorf ''nacos: new config client'' err), w2)
               | (Inr _, w2) \<Rightarrow> (Inr \<lparr>cl_opts = opts2, cl_registered = False\<rparr>, w2)))))"

fun first_ipv4 :: "net_addr list \<Rightarrow> go_error + string" where
  "first_ipv4 [] = Inl ErrNoLocalIPv4"
| "first_ipv4 (OtherAddr # addrs) = first_ipv4 addrs"
| "first_ipv4 (IPNet loopback v4 # addrs) =
     (if loopback then first_ipv4 addrs
      else (case v4 of Some ip \<Rightarrow> Inr ip | None \<Rightarrow> first_ipv4 addrs))"

definition detectLocalIP :: "'w nacos_sdk \<Rightarrow> 'w \<Rightarrow> (go_error + string) \<times> 'w" where
  "detectLocalIP N w =
     (case net_InterfaceAddrs N w of (Inl err, w1) \<Rightarrow> (Inl err, w1) | (Inr addrs, w1) \<Rightarrow> (first_ipv4 addrs, w1))"

definition register_as :: "'w nacos_sdk \<Rightarrow> Client \<Rightarrow> string \<Rightarrow> 'w \<Rightarrow> (go_error + unit) \<times> Client \<times> 'w" where
  "register_as N c ip w =
     (case naming_RegisterInstance N
             \<lparr>ri_Ip = ip, ri_Port = op_InstancePort (cl_opts c), ri_ServiceName = op_ServiceName (cl_opts c),
              ri_GroupName = op_Group (cl_opts c), ri_Weight = 1, ri_Enable = True, ri_Healthy = True,
              ri_Ephemeral = True\<rparr> w of
        (Inl err, w1) \<Rightarrow> (Inl (Errorf ''nacos: register'' err), c, w1)
      | (Inr ok, w1) \<Rightarrow>
          (if \<not> ok then (Inl ErrNacosRegisterFalse, c, w1)
           else (Inr (), c\<lparr>cl_registered := True, cl_opts := (cl_opts c)\<lparr>op_InstanceIP := ip\<rparr>\<rparr>, w1)))"

definition Register :: "'w nacos_sdk \<Rightarrow> Client \<Rightarrow> 'w \<Rightarrow> (go_error + unit) \<times> Client \<times> 'w" where
  "Register N c w =
     (if op_ServiceName (cl_opts c) = '''' \<or> op_InstancePort (cl_opts c) = 0
      then (Inl ErrNacosInstanceRequired, c, w)
      else if op_InstanceIP (cl_opts c) = ''''
      then (case detectLocalIP N w of
              (Inl err, w1) \<Rightarrow> (Inl (Errorf ''nacos: detect local ip'' err), c, w1)
            | (Inr detected, w1) \<Rightarrow> register_as N c detected w1)
      else register_as N c (op_InstanceIP (cl_opts c)) w)"

definition Deregister :: "'w nacos_sdk \<Rightarrow> Client \<Rightarrow> 'w \<Rightarrow> (go_error + unit) \<times> Client \<times> 'w" where
  "Deregister N c w =
     (if \<not> cl_registered c then (Inr (), c, w)
      else
        (case naming_DeregisterInstance N
                \<lparr>di_Ip = op_InstanceIP (cl_opts c), di_Port = op_InstancePort (cl_opts c),
                 di_ServiceName = op_ServiceName (cl_opts c), di_GroupName = op_Group (cl_opts c),
                 di_Ephemeral = True\<rparr> w of
           (Inl err, w1) \<Rightarrow> (Inl err, c\<lparr>cl_registered := False\<rparr>, w1)
         | (Inr _, w1) \<Rightarrow> (Inr (), c\<lparr>cl_registered := False\<rparr>, w1)))"

definition SelectInstances :: "'w nacos_sdk \<Rightarrow> Client \<Rightarrow> string \<Rightarrow> 'w \<Rightarrow> (go_error + Instance list) \<times> 'w" where
  "SelectInstances N c serviceName w = naming_SelectInstances N serviceName (op_Group (cl_opts c)) True w"

definition Subscribe :: "'w nacos_sdk \<Rightarrow> Client \<Rightarrow> string \<Rightarrow> 'w \<Rightarrow> (go_error + unit) \<times> 'w" where
  "Subscribe N c serviceName w = naming_Subscribe N serviceName (op_Group (cl_opts c)) w"

definition GetConfig :: "'w nacos_sdk \<Rightarrow> Client \<Rightarrow> string \<Rightarrow> 'w \<Rightarrow> (go_error + string) \<times> 'w" where
  "GetConfig N c dataID w = config_GetConfig N dataID (op_Group (cl_opts c)) w"

definition PublishConfig :: "'w nacos_sdk \<Rightarrow> Client \<Rightarrow> string \<Rightarrow> string \<Rightarrow> 'w \<Rightarrow> (go_error + bool) \<times> 'w" where
  "PublishConfig N c dataID content w = config_PublishConfig N dataID (op_Group (cl_opts c)) content w"

definition ListenConfig :: "'w nacos_sdk \<Rightarrow> Client \<Rightarrow> string \<Rightarrow> 'w \<Rightarrow> (go_error + unit) \<times> 'w" where
  "ListenConfig N c dataID w = config_ListenConfig N dataID (op_Group (cl_opts c)) w"

section \<open>bootstrap.go\<close>

text \<open>\<^verbatim>\<open>uint64(n)\<close> of an \<^verbatim>\<open>int\<close>.\<close>

definition uint64_of_int :: "int \<Rightarrow> nat" where
  "uint64_of_int i = nat (i mod 2 ^ 64)"

text \<open>
  The client, if there is one, and whether the returned function deregisters it (it does nothing
  otherwise).
\<close>

definition BootstrapService :: "'w nacos_sdk \<Rightarrow> Config \<Rightarrow> 'w \<Rightarrow> (Client option \<times> bool) \<times> 'w" where
  "BootstrapService N cfg w =
     (let nacos = cfg_Nacos cfg in
      if \<not> nc_Enabled nacos then ((None, False), w)
      else if nc_ServiceName nacos = '''' then ((None, False), w)
      else
        (case New N \<lparr>op_Host = nc_Host nacos, op_Port = nc_Port nacos, op_Namespace = nc_Namespace nacos,
                     op_Group = nc_Group nacos, op_ServiceName = nc_ServiceName nacos,
                     op_InstanceIP = nc_InstanceIP nacos, op_InstancePort = uint64_of_int (srv_Port (cfg_Server cfg)),
                     op_DataID = nc_DataID nacos\<rparr> w of
           (Inl _, w1) \<Rightarrow> ((None, False), w1)
         | (Inr c, w1) \<Rightarrow>
             (case Register N c w1 of
                (Inl _, c', w2) \<Rightarrow> ((Some c', False), w2)
              | (Inr _, c', w2) \<Rightarrow> ((Some c', True), w2))))"

definition deregister :: "'w nacos_sdk \<Rightarrow> Client option \<times> bool \<Rightarrow> 'w \<Rightarrow> (Client option \<times> bool) \<times> 'w" where
  "deregister N boot w =
     (case boot of
        (Some c, True) \<Rightarrow> (case Deregister N c w of (_, c', w1) \<Rightarrow> ((Some c', True), w1))
      | _ \<Rightarrow> (boot, w))"

section \<open>What the registry holds\<close>

type_synonym registration = "string \<times> string \<times> string \<times> nat"

definition registration_of :: "Client \<Rightarrow> registration" where
  "registration_of c = (op_Group (cl_opts c), op_ServiceName (cl_opts c), op_InstanceIP (cl_opts c), op_InstancePort (cl_opts c))"

text \<open>
  The naming service: a registration that is accepted is held, one that is refused changes
  nothing, and after an error it may be held all the same (a lost answer); an instance is removed
  when the service says so, and the other calls read only.
\<close>

locale naming_service =
  fixes registered :: "'w \<Rightarrow> registration set"
    and N :: "'w nacos_sdk"
  assumes clients_law: "NewNamingClient N cc sc w = (ur, w') \<Longrightarrow> registered w' = registered w"
      "NewConfigClient N cc sc w = (ur, w') \<Longrightarrow> registered w' = registered w"
    and addrs_law: "net_InterfaceAddrs N w = (ar, w') \<Longrightarrow> registered w' = registered w"
    and RegisterInstance_law: "naming_RegisterInstance N ri w = (br, w') \<Longrightarrow>
      (let held = insert (ri_GroupName ri, ri_ServiceName ri, ri_Ip ri, ri_Port ri) (registered w) in
       case br of Inr ok \<Rightarrow> registered w' = (if ok then held else registered w)
       | Inl e \<Rightarrow> registered w' = registered w \<or> registered w' = held)"
    and DeregisterInstance_law: "naming_DeregisterInstance N di w = (dr, w') \<Longrightarrow>
      registered w' = (case dr of
          Inr _ \<Rightarrow> registered w - {(di_GroupName di, di_ServiceName di, di_Ip di, di_Port di)}
        | Inl e \<Rightarrow> registered w)"
    and watching_law: "naming_SelectInstances N svc grp only_healthy w = (ir, w') \<Longrightarrow> registered w' = registered w"
      "naming_Subscribe N svc grp w = (sr, w') \<Longrightarrow> registered w' = registered w"
      "config_ListenConfig N dataID grp w = (sr, w') \<Longrightarrow> registered w' = registered w"

context naming_service
begin

lemma New_result:
  assumes "New N opts w = (r, w')"
  shows "registered w' = registered w \<and> (case r of Inr c \<Rightarrow> \<not> cl_registered c | Inl e \<Rightarrow> True)"
  using assms clients_law unfolding New_def Let_def
  by (auto split: prod.splits sum.splits if_splits)

lemma detectLocalIP_result: "detectLocalIP N w = (r, w') \<Longrightarrow> registered w' = registered w"
  using addrs_law by (auto simp: detectLocalIP_def split: prod.splits sum.splits)

lemma register_as_result:
  assumes "register_as N c ip w = (r, c', w')"
  shows "case r of
      Inr _ \<Rightarrow> cl_registered c' \<and> op_InstanceIP (cl_opts c') = ip
        \<and> registered w' = insert (registration_of c') (registered w)
    | Inl e \<Rightarrow> c' = c \<and> (registered w' = registered w
        \<or> (\<exists>ip. registered w' = insert (op_Group (cl_opts c), op_ServiceName (cl_opts c), ip, op_InstancePort (cl_opts c)) (registered w)))"
proof -
  obtain br w1 where reg: "naming_RegisterInstance N
      \<lparr>ri_Ip = ip, ri_Port = op_InstancePort (cl_opts c), ri_ServiceName = op_ServiceName (cl_opts c),
       ri_GroupName = op_Group (cl_opts c), ri_Weight = 1, ri_Enable = True, ri_Healthy = True,
       ri_Ephemeral = True\<rparr> w = (br, w1)" by fastforce
  note law = RegisterInstance_law [OF reg, unfolded Let_def]
  show ?thesis
  proof (cases br)
    case (Inl e)
    then show ?thesis using assms reg law by (auto simp: register_as_def)
  next
    case (Inr ok)
    then show ?thesis using assms reg law
      by (cases ok) (auto simp: register_as_def registration_of_def)
  qed
qed

lemma Register_result:
  assumes "Register N c w = (r, c', w')"
  shows "case r of
      Inr _ \<Rightarrow> cl_registered c' \<and> registered w' = insert (registration_of c') (registered w)
    | Inl e \<Rightarrow> c' = c \<and> (registered w' = registered w
        \<or> (\<exists>ip. registered w' = insert (op_Group (cl_opts c), op_ServiceName (cl_opts c), ip, op_InstancePort (cl_opts c)) (registered w)))"
proof -
  let ?o = "cl_opts c"
  show ?thesis
  proof (cases "op_ServiceName ?o = '''' \<or> op_InstancePort ?o = 0")
    case True
    then have "r = Inl ErrNacosInstanceRequired" "c' = c" "w' = w" using assms by (simp_all add: Register_def)
    then show ?thesis by simp
  next
    case known: False
    show ?thesis
    proof (cases "op_InstanceIP ?o = ''''")
      case True
    obtain dr w1 where detect: "detectLocalIP N w = (dr, w1)" by fastforce
    note same = detectLocalIP_result [OF detect]
    show ?thesis
    proof (cases dr)
      case (Inl e)
      then have "r = Inl (Errorf ''nacos: detect local ip'' e) \<and> c' = c \<and> w' = w1"
        using assms known True detect by (simp add: Register_def)
      then show ?thesis using same by simp
    next
      case (Inr ip)
      then have "register_as N c ip w1 = (r, c', w')"
        using assms known True detect by (simp add: Register_def)
      from register_as_result [OF this] same show ?thesis by (auto split: sum.splits)
    qed
    next
      case False
      then have "register_as N c (op_InstanceIP ?o) w = (r, c', w')" using assms known by (simp add: Register_def)
      from register_as_result [OF this] show ?thesis by (auto split: sum.splits)
    qed
  qed
qed

lemma Deregister_result:
  assumes "Deregister N c w = (r, c', w')"
  shows "\<not> cl_registered c' \<and> (if cl_registered c
    then (case r of Inr _ \<Rightarrow> registered w' = registered w - {registration_of c} | Inl e \<Rightarrow> registered w' = registered w)
    else r = Inr () \<and> w' = w \<and> c' = c)"
proof -
  obtain dr w1 where dereg: "naming_DeregisterInstance N
      \<lparr>di_Ip = op_InstanceIP (cl_opts c), di_Port = op_InstancePort (cl_opts c),
       di_ServiceName = op_ServiceName (cl_opts c), di_GroupName = op_Group (cl_opts c), di_Ephemeral = True\<rparr> w = (dr, w1)"
    by fastforce
  show ?thesis
  proof (cases "cl_registered c")
    case False
    then show ?thesis using assms by (simp add: Deregister_def)
  next
    case True
    show ?thesis
    proof (cases dr)
      case (Inl e)
      then have "r = Inl e" "c' = c\<lparr>cl_registered := False\<rparr>" "w' = w1"
        using assms True dereg by (simp_all add: Deregister_def)
      then show ?thesis using True Inl DeregisterInstance_law [OF dereg] by simp
    next
      case (Inr ok)
      then have "r = Inr ()" "c' = c\<lparr>cl_registered := False\<rparr>" "w' = w1"
        using assms True dereg by (simp_all add: Deregister_def)
      then show ?thesis using True Inr DeregisterInstance_law [OF dereg] by (simp add: registration_of_def)
    qed
  qed
qed

lemma Bootstrap_result:
  assumes "BootstrapService N cfg w = ((mc, live), w')"
  shows "(\<not> nc_Enabled (cfg_Nacos cfg) \<longrightarrow> w' = w \<and> mc = None) \<and>
    (if live then \<exists>c. mc = Some c \<and> cl_registered c \<and> registered w' = insert (registration_of c) (registered w)
     else registered w' = registered w \<or> (\<exists>x. registered w' = insert x (registered w)))"
proof (cases "nc_Enabled (cfg_Nacos cfg) \<and> nc_ServiceName (cfg_Nacos cfg) \<noteq> ''''")
  case False
  then show ?thesis using assms by (auto simp: BootstrapService_def Let_def split: if_splits)
next
  case True
  let ?opts = "\<lparr>op_Host = nc_Host (cfg_Nacos cfg), op_Port = nc_Port (cfg_Nacos cfg), op_Namespace = nc_Namespace (cfg_Nacos cfg),
    op_Group = nc_Group (cfg_Nacos cfg), op_ServiceName = nc_ServiceName (cfg_Nacos cfg),
    op_InstanceIP = nc_InstanceIP (cfg_Nacos cfg), op_InstancePort = uint64_of_int (srv_Port (cfg_Server cfg)),
    op_DataID = nc_DataID (cfg_Nacos cfg)\<rparr>"
  obtain nr w1 where new: "New N ?opts w = (nr, w1)" by fastforce
  note n = New_result [OF new]
  show ?thesis
  proof (cases nr)
    case (Inl e)
    then show ?thesis using assms True new n by (auto simp: BootstrapService_def Let_def)
  next
    case (Inr c)
    obtain rr c' w2 where reg: "Register N c w1 = (rr, c', w2)" by (metis prod.exhaust)
    have out: "mc = Some c'" "live = (case rr of Inr _ \<Rightarrow> True | Inl _ \<Rightarrow> False)" "w' = w2"
      using assms True new Inr reg by (auto simp: BootstrapService_def Let_def split: sum.splits)
    show ?thesis
    proof (cases rr)
      case (Inl e)
      then show ?thesis using Register_result [OF reg] out True n by auto metis
    qed (use Register_result [OF reg] out True n in auto)
  qed
qed

end

section \<open>A reference registry\<close>

text \<open>The registry as a list of registrations; \<open>healthy\<close> is whether it answers.\<close>

definition mem_nacos :: "bool \<Rightarrow> net_addr list \<Rightarrow> registration list nacos_sdk" where
  "mem_nacos healthy addrs =
     \<lparr>NewNamingClient = (\<lambda>cc sc w. (Inr (), w)),
      NewConfigClient = (\<lambda>cc sc w. (Inr (), w)),
      naming_RegisterInstance = (\<lambda>ri w.
        (if healthy then Inr True else Inl (ErrExternal ''no answer''),
         w @ [(ri_GroupName ri, ri_ServiceName ri, ri_Ip ri, ri_Port ri)])),
      naming_DeregisterInstance = (\<lambda>di w.
        if healthy then (Inr True, removeAll (di_GroupName di, di_ServiceName di, di_Ip di, di_Port di) w)
        else (Inl (ErrExternal ''no answer''), w)),
      naming_SelectInstances = (\<lambda>svc grp only_healthy w.
        (Inr (map (\<lambda>x. \<lparr>in_Ip = fst (snd (snd x)), in_Port = snd (snd (snd x)), in_Healthy = True, in_Enable = True\<rparr>)
               (filter (\<lambda>x. fst x = grp \<and> fst (snd x) = svc) w)), w)),
      naming_Subscribe = (\<lambda>svc grp w. (Inr (), w)),
      config_GetConfig = (\<lambda>dataID grp w. (Inr '''', w)),
      config_PublishConfig = (\<lambda>dataID grp content w. (Inr True, w)),
      config_ListenConfig = (\<lambda>dataID grp w. (Inr (), w)),
      net_InterfaceAddrs = (\<lambda>w. (Inr addrs, w))\<rparr>"

lemma mem_naming: "naming_service set (mem_nacos healthy addrs)"
  by unfold_locales (auto simp: mem_nacos_def Let_def split: if_splits)

interpretation nacos: naming_service set "mem_nacos healthy addrs" for healthy addrs
  by (rule mem_naming)

section \<open>Property\<close>


definition demo_config :: Config where
  "demo_config =
     \<lparr>cfg_Server = \<lparr>srv_Port = 81\<rparr>,
      cfg_Database = \<lparr>dbc_Driver = '''', dbc_Host = ''db'', dbc_Port = 5432, dbc_User = ''u'', dbc_Password = ''p'',
        dbc_DBName = ''order_db'', dbc_SSLMode = ''disable'', dbc_Timezone = '''', dbc_Replicas = []\<rparr>,
      cfg_JWT = \<lparr>jwc_Secret = ''s'', jwc_ExpireHours = 24\<rparr>,
      cfg_Redis = \<lparr>rdc_Host = ''redis'', rdc_Port = 6379, rdc_Password = '''', rdc_DB = 0\<rparr>,
      cfg_Snowflake = \<lparr>sfc_NodeID = 1\<rparr>,
      cfg_Kafka = \<lparr>kc_Brokers = [], kc_Topic = '''', kc_ProduceTopic = '''', kc_ConsumerGroups = []\<rparr>,
      cfg_Outbox = \<lparr>obc_IntervalMs = 0\<rparr>, cfg_Payment = \<lparr>pc_SuccessRate = f64_zero\<rparr>,
      cfg_Nacos = \<lparr>nc_Enabled = True, nc_Host = ''nacos'', nc_Port = 88, nc_Namespace = '''', nc_Group = '''',
        nc_ServiceName = ''order'', nc_InstanceIP = '''', nc_DataID = ''''\<rparr>,
      cfg_Gateway = \<lparr>gc_Routes = [],
        gc_Sentinel = \<lparr>sc_SeckillQPS = f64_zero, sc_SeckillBreakerErrorRate = f64_zero, sc_BreakerMinRequests = 0,
          sc_BreakerStatIntervalMs = 0, sc_BreakerRetryTimeoutMs = 0, sc_DefaultQPS = f64_zero\<rparr>,
        gc_RefreshSecMs = 0\<rparr>\<rparr>"


end
