(* ===== verification/Inventory.thy ===== *)
theory Inventory
  imports Reference_Store
begin

text \<open>
  \<^verbatim>\<open>internal/inventory\<close>: the repository's statements on the stock table, the service with its
  optimistic-lock retries, and the Redis stock counters of the flash sale. Every function takes
  the table handle the Go code keeps in \<^verbatim>\<open>repo.db\<close>; \<^verbatim>\<open>WithDB(tx)\<close> is passing another one.
  The abstract view of the table is a map from products to pairs (available, locked), with the
  operations \<open>reserve\<close>, \<open>release\<close> and \<open>confirm\<close>.
\<close>

section \<open>repository.go\<close>

definition Repository_GetByProductID ::
    "('w, Inventory) table_api \<Rightarrow> nat \<Rightarrow> 'w \<Rightarrow> (go_error + Inventory) \<times> 'w" where
  "Repository_GetByProductID db productID w = db_First db (\<lambda>x. inv_ProductID x = productID) w"

definition Upsert :: "('w, Inventory) table_api \<Rightarrow> Inventory \<Rightarrow> 'w \<Rightarrow> (go_error + Inventory) \<times> 'w" where
  "Upsert db invt w = db_Save db invt w"

definition DeductWithLock ::
    "('w, Inventory) table_api \<Rightarrow> nat \<Rightarrow> int \<Rightarrow> int \<Rightarrow> 'w \<Rightarrow> (go_error + unit) \<times> 'w" where
  "DeductWithLock db productID quantity version w =
     (case db_Updates db
             (\<lambda>x. inv_ProductID x = productID \<and> inv_Available x \<ge> quantity \<and> inv_Version x = version)
             (\<lambda>x. x\<lparr>inv_Available := inv_Available x - quantity, inv_Locked := inv_Locked x + quantity,
                    inv_Version := inv_Version x + 1\<rparr>) w of
        (Inl err, w1) \<Rightarrow> (Inl err, w1)
      | (Inr rowsAffected, w1) \<Rightarrow> (if rowsAffected = 0 then Inl ErrOptimisticLock else Inr (), w1))"

definition ReturnStock :: "('w, Inventory) table_api \<Rightarrow> nat \<Rightarrow> int \<Rightarrow> 'w \<Rightarrow> (go_error + unit) \<times> 'w" where
  "ReturnStock db productID quantity w =
     (case db_Updates db
             (\<lambda>x. inv_ProductID x = productID \<and> inv_Locked x \<ge> quantity)
             (\<lambda>x. x\<lparr>inv_Available := inv_Available x + quantity, inv_Locked := inv_Locked x - quantity,
                    inv_Version := inv_Version x + 1\<rparr>) w of
        (Inl err, w1) \<Rightarrow> (Inl err, w1)
      | (Inr rowsAffected, w1) \<Rightarrow> (if rowsAffected = 0 then Inl ErrNoLockedToReturn else Inr (), w1))"

definition Repository_ConfirmDeduction ::
    "('w, Inventory) table_api \<Rightarrow> nat \<Rightarrow> int \<Rightarrow> 'w \<Rightarrow> (go_error + unit) \<times> 'w" where
  "Repository_ConfirmDeduction db productID quantity w =
     (case db_Updates db
             (\<lambda>x. inv_ProductID x = productID \<and> inv_Locked x \<ge> quantity)
             (\<lambda>x. x\<lparr>inv_Locked := inv_Locked x - quantity, inv_Version := inv_Version x + 1\<rparr>) w of
        (Inl err, w1) \<Rightarrow> (Inl err, w1)
      | (Inr rowsAffected, w1) \<Rightarrow> (if rowsAffected = 0 then Inl ErrNoLockedToConfirm else Inr (), w1))"

section \<open>service.go\<close>

definition maxDeductRetries :: nat where "maxDeductRetries = 3"

definition InventoryService_GetByProductID ::
    "('w, Inventory) table_api \<Rightarrow> nat \<Rightarrow> 'w \<Rightarrow> (go_error + Inventory) \<times> 'w" where
  "InventoryService_GetByProductID db productID w =
     (case Repository_GetByProductID db productID w of
        (Inl err, w1) \<Rightarrow>
          (if errors_is err ErrRecordNotFound then (Inl InvErrInventoryNotFound, w1) else (Inl err, w1))
      | (Inr invt, w1) \<Rightarrow> (Inr invt, w1))"

record SetInventoryRequest =
  sir_Total :: int

definition SetInventory ::
    "('w, Inventory) table_api \<Rightarrow> nat \<Rightarrow> SetInventoryRequest \<Rightarrow> 'w \<Rightarrow> (go_error + Inventory) \<times> 'w" where
  "SetInventory db productID req w =
     (case Repository_GetByProductID db productID w of
        (Inl err, w1) \<Rightarrow>
          (if errors_is err ErrRecordNotFound
           then Upsert db
                  \<lparr>inv_ID = 0, inv_ProductID = productID, inv_Total = sir_Total req,
                   inv_Available = sir_Total req, inv_Locked = 0, inv_Version = 0,
                   inv_CreatedAt = 0, inv_UpdatedAt = 0\<rparr> w1
           else (Inl err, w1))
      | (Inr invt, w1) \<Rightarrow>
          (let diff = wrap64 (sir_Total req - inv_Total invt);
               inv1 = invt\<lparr>inv_Total := sir_Total req, inv_Available := wrap64 (inv_Available invt + diff)\<rparr>;
               inv2 = (if inv_Available inv1 < 0 then inv1\<lparr>inv_Available := 0\<rparr> else inv1) in
           Upsert db inv2 w1))"

text \<open>The loop of \<^verbatim>\<open>Deduct\<close>, with the number of iterations left.\<close>

fun Deduct_loop ::
    "('w, Inventory) table_api \<Rightarrow> nat \<Rightarrow> int \<Rightarrow> nat \<Rightarrow> 'w \<Rightarrow> (go_error + unit) \<times> 'w" where
  "Deduct_loop db productID quantity 0 w = (Inl InvErrStockInsufficient, w)"
| "Deduct_loop db productID quantity (Suc i) w =
     (case Repository_GetByProductID db productID w of
        (Inl err, w1) \<Rightarrow>
          (if errors_is err ErrRecordNotFound then (Inl InvErrInventoryNotFound, w1) else (Inl err, w1))
      | (Inr invt, w1) \<Rightarrow>
          (if inv_Available invt < quantity then (Inl InvErrStockInsufficient, w1)
           else (case DeductWithLock db productID quantity (inv_Version invt) w1 of
                   (Inl err, w2) \<Rightarrow>
                     (if errors_is err ErrOptimisticLock then Deduct_loop db productID quantity i w2
                      else (Inl err, w2))
                 | (Inr _, w2) \<Rightarrow> (Inr (), w2))))"

definition Deduct :: "('w, Inventory) table_api \<Rightarrow> nat \<Rightarrow> int \<Rightarrow> 'w \<Rightarrow> (go_error + unit) \<times> 'w" where
  "Deduct db productID quantity w = Deduct_loop db productID quantity maxDeductRetries w"

definition Return :: "('w, Inventory) table_api \<Rightarrow> nat \<Rightarrow> int \<Rightarrow> 'w \<Rightarrow> (go_error + unit) \<times> 'w" where
  "Return db productID quantity w = ReturnStock db productID quantity w"

definition InventoryService_ConfirmDeduction ::
    "('w, Inventory) table_api \<Rightarrow> nat \<Rightarrow> int \<Rightarrow> 'w \<Rightarrow> (go_error + unit) \<times> 'w" where
  "InventoryService_ConfirmDeduction db productID quantity w =
     Repository_ConfirmDeduction db productID quantity w"

definition stockKeyPrefix :: string where "stockKeyPrefix = ''inventory:stock:''"

definition stockKey :: "nat \<Rightarrow> string" where
  "stockKey productID = stockKeyPrefix @ show_nat productID"

definition PreloadStock ::
    "('w, Inventory) table_api \<Rightarrow> 'w ext \<Rightarrow> nat \<Rightarrow> 'w \<Rightarrow> (go_error + unit) \<times> 'w" where
  "PreloadStock db X productID w =
     (case Repository_GetByProductID db productID w of
        (Inl err, w1) \<Rightarrow> (Inl err, w1)
      | (Inr invt, w1) \<Rightarrow> rdb_Set X (stockKey productID) (Text (show_int (inv_Available invt))) 0 w1)"

definition DeductRedis :: "'w ext \<Rightarrow> nat \<Rightarrow> int \<Rightarrow> 'w \<Rightarrow> (go_error + unit) \<times> 'w" where
  "DeductRedis X productID quantity w =
     (let key = stockKey productID in
      case rdb_DecrBy X key quantity w of
        (Inl err, w1) \<Rightarrow> (Inl (Errorf ''redis DECRBY failed'' err), w1)
      | (Inr result, w1) \<Rightarrow>
          (if result < 0
           then (case rdb_IncrBy X key quantity w1 of (_, w2) \<Rightarrow> (Inl InvErrStockInsufficient, w2))
           else (Inr (), w1)))"

definition RollbackRedis :: "'w ext \<Rightarrow> nat \<Rightarrow> int \<Rightarrow> 'w \<Rightarrow> 'w" where
  "RollbackRedis X productID quantity w =
     (case rdb_IncrBy X (stockKey productID) quantity w of (_, w1) \<Rightarrow> w1)"

section \<open>The abstract stock\<close>

type_synonym stock = "nat \<rightharpoonup> int \<times> int"

definition reserve :: "nat \<Rightarrow> int \<Rightarrow> stock \<Rightarrow> stock option" where
  "reserve p q m = (case m p of
     Some (a, l) \<Rightarrow> if q \<le> a then Some (m(p \<mapsto> (a - q, l + q))) else None | None \<Rightarrow> None)"

definition release :: "nat \<Rightarrow> int \<Rightarrow> stock \<Rightarrow> stock option" where
  "release p q m = (case m p of
     Some (a, l) \<Rightarrow> if q \<le> l then Some (m(p \<mapsto> (a + q, l - q))) else None | None \<Rightarrow> None)"

definition confirm :: "nat \<Rightarrow> int \<Rightarrow> stock \<Rightarrow> stock option" where
  "confirm p q m = (case m p of
     Some (a, l) \<Rightarrow> if q \<le> l then Some (m(p \<mapsto> (a, l - q))) else None | None \<Rightarrow> None)"

definition stock_of :: "tables \<Rightarrow> stock" where
  "stock_of d = map_of (map (\<lambda>x. (inv_ProductID x, inv_Available x, inv_Locked x)) (t_inventories d))"

definition inv_keys :: "tables \<Rightarrow> bool" where
  "inv_keys d \<longleftrightarrow> distinct (map inv_ProductID (t_inventories d))"

text \<open>No count is negative.\<close>

definition stock_nonneg :: "stock \<Rightarrow> bool" where
  "stock_nonneg m \<longleftrightarrow> (\<forall>p a l. m p = Some (a, l) \<longrightarrow> 0 \<le> a \<and> 0 \<le> l)"

lemma stock_of_row:
  "inv_keys d \<Longrightarrow> x \<in> set (t_inventories d) \<Longrightarrow> stock_of d (inv_ProductID x) = Some (inv_Available x, inv_Locked x)"
  by (auto simp: stock_of_def inv_keys_def comp_def intro!: map_of_is_SomeI)

lemma stock_of_None: "stock_of d p = None \<longleftrightarrow> (\<forall>x\<in>set (t_inventories d). inv_ProductID x \<noteq> p)"
  by (force simp: stock_of_def map_of_eq_None_iff)

lemma stock_of_cases:
  assumes "inv_keys d"
  obtains "stock_of d p = None" "\<forall>x\<in>set (t_inventories d). inv_ProductID x \<noteq> p"
  | x where "x \<in> set (t_inventories d)" "inv_ProductID x = p" "stock_of d p = Some (inv_Available x, inv_Locked x)"
      "\<forall>y\<in>set (t_inventories d). inv_ProductID y = p \<longrightarrow> y = x"
proof (cases "stock_of d p")
  case None
  then show ?thesis using that(1) stock_of_None by blast
next
  case (Some s)
  then obtain x where "x \<in> set (t_inventories d)" "inv_ProductID x = p"
    by (metis option.distinct(1) stock_of_None)
  moreover from this have "\<forall>y\<in>set (t_inventories d). inv_ProductID y = p \<longrightarrow> y = x"
    using assms by (auto simp: inv_keys_def distinct_map inj_on_def)
  ultimately show ?thesis using that(2) stock_of_row [OF assms] by blast
qed

text \<open>An update of the rows of one product, seen from the stock.\<close>

lemma map_of_row_update:
  assumes "distinct (map k xs)" "x \<in> set xs" "P x"
    and "\<And>y. P y \<Longrightarrow> k y = k x" "\<And>y. k (f y) = k y"
  shows "map_of (map (\<lambda>y. (k y, v y)) (map (\<lambda>y. if P y then f y else y) xs))
      = (map_of (map (\<lambda>y. (k y, v y)) xs))(k x \<mapsto> v (f x))"
  using assms(1-3)
proof (induction xs)
  case (Cons y ys)
  show ?case
  proof (cases "y = x")
    case True
    then have "k x \<notin> k ` set ys" using Cons.prems(1) by simp
    then have "\<forall>z\<in>set ys. \<not> P z" using assms(4) by (metis imageI)
    then have "map (\<lambda>y. if P y then f y else y) ys = ys" by (simp add: map_if_none)
    then show ?thesis using True Cons.prems by (simp only: list.map) (auto simp: assms(5) fun_eq_iff)
  next
    case False
    then have "k y \<noteq> k x" using Cons.prems by force
    moreover from this have "\<not> P y" using assms(4) by blast
    ultimately show ?thesis using Cons False by (auto simp: fun_eq_iff)
  qed
qed simp

lemma stock_of_update:
  assumes "inv_keys d" "x \<in> set (t_inventories d)" "P x" "inv_ProductID x = p"
    and "\<And>y. P y \<Longrightarrow> inv_ProductID y = p" "\<And>y. inv_ProductID (f y) = inv_ProductID y"
  shows "stock_of (d\<lparr>t_inventories := map (\<lambda>y. if P y then f y else y) (t_inventories d)\<rparr>)
      = (stock_of d)(p \<mapsto> (inv_Available (f x), inv_Locked (f x)))"
  using map_of_row_update [where k = inv_ProductID and v = "\<lambda>x. (inv_Available x, inv_Locked x)" and P = P and f = f] assms
  by (simp add: stock_of_def inv_keys_def)

text \<open>What the three statements make of the stock.\<close>

lemma stock_of_deduct:
  assumes "inv_keys d" "x \<in> set (t_inventories d)" "inv_ProductID x = p" "q \<le> inv_Available x" "inv_Version x = v"
  shows "reserve p q (stock_of d) = Some (stock_of (d\<lparr>t_inventories :=
    map (\<lambda>y. if inv_ProductID y = p \<and> inv_Available y \<ge> q \<and> inv_Version y = v
             then sch_touch inventory_schema t (y\<lparr>inv_Available := inv_Available y - q,
               inv_Locked := inv_Locked y + q, inv_Version := inv_Version y + 1\<rparr>) else y) (t_inventories d)\<rparr>))"
  using assms stock_of_row [OF assms(1,2)]
  by (subst stock_of_update [where x = x and p = p]) (auto simp: reserve_def inventory_schema_def)

lemma stock_of_return:
  assumes "inv_keys d" "x \<in> set (t_inventories d)" "inv_ProductID x = p" "q \<le> inv_Locked x"
  shows "release p q (stock_of d) = Some (stock_of (d\<lparr>t_inventories :=
    map (\<lambda>y. if inv_ProductID y = p \<and> inv_Locked y \<ge> q
             then sch_touch inventory_schema t (y\<lparr>inv_Available := inv_Available y + q,
               inv_Locked := inv_Locked y - q, inv_Version := inv_Version y + 1\<rparr>) else y) (t_inventories d)\<rparr>))"
  using assms stock_of_row [OF assms(1,2)]
  by (subst stock_of_update [where x = x and p = p]) (auto simp: release_def inventory_schema_def)

lemma stock_of_confirm:
  assumes "inv_keys d" "x \<in> set (t_inventories d)" "inv_ProductID x = p" "q \<le> inv_Locked x"
  shows "confirm p q (stock_of d) = Some (stock_of (d\<lparr>t_inventories :=
    map (\<lambda>y. if inv_ProductID y = p \<and> inv_Locked y \<ge> q
             then sch_touch inventory_schema t (y\<lparr>inv_Locked := inv_Locked y - q,
               inv_Version := inv_Version y + 1\<rparr>) else y) (t_inventories d)\<rparr>))"
  using assms stock_of_row [OF assms(1,2)]
  by (subst stock_of_update [where x = x and p = p]) (auto simp: confirm_def inventory_schema_def)

lemma no_stock:
  assumes "inv_keys d"
  shows "reserve p q (stock_of d) = None \<longleftrightarrow>
      (\<forall>x\<in>set (t_inventories d). \<not> (inv_ProductID x = p \<and> inv_Available x \<ge> q))"
    and "release p q (stock_of d) = None \<longleftrightarrow>
      (\<forall>x\<in>set (t_inventories d). \<not> (inv_ProductID x = p \<and> inv_Locked x \<ge> q))"
    and "confirm p q (stock_of d) = None \<longleftrightarrow>
      (\<forall>x\<in>set (t_inventories d). \<not> (inv_ProductID x = p \<and> inv_Locked x \<ge> q))"
  by (cases rule: stock_of_cases [OF assms, of p];
      force simp: reserve_def release_def confirm_def)+

section \<open>The statements against the stock\<close>

text \<open>
  What a guarded update of one product's row may do: the driver reports an error, or no row meets
  the guard and \<open>refused\<close> is returned, or the stock takes the step \<open>op\<close>. All of it happens in a
  state \<open>d\<close> that the other sessions have reached.
\<close>

definition guarded_step ::
    "(stock \<Rightarrow> stock option) \<Rightarrow> go_error \<Rightarrow> tables \<Rightarrow> tables \<Rightarrow> go_error + unit \<Rightarrow> bool" where
  "guarded_step op refused d d' r \<longleftrightarrow>
     (case r of
        Inr _ \<Rightarrow> op (stock_of d) = Some (stock_of d')
          \<and> map inv_ProductID (t_inventories d') = map inv_ProductID (t_inventories d)
          \<and> (\<exists>rows. d' = d\<lparr>t_inventories := rows\<rparr>)
      | Inl e \<Rightarrow> d' = d \<and> (e = refused \<and> op (stock_of d) = None \<or> is_external e))"

definition guarded_statement ::
    "('w \<Rightarrow> tables) \<Rightarrow> ('w \<Rightarrow> 'r) \<Rightarrow> (tables \<Rightarrow> tables \<Rightarrow> bool) \<Rightarrow> (stock \<Rightarrow> stock option) \<Rightarrow> go_error \<Rightarrow>
      'w \<Rightarrow> go_error + unit \<Rightarrow> 'w \<Rightarrow> bool" where
  "guarded_statement db rest rely op refused w r w' \<longleftrightarrow>
     rest w' = rest w \<and> (\<exists>d. rely (db w) d \<and> guarded_step op refused d (db w') r)"

text \<open>No session renames products or adds a second row for one.\<close>

definition keys_stable :: "(tables \<Rightarrow> tables \<Rightarrow> bool) \<Rightarrow> tables \<Rightarrow> bool" where
  "keys_stable rely d \<longleftrightarrow> (\<forall>d'. rely d d' \<longrightarrow> inv_keys d')"

lemma keys_stable_quiet [simp]: "keys_stable (=) d \<longleftrightarrow> inv_keys d"
  by (simp add: keys_stable_def)

context runtime
begin

lemma guarded_update:
  assumes "db_Updates (inventories_tbl X) P f w = (nr, w')"
    and "\<And>y. inv_ProductID (f y) = inv_ProductID y" "keys_stable rely (db w)"
    and "\<And>d t. inv_keys d \<Longrightarrow> \<exists>x\<in>set (t_inventories d). P x \<Longrightarrow> op (stock_of d) = Some (stock_of
        (d\<lparr>t_inventories := map (\<lambda>y. if P y then sch_touch inventory_schema t (f y) else y) (t_inventories d)\<rparr>))"
    and "\<And>d. inv_keys d \<Longrightarrow> op (stock_of d) = None \<longleftrightarrow> (\<forall>x\<in>set (t_inventories d). \<not> P x)"
  shows "guarded_statement db (\<lambda>w. (kv w, log w)) rely op refused w
    (case nr of Inl e \<Rightarrow> Inl e | Inr n \<Rightarrow> if n = 0 then Inl refused else Inr ()) w'"
proof -
  note law = inv.Updates_law [OF assms(1)]
  then obtain d rows where d: "rely (db w) d" "db w' = d\<lparr>t_inventories := rows\<rparr>"
    and upd: "update_result inventory_schema P f (t_inventories d) rows nr" by auto
  have keys: "inv_keys d" using assms(3) d(1) by (simp add: keys_stable_def)
  show ?thesis
  proof (cases nr)
    case (Inl e)
    then show ?thesis using upd d law by (auto simp: update_result_def guarded_statement_def guarded_step_def)
  next
    case (Inr n)
    then obtain t where n: "n = length (filter P (t_inventories d))"
      and rows: "rows = map (\<lambda>y. if P y then sch_touch inventory_schema t (f y) else y) (t_inventories d)"
      using upd by (auto simp: update_result_def)
    show ?thesis
    proof (cases "n = 0")
      case True
      then have none: "\<forall>x\<in>set (t_inventories d). \<not> P x" using n length_filter_zero by metis
      then have "rows = t_inventories d" unfolding rows by (intro map_if_none) blast
      then show ?thesis using none True Inr d law assms(5) [OF keys]
        by (auto simp: guarded_statement_def guarded_step_def)
    next
      case False
      then have "\<exists>x\<in>set (t_inventories d). P x" using n by (metis length_filter_zero)
      moreover have "map inv_ProductID rows = map inv_ProductID (t_inventories d)"
        unfolding rows by (simp add: assms(2) inventory_schema_def)
      ultimately show ?thesis using False Inr d law assms(4) [OF keys, of t]
        by (auto simp: guarded_statement_def guarded_step_def rows)
    qed
  qed
qed

lemma ReturnStock_result:
  assumes "ReturnStock (inventories_tbl X) p q w = (r, w')" "keys_stable rely (db w)"
  shows "guarded_statement db (\<lambda>w. (kv w, log w)) rely (release p q) ErrNoLockedToReturn w r w'"
proof -
  obtain nr where upd: "db_Updates (inventories_tbl X) (\<lambda>x. inv_ProductID x = p \<and> inv_Locked x \<ge> q)
      (\<lambda>x. x\<lparr>inv_Available := inv_Available x + q, inv_Locked := inv_Locked x - q,
             inv_Version := inv_Version x + 1\<rparr>) w = (nr, w')"
    and r: "r = (case nr of Inl e \<Rightarrow> Inl e | Inr n \<Rightarrow> if n = 0 then Inl ErrNoLockedToReturn else Inr ())"
    using assms(1) by (auto simp: ReturnStock_def split: prod.splits sum.splits)
  show ?thesis unfolding r
    by (rule guarded_update [OF upd _ assms(2)]) (auto simp: no_stock intro!: stock_of_return)
qed

lemma ConfirmDeduction_result:
  assumes "Repository_ConfirmDeduction (inventories_tbl X) p q w = (r, w')" "keys_stable rely (db w)"
  shows "guarded_statement db (\<lambda>w. (kv w, log w)) rely (confirm p q) ErrNoLockedToConfirm w r w'"
proof -
  obtain nr where upd: "db_Updates (inventories_tbl X) (\<lambda>x. inv_ProductID x = p \<and> inv_Locked x \<ge> q)
      (\<lambda>x. x\<lparr>inv_Locked := inv_Locked x - q, inv_Version := inv_Version x + 1\<rparr>) w = (nr, w')"
    and r: "r = (case nr of Inl e \<Rightarrow> Inl e | Inr n \<Rightarrow> if n = 0 then Inl ErrNoLockedToConfirm else Inr ())"
    using assms(1) by (auto simp: Repository_ConfirmDeduction_def split: prod.splits sum.splits)
  show ?thesis unfolding r
    by (rule guarded_update [OF upd _ assms(2)]) (auto simp: no_stock intro!: stock_of_confirm)
qed

text \<open>\<^verbatim>\<open>DeductWithLock\<close> is refused also when only the version is stale.\<close>

lemma DeductWithLock_result:
  assumes "DeductWithLock (inventories_tbl X) p q v w = (r, w')" "keys_stable rely (db w)"
  shows "kv w' = kv w \<and> log w' = log w \<and> (\<exists>d. rely (db w) d \<and>
    (case r of
       Inr _ \<Rightarrow> guarded_step (reserve p q) ErrOptimisticLock d (db w') r
     | Inl e \<Rightarrow> db w' = d \<and> (is_external e \<or> e = ErrOptimisticLock \<and>
         (\<forall>x\<in>set (t_inventories d). \<not> (inv_ProductID x = p \<and> inv_Available x \<ge> q \<and> inv_Version x = v)))))"
proof -
  let ?P = "\<lambda>x. inv_ProductID x = p \<and> inv_Available x \<ge> q \<and> inv_Version x = v"
  obtain nr where "db_Updates (inventories_tbl X) ?P
      (\<lambda>x. x\<lparr>inv_Available := inv_Available x - q, inv_Locked := inv_Locked x + q,
             inv_Version := inv_Version x + 1\<rparr>) w = (nr, w')"
    and r: "r = (case nr of Inl e \<Rightarrow> Inl e | Inr n \<Rightarrow> if n = 0 then Inl ErrOptimisticLock else Inr ())"
    using assms(1) by (auto simp: DeductWithLock_def split: prod.splits sum.splits)
  note law = inv.Updates_law [OF this(1)]
  then obtain d rows where d: "rely (db w) d" "db w' = d\<lparr>t_inventories := rows\<rparr>"
    and upd: "update_result inventory_schema ?P (\<lambda>x. x\<lparr>inv_Available := inv_Available x - q,
      inv_Locked := inv_Locked x + q, inv_Version := inv_Version x + 1\<rparr>) (t_inventories d) rows nr" by auto
  have keys: "inv_keys d" using assms(2) d(1) by (simp add: keys_stable_def)
  have hit: ?thesis if n: "nr = Inr n" "0 < n" for n
  proof -
    obtain t where rows: "rows = map (\<lambda>y. if ?P y then sch_touch inventory_schema t
        (y\<lparr>inv_Available := inv_Available y - q, inv_Locked := inv_Locked y + q,
           inv_Version := inv_Version y + 1\<rparr>) else y) (t_inventories d)"
      and "n = length (filter ?P (t_inventories d))"
      using upd n(1) by (auto simp: update_result_def)
    then have "length (filter ?P (t_inventories d)) \<noteq> 0" using n(2) by simp
    then obtain x where "x \<in> set (t_inventories d)" "?P x" unfolding length_filter_zero by blast
    with stock_of_deduct [OF keys, of x p q v t]
    have "reserve p q (stock_of d) = Some (stock_of (db w'))" by (simp add: d(2) rows)
    moreover have "map inv_ProductID rows = map inv_ProductID (t_inventories d)"
      by (simp add: rows inventory_schema_def)
    ultimately show ?thesis using law d n r by (auto simp: guarded_step_def)
  qed
  show ?thesis
  proof (cases "\<exists>n. nr = Inr n \<and> 0 < n")
    case True
    then show ?thesis using hit by blast
  next
    case False
    then show ?thesis using law d upd r map_if_none [of "t_inventories d" ?P]
      by (auto simp: update_result_def filter_empty_conv split: sum.splits if_splits)
  qed
qed

end

section \<open>The retry loop\<close>

text \<open>
  \<^verbatim>\<open>Deduct\<close> among other sessions: it reserves the stock in one step, in a state \<open>d\<close> the others
  have reached, or leaves the tables to them; what it reports then was seen in a state on the way.
\<close>

definition deduct_outcome ::
    "(tables \<Rightarrow> tables \<Rightarrow> bool) \<Rightarrow> nat \<Rightarrow> int \<Rightarrow> tables \<Rightarrow> go_error + unit \<Rightarrow> tables \<Rightarrow> bool" where
  "deduct_outcome rely p q d0 r d' \<longleftrightarrow>
     (\<exists>d. rely d0 d \<and>
       (case r of
          Inr _ \<Rightarrow> guarded_step (reserve p q) ErrOptimisticLock d d' r
        | Inl e \<Rightarrow> d' = d \<and>
            (is_external e \<or> e = InvErrStockInsufficient
             \<or> e = InvErrInventoryNotFound \<and> (\<exists>d1. rely d0 d1 \<and> stock_of d1 p = None))))"

context runtime
begin

lemma read_product:
  assumes "Repository_GetByProductID (inventories_tbl X) p w = (r, w')"
  shows "kv w' = kv w" "log w' = log w" "rely (db w) (db w')"
    "case r of
       Inr x \<Rightarrow> x \<in> set (t_inventories (db w')) \<and> inv_ProductID x = p
     | Inl e \<Rightarrow> e = ErrRecordNotFound \<and> stock_of (db w') p = None \<or> is_external e"
  using inv.First_law [OF assms [unfolded Repository_GetByProductID_def]]
  by (auto simp: first_result_def stock_of_None split: sum.splits)

lemma deduct_outcome_later:
  assumes "rely d0 d1" "deduct_outcome rely p q d1 r d'"
  shows "deduct_outcome rely p q d0 r d'"
proof -
  have later: "rely d1 d \<Longrightarrow> rely d0 d" for d by (rule inv.rely_trans [OF assms(1)])
  show ?thesis using assms(2) unfolding deduct_outcome_def by (cases r; simp; blast dest: later)
qed

lemma keys_stable_later: "keys_stable rely d \<Longrightarrow> rely d d' \<Longrightarrow> keys_stable rely d'"
  unfolding keys_stable_def by (meson inv.rely_trans)

lemma Deduct_loop_result:
  assumes "Deduct_loop (inventories_tbl X) p q n w = (r, w')" "keys_stable rely (db w)"
  shows "kv w' = kv w \<and> log w' = log w \<and> deduct_outcome rely p q (db w) r (db w')"
  using assms
proof (induction n arbitrary: w)
  case 0
  then show ?case by (auto simp: deduct_outcome_def)
next
  case (Suc n)
  obtain f u where read: "Repository_GetByProductID (inventories_tbl X) p w = (f, u)" by fastforce
  note seen = read_product [OF read]
  have keys: "keys_stable rely (db u)" by (rule keys_stable_later [OF Suc.prems(2) seen(3)])
  show ?case
  proof (cases f)
    case (Inl e)
    then show ?thesis using Suc.prems(1) read seen
      by (auto simp: deduct_outcome_def split: if_splits)
  next
    case (Inr x)
    show ?thesis
    proof (cases "inv_Available x < q")
      case True
      then show ?thesis using Suc.prems(1) read seen Inr by (auto simp: deduct_outcome_def)
    next
      case False
      obtain l v where lock: "DeductWithLock (inventories_tbl X) p q (inv_Version x) u = (l, v)" by fastforce
      note locked = DeductWithLock_result [OF lock keys]
      then obtain d where d: "rely (db u) d" and l: "case l of
            Inr _ \<Rightarrow> guarded_step (reserve p q) ErrOptimisticLock d (db v) l
          | Inl e \<Rightarrow> db v = d \<and> (is_external e \<or> e = ErrOptimisticLock)"
        by (cases l) auto
      show ?thesis
      proof (cases "l = Inl ErrOptimisticLock")
        case True
        then have "Deduct_loop (inventories_tbl X) p q n v = (r, w')" "db v = d"
          using Suc.prems(1) read Inr False lock l by auto
        then show ?thesis
          using Suc.IH [of v] deduct_outcome_later [of "db w" "db v" p q r "db w'"]
            keys_stable_later [OF keys] d locked seen inv.rely_trans by metis
      next
        case False
        then have "r = l" "w' = v"
          using Suc.prems(1) read Inr \<open>\<not> inv_Available x < q\<close> lock l by (auto split: sum.splits)
        moreover have "rely (db w) d" using seen(3) d by (rule inv.rely_trans)
        ultimately show ?thesis
          using seen(1,2) locked l False unfolding deduct_outcome_def by (auto split: sum.splits)
      qed
    qed
  qed
qed

end

context quiet_runtime
begin

text \<open>Without other sessions the first attempt decides.\<close>

lemma Deduct_quiet:
  assumes "Deduct (inventories_tbl X) p q w = (r, w')" "inv_keys (db w)"
  shows "kv w' = kv w \<and> log w' = log w \<and>
    (case r of
       Inr _ \<Rightarrow> guarded_step (reserve p q) ErrOptimisticLock (db w) (db w') r
     | Inl e \<Rightarrow> db w' = db w \<and>
         (is_external e
          \<or> e = InvErrInventoryNotFound \<and> stock_of (db w) p = None
          \<or> e = InvErrStockInsufficient \<and> (\<exists>a l. stock_of (db w) p = Some (a, l) \<and> a < q)))"
proof -
  have keys: "keys_stable (=) (db v)" if "db v = db w" for v using assms(2) that by simp
  obtain f u where read: "Repository_GetByProductID (inventories_tbl X) p w = (f, u)" by fastforce
  note seen = read_product [OF read]
  show ?thesis
  proof (cases f)
    case (Inl e)
    then show ?thesis using assms(1) read seen
      by (auto simp: Deduct_def maxDeductRetries_def eval_nat_numeral split: if_splits)
  next
    case (Inr x)
    then have x: "x \<in> set (t_inventories (db w))" "stock_of (db w) p = Some (inv_Available x, inv_Locked x)"
      using seen stock_of_row [OF assms(2)] by auto
    show ?thesis
    proof (cases "inv_Available x < q")
      case True
      then show ?thesis using assms(1) read seen Inr x
        by (auto simp: Deduct_def maxDeductRetries_def eval_nat_numeral)
    next
      case False
      obtain l v where lock: "DeductWithLock (inventories_tbl X) p q (inv_Version x) u = (l, v)" by fastforce
      note locked = DeductWithLock_result [OF lock keys]
      have "l \<noteq> Inl ErrOptimisticLock"
        using locked seen x(1) Inr False by (auto split: sum.splits)
      moreover from this have "r = l" "w' = v"
        using assms(1) read Inr False lock locked seen
        by (auto simp: Deduct_def maxDeductRetries_def eval_nat_numeral split: sum.splits)
      ultimately show ?thesis using locked seen by (auto split: sum.splits)
    qed
  qed
qed

end

section \<open>Sessions side by side\<close>

text \<open>
  What a session that reserves, returns or confirms stock may do to the tables, and any number of
  such steps.
\<close>

definition stock_move :: "tables \<Rightarrow> tables \<Rightarrow> bool" where
  "stock_move d d' \<longleftrightarrow>
     map inv_ProductID (t_inventories d') = map inv_ProductID (t_inventories d) \<and>
     (stock_of d' = stock_of d \<or>
      (\<exists>p q. 0 \<le> q \<and> (reserve p q (stock_of d) = Some (stock_of d')
         \<or> release p q (stock_of d) = Some (stock_of d') \<or> confirm p q (stock_of d) = Some (stock_of d'))))"

abbreviation stock_path :: "tables \<Rightarrow> tables \<Rightarrow> bool" where
  "stock_path \<equiv> stock_move\<^sup>*\<^sup>*"

text \<open>Nothing is negative, and no product has more stock than before.\<close>

definition stock_safe :: "stock \<Rightarrow> stock \<Rightarrow> bool" where
  "stock_safe m m' \<longleftrightarrow> stock_nonneg m' \<and>
     (\<forall>p a' l'. m' p = Some (a', l') \<longrightarrow> (\<exists>a l. m p = Some (a, l) \<and> a' + l' \<le> a + l))"

lemma stock_safe_refl: "stock_nonneg m \<Longrightarrow> stock_safe m m"
  by (simp add: stock_safe_def)

lemma stock_safe_trans:
  assumes "stock_safe m m1" "stock_safe m1 m2"
  shows "stock_safe m m2"
  unfolding stock_safe_def
proof (intro conjI allI impI)
  show "stock_nonneg m2" using assms(2) by (simp add: stock_safe_def)
  fix p a' l' assume "m2 p = Some (a', l')"
  then obtain a1 l1 where one: "m1 p = Some (a1, l1)" "a' + l' \<le> a1 + l1"
    using assms(2) unfolding stock_safe_def by blast
  then obtain a l where "m p = Some (a, l)" "a1 + l1 \<le> a + l"
    using assms(1) unfolding stock_safe_def by blast
  with one show "\<exists>a l. m p = Some (a, l) \<and> a' + l' \<le> a + l" by force
qed

lemma stock_safe_upd:
  assumes "stock_nonneg m" "m p = Some (a, l)" "0 \<le> a'" "0 \<le> l'" "a' + l' \<le> a + l"
  shows "stock_safe m (m(p \<mapsto> (a', l')))"
  using assms by (auto simp: stock_safe_def stock_nonneg_def)

lemma stock_nonnegD: "stock_nonneg m \<Longrightarrow> m p = Some (a, l) \<Longrightarrow> 0 \<le> a \<and> 0 \<le> l"
  by (simp add: stock_nonneg_def)

lemma stock_ops_safe:
  assumes "stock_nonneg m" "0 \<le> q"
  shows "reserve p q m = Some m' \<Longrightarrow> stock_safe m m'"
    and "release p q m = Some m' \<Longrightarrow> stock_safe m m'"
    and "confirm p q m = Some m' \<Longrightarrow> stock_safe m m'"
  using assms stock_nonnegD [OF assms(1), of p]
  by (auto simp: reserve_def release_def confirm_def split: option.splits if_splits
      intro!: stock_safe_upd)

lemma stock_path_keys: "stock_path d d' \<Longrightarrow> inv_keys d \<Longrightarrow> inv_keys d'"
  by (induction rule: rtranclp_induct) (auto simp: stock_move_def inv_keys_def)

lemma stock_path_safe:
  assumes "stock_path d d'" "stock_nonneg (stock_of d)"
  shows "stock_safe (stock_of d) (stock_of d')"
  using assms(1)
proof (induction rule: rtranclp_induct)
  case base
  then show ?case using assms(2) by (rule stock_safe_refl)
next
  case (step d1 d2)
  then have "stock_nonneg (stock_of d1)" by (simp add: stock_safe_def)
  then have "stock_safe (stock_of d1) (stock_of d2)"
    using step.hyps(2) stock_ops_safe stock_safe_refl unfolding stock_move_def by metis
  with step.IH show ?case by (rule stock_safe_trans)
qed

lemma guarded_step_move:
  assumes "guarded_step op refused d d' r" "0 \<le> q"
    and "op = reserve p q \<or> op = release p q \<or> op = confirm p q"
  shows "stock_move d d'"
  using assms by (cases r) (auto simp: guarded_step_def stock_move_def)

lemma deduct_outcome_path:
  assumes "deduct_outcome rely p q d r d'" "0 \<le> q" "\<forall>d'. rely d d' \<longrightarrow> stock_path d d'"
  shows "stock_path d d'"
proof -
  obtain e where "rely d e" "stock_move e d' \<or> d' = e"
    using assms(1,2) guarded_step_move [where q = q and p = p]
    by (cases r) (auto simp: deduct_outcome_def)
  then show ?thesis using assms(3) by (metis rtranclp.rtrancl_into_rtrancl)
qed

text \<open>The operations keep to such steps when the other sessions do.\<close>

context runtime
begin

lemma operations_path:
  assumes "\<forall>d. rely (db w) d \<longrightarrow> stock_path (db w) d" "inv_keys (db w)" "0 \<le> q"
  shows "Deduct (inventories_tbl X) p q w = (r, w') \<Longrightarrow> stock_path (db w) (db w')"
    and "Return (inventories_tbl X) p q w = (r, w') \<Longrightarrow> stock_path (db w) (db w')"
    and "InventoryService_ConfirmDeduction (inventories_tbl X) p q w = (r, w') \<Longrightarrow> stock_path (db w) (db w')"
proof -
  have keys: "keys_stable rely (db w)"
    using assms(1,2) stock_path_keys unfolding keys_stable_def by blast
  show "stock_path (db w) (db w')" if "Deduct (inventories_tbl X) p q w = (r, w')"
    using Deduct_loop_result [OF that [unfolded Deduct_def] keys] deduct_outcome_path assms(1,3) by blast
  show "stock_path (db w) (db w')" if "Return (inventories_tbl X) p q w = (r, w')"
    using ReturnStock_result [OF that [unfolded Return_def] keys] assms(1,3)
      guarded_step_move [where q = q and p = p]
    unfolding guarded_statement_def by (metis rtranclp.rtrancl_into_rtrancl)
  show "stock_path (db w) (db w')" if "InventoryService_ConfirmDeduction (inventories_tbl X) p q w = (r, w')"
    using ConfirmDeduction_result [OF that [unfolded InventoryService_ConfirmDeduction_def] keys] assms(1,3)
      guarded_step_move [where q = q and p = p]
    unfolding guarded_statement_def by (metis rtranclp.rtrancl_into_rtrancl)
qed

end

section \<open>The Redis counters\<close>

lemma stockKey_inject [simp]: "stockKey p = stockKey q \<longleftrightarrow> p = q"
  by (simp add: stockKey_def)

text \<open>What a command leaves of the other services.\<close>

context runtime
begin

text \<open>
  \<^verbatim>\<open>DeductRedis\<close> takes the quantity, or reports a shortage and puts it back, or reports a Redis
  error with nothing taken. If putting it back fails the counter stays too low.
\<close>

lemma DeductRedis_result:
  assumes "DeductRedis X p q w = (r, w')"
  shows "db w' = db w \<and> log w' = log w \<and>
    (case r of
       Inr _ \<Rightarrow> \<exists>c. counter_value (kv w (stockKey p)) = Some c \<and> q \<le> c
         \<and> kv w' = (kv w)(stockKey p \<mapsto> Text (show_int (c - q)))
     | Inl e \<Rightarrow>
         (\<exists>s. e = Errorf ''redis DECRBY failed'' (ErrExternal s)) \<and> kv w' = kv w
         \<or> e = InvErrStockInsufficient \<and> (\<exists>c. counter_value (kv w (stockKey p)) = Some c \<and> c < q
           \<and> (kv w' = (kv w)(stockKey p \<mapsto> Text (show_int c)) \<or> kv w' = (kv w)(stockKey p \<mapsto> Text (show_int (c - q))))))"
proof -
  obtain i u where decr: "rdb_DecrBy X (stockKey p) q w = (i, u)" by fastforce
  note took = rdb.DecrBy_law [OF decr]
  obtain j v where incr: "rdb_IncrBy X (stockKey p) q u = (j, v)" by fastforce
  note restored = rdb.IncrBy_law [OF incr]
  show ?thesis using assms decr incr took restored
    by (cases i; cases j)
      (auto simp: DeductRedis_def Let_def incr_result_def counter_value_def split: if_splits)
qed

lemma RollbackRedis_result:
  "db (RollbackRedis X p q w) = db w \<and> log (RollbackRedis X p q w) = log w \<and>
   (kv (RollbackRedis X p q w) = kv w \<or>
    (\<exists>c. counter_value (kv w (stockKey p)) = Some c
       \<and> kv (RollbackRedis X p q w) = (kv w)(stockKey p \<mapsto> Text (show_int (c + q)))))"
proof -
  obtain i u where incr: "rdb_IncrBy X (stockKey p) q w = (i, u)" by fastforce
  show ?thesis using incr rdb.IncrBy_law [OF incr]
    by (cases i) (auto simp: RollbackRedis_def incr_result_def)
qed

end

section \<open>Setting the stock\<close>

text \<open>The table has a primary key, and no row has the key 0 that Go's zero value stands for.\<close>

definition inv_ids :: "tables \<Rightarrow> bool" where
  "inv_ids d \<longleftrightarrow> distinct (map inv_ID (t_inventories d)) \<and> (\<forall>x\<in>set (t_inventories d). inv_ID x \<noteq> 0)"

lemma stock_of_insert:
  assumes "\<forall>x\<in>set (t_inventories d). inv_ProductID x \<noteq> inv_ProductID y"
  shows "stock_of (d\<lparr>t_inventories := t_inventories d @ [y]\<rparr>)
    = (stock_of d)(inv_ProductID y \<mapsto> (inv_Available y, inv_Locked y))"
proof -
  have "stock_of d (inv_ProductID y) = None" using assms by (simp add: stock_of_None)
  then show ?thesis
    by (intro ext) (auto simp: stock_of_def map_add_def split: option.split)
qed

context quiet_runtime
begin

lemma Save_result:
  "db_Save (inventories_tbl X) row w = (r, w') \<Longrightarrow>
    kv w' = kv w \<and> log w' = log w \<and> (\<exists>rows. db w' = (db w)\<lparr>t_inventories := rows\<rparr>
      \<and> save_result inventory_schema row (t_inventories (db w)) rows r)"
  by (drule inv.Save_law) auto

text \<open>Writing back a row that was read, with other counts, under the same key.\<close>

lemma Save_existing:
  assumes "db_Save (inventories_tbl X) row w = (r, w')" "inv_keys (db w)" "inv_ids (db w)"
    and "x \<in> set (t_inventories (db w))" "inv_ID row = inv_ID x" "inv_ProductID row = inv_ProductID x"
  shows "case r of
      Inr y \<Rightarrow> stock_of (db w') = (stock_of (db w))(inv_ProductID x \<mapsto> (inv_Available row, inv_Locked row))
        \<and> (\<exists>t. y = row\<lparr>inv_UpdatedAt := t\<rparr>)
    | Inl e \<Rightarrow> is_external e \<and> db w' = db w"
proof (cases r)
  case (Inr y)
  then obtain rows t where "db w' = (db w)\<lparr>t_inventories := rows\<rparr>" "y = row\<lparr>inv_UpdatedAt := t\<rparr>"
    and rows: "rows = map (\<lambda>z. if inv_ID z = inv_ID row then y else z) (t_inventories (db w))"
    using Save_result [OF assms(1)] assms(4,5)
    by (auto simp: save_result_def inventory_schema_def split: if_splits)
  let ?f = "\<lambda>z. y\<lparr>inv_ProductID := inv_ProductID z\<rparr>"
  have "rows = map (\<lambda>z. if z = x then ?f z else z) (t_inventories (db w))"
    unfolding rows using assms(3-6) \<open>y = _\<close>
    by (intro map_cong) (auto simp: inv_ids_def distinct_map inj_on_def)
  then have "stock_of (db w') = (stock_of (db w))(inv_ProductID x \<mapsto> (inv_Available (?f x), inv_Locked (?f x)))"
    unfolding \<open>db w' = _\<close> by (simp only:) (rule stock_of_update [OF assms(2,4)]; simp)
  moreover have "inv_Available (?f x) = inv_Available row" "inv_Locked (?f x) = inv_Locked row"
    by (simp_all add: \<open>y = _\<close>)
  ultimately have "stock_of (db w') = (stock_of (db w))(inv_ProductID x \<mapsto> (inv_Available row, inv_Locked row))"
    by (simp only:)
  then show ?thesis using Inr \<open>y = _\<close> by auto
qed (use Save_result [OF assms(1)] assms(4,5) in \<open>auto simp: save_result_def inventory_schema_def split: if_splits\<close>)

end

context quiet_runtime
begin

lemma SetInventory_result:
  assumes "SetInventory (inventories_tbl X) p req w = (Inr y, w')" "inv_keys (db w)" "inv_ids (db w)"
    and "\<forall>x\<in>set (t_inventories (db w)). in_int64 (sir_Total req - inv_Total x)
           \<and> in_int64 (inv_Available x + (sir_Total req - inv_Total x))"
  shows "inv_Total y = sir_Total req \<and>
    stock_of (db w') = (stock_of (db w))(p \<mapsto>
      (case find (\<lambda>x. inv_ProductID x = p) (t_inventories (db w)) of
         None \<Rightarrow> (sir_Total req, 0)
       | Some x \<Rightarrow> (max 0 (inv_Available x + (sir_Total req - inv_Total x)), inv_Locked x)))"
proof -
  let ?rows = "t_inventories (db w)"
  obtain f u where read: "Repository_GetByProductID (inventories_tbl X) p w = (f, u)" by fastforce
  note seen = read_product [OF read]
  show ?thesis
  proof (cases f)
    case (Inl e)
    let ?new = "\<lparr>inv_ID = 0, inv_ProductID = p, inv_Total = sir_Total req, inv_Available = sir_Total req,
      inv_Locked = 0, inv_Version = 0, inv_CreatedAt = 0, inv_UpdatedAt = 0\<rparr>"
    have save: "db_Save (inventories_tbl X) ?new u = (Inr y, w')" and none: "stock_of (db w) p = None"
      using assms(1) read Inl seen by (auto simp: SetInventory_def Upsert_def split: if_splits)
    then have absent: "\<forall>x\<in>set ?rows. inv_ProductID x \<noteq> p" by (simp add: stock_of_None)
    then have "find (\<lambda>x. inv_ProductID x = p) ?rows = None" by (auto simp: find_None_iff)
    moreover obtain i t where "y = ?new\<lparr>inv_ID := i, inv_CreatedAt := t, inv_UpdatedAt := t\<rparr>"
        "db w' = (db w)\<lparr>t_inventories := ?rows @ [y]\<rparr>"
      using Save_result [OF save] assms(3) seen
      by (auto simp: save_result_def create_result_def inventory_schema_def inv_ids_def split: if_splits)
    ultimately show ?thesis using stock_of_insert [of "db w" y] absent by simp
  next
    case (Inr x)
    then have x: "x \<in> set ?rows" "inv_ProductID x = p" using seen by auto
    let ?row = "x\<lparr>inv_Total := sir_Total req,
      inv_Available := max 0 (inv_Available x + (sir_Total req - inv_Total x))\<rparr>"
    have "db_Save (inventories_tbl X) ?row u = (Inr y, w')"
      using assms(1,4) read Inr x by (auto simp: SetInventory_def Upsert_def Let_def max_def split: if_splits)
    from Save_existing [OF this, of x] x seen assms(2,3)
    have "stock_of (db w') = (stock_of (db w))(p \<mapsto> (inv_Available ?row, inv_Locked ?row))"
        "\<exists>t. y = ?row\<lparr>inv_UpdatedAt := t\<rparr>" by simp_all
    moreover have "find (\<lambda>x. inv_ProductID x = p) ?rows = Some x"
      using assms(2) x by (intro find_eq_Some_unique) (simp_all add: inv_keys_def)
    ultimately show ?thesis by auto
  qed
qed

end

section \<open>With services that do not fail\<close>

context reliable_runtime
begin

lemma read_reliable:
  assumes "Repository_GetByProductID (inventories_tbl X) p w = (Inl e, w')"
  shows "e = ErrRecordNotFound"
  using inv.First_reliable assms unfolding Repository_GetByProductID_def by blast

lemma statements_reliable:
  "DeductWithLock (inventories_tbl X) p q v w = (Inl e, w') \<Longrightarrow> e = ErrOptimisticLock"
  "ReturnStock (inventories_tbl X) p q w = (Inl e, w') \<Longrightarrow> e = ErrNoLockedToReturn"
  "Repository_ConfirmDeduction (inventories_tbl X) p q w = (Inl e, w') \<Longrightarrow> e = ErrNoLockedToConfirm"
  using inv.Updates_reliable
  by (fastforce simp: DeductWithLock_def ReturnStock_def Repository_ConfirmDeduction_def
      split: sum.splits prod.splits if_splits)+

lemma Deduct_loop_reliable:
  "Deduct_loop (inventories_tbl X) p q n w = (Inl e, w') \<Longrightarrow> \<not> is_external e"
proof (induction n arbitrary: w)
  case (Suc n)
  obtain f u where read: "Repository_GetByProductID (inventories_tbl X) p w = (f, u)" by fastforce
  show ?case
  proof (cases f)
    case (Inl e')
    moreover have "e' = ErrRecordNotFound" using read_reliable read Inl by blast
    ultimately show ?thesis using Suc.prems read by auto
  next
    case (Inr x)
    obtain l v where lock: "DeductWithLock (inventories_tbl X) p q (inv_Version x) u = (l, v)" by fastforce
    have "l' = ErrOptimisticLock" if "l = Inl l'" for l'
      using statements_reliable(1) lock that by blast
    then show ?thesis
      using Suc lock read Inr by (cases l) (auto split: if_splits)
  qed
qed auto

lemma Deduct_reliable:
  assumes "Deduct (inventories_tbl X) p q w = (r, w')" "inv_keys (db w)"
  shows "kv w' = kv w \<and> log w' = log w \<and>
    (case reserve p q (stock_of (db w)) of
       Some m \<Rightarrow> r = Inr () \<and> stock_of (db w') = m \<and> (\<exists>rows. db w' = (db w)\<lparr>t_inventories := rows\<rparr>)
         \<and> inv_keys (db w')
     | None \<Rightarrow> db w' = db w \<and>
         r = Inl (if stock_of (db w) p = None then InvErrInventoryNotFound else InvErrStockInsufficient))"
proof (cases r)
  case (Inl e)
  then have "\<not> is_external e" using assms(1) Deduct_loop_reliable unfolding Deduct_def by blast
  then show ?thesis using Inl Deduct_quiet [OF assms] by (auto simp: reserve_def)
next
  case (Inr u)
  then show ?thesis using Deduct_quiet [OF assms] assms(2) by (auto simp: guarded_step_def inv_keys_def)
qed

end

section \<open>Properties\<close>

text \<open>C2: no overselling among concurrent sessions. As long as every other session only reserves,
  returns and confirms stock, \<^verbatim>\<open>Deduct\<close>, \<^verbatim>\<open>Return\<close> and \<^verbatim>\<open>ConfirmDeduction\<close>, interrupted
  by them at any statement, leave no count negative, and no product ends up with more available
  plus locked stock than it had.\<close>

theorem concurrent_sessions_never_oversell:
  assumes "runtime db kv log rely num jsonb X" "\<forall>d. rely (db w) d \<longrightarrow> stock_path (db w) d"
    and "inv_keys (db w)" "stock_nonneg (stock_of (db w))" "0 \<le> q"
    and "w' \<in> {snd (Deduct (inventories_tbl X) p q w), snd (Return (inventories_tbl X) p q w),
               snd (InventoryService_ConfirmDeduction (inventories_tbl X) p q w)}"
  shows "stock_nonneg (stock_of (db w')) \<and>
    (\<forall>p a' l'. stock_of (db w') p = Some (a', l') \<longrightarrow>
      (\<exists>a l. stock_of (db w) p = Some (a, l) \<and> a' + l' \<le> a + l))"
proof -
  have "stock_path (db w) (db w')"
    using assms(6) runtime.operations_path [OF assms(1-3,5)] by (metis insertE prod.collapse singletonD)
  from stock_path_safe [OF this assms(4)] show ?thesis by (simp add: stock_safe_def)
qed

text \<open>C17: \<^verbatim>\<open>Deduct\<close> is linearizable. When it succeeds it has reserved the quantity in one step, in a
  state that the other sessions had reached and that had enough stock; when it fails it has left
  the tables as the other sessions made them. Redis and Kafka are not touched.\<close>

theorem deduct_linearizable:
  assumes "runtime db kv log rely num jsonb X" "\<forall>d. rely (db w) d \<longrightarrow> inv_keys d"
    and "Deduct (inventories_tbl X) p q w = (r, w')"
  shows "kv w' = kv w \<and> log w' = log w \<and> (\<exists>d. rely (db w) d \<and>
    (case r of
       Inr _ \<Rightarrow> reserve p q (stock_of d) = Some (stock_of (db w'))
         \<and> (\<exists>rows. db w' = d\<lparr>t_inventories := rows\<rparr>)
     | Inl _ \<Rightarrow> db w' = d))"
  using runtime.Deduct_loop_result [OF assms(1) assms(3) [unfolded Deduct_def]] assms(2)
  by (auto simp: keys_stable_def deduct_outcome_def guarded_step_def split: sum.splits)

text \<open>C15: \<^verbatim>\<open>Deduct\<close> refines \<open>reserve\<close>. Without other sessions it reserves exactly when the product
  has the stock, and otherwise leaves the tables alone and says why: no such product, too little
  stock, or an error of the database.\<close>

theorem deduct_refines_reserve:
  assumes "quiet_runtime db kv log num jsonb X" "inv_keys (db w)"
    and "Deduct (inventories_tbl X) p q w = (r, w')"
  shows "case r of
       Inr _ \<Rightarrow> reserve p q (stock_of (db w)) = Some (stock_of (db w'))
         \<and> (\<exists>rows. db w' = (db w)\<lparr>t_inventories := rows\<rparr>)
     | Inl e \<Rightarrow> db w' = db w \<and>
         (e = InvErrInventoryNotFound \<and> stock_of (db w) p = None
          \<or> e = InvErrStockInsufficient \<and> (\<exists>a l. stock_of (db w) p = Some (a, l) \<and> a < q)
          \<or> is_external e)"
  using quiet_runtime.Deduct_quiet [OF assms(1,3,2)]
  by (auto simp: guarded_step_def split: sum.splits)

text \<open>C16: \<^verbatim>\<open>Return\<close> and \<^verbatim>\<open>ConfirmDeduction\<close> refine \<open>release\<close> and \<open>confirm\<close>: they take
  the step exactly when the product has that much locked stock, and fail without a change
  otherwise.\<close>

theorem return_and_confirm_refine:
  assumes "quiet_runtime db kv log num jsonb X" "inv_keys (db w)"
    and "(call, op, refused) \<in>
      {(Return (inventories_tbl X) p q, release p q, ErrNoLockedToReturn),
       (InventoryService_ConfirmDeduction (inventories_tbl X) p q, confirm p q, ErrNoLockedToConfirm)}"
    and "call w = (r, w')"
  shows "case r of
       Inr _ \<Rightarrow> op (stock_of (db w)) = Some (stock_of (db w')) \<and> (\<exists>rows. db w' = (db w)\<lparr>t_inventories := rows\<rparr>)
     | Inl e \<Rightarrow> db w' = db w \<and> (e = refused \<and> op (stock_of (db w)) = None \<or> is_external e)"
proof -
  note rt = quiet_runtime.axioms [OF assms(1)]
  have "keys_stable (=) (db w)" using assms(2) by simp
  then have "guarded_step op refused (db w) (db w') r"
    using assms(3,4) runtime.ReturnStock_result [OF rt] runtime.ConfirmDeduction_result [OF rt]
    unfolding guarded_statement_def by (auto simp: Return_def InventoryService_ConfirmDeduction_def)
  then show ?thesis by (auto simp: guarded_step_def split: sum.splits)
qed

text \<open>Setting the stock. \<^verbatim>\<open>SetInventory\<close> creates the row of a new product with everything
  available; for an existing one it moves the available count by the difference of the totals, but
  not below zero, and keeps what is locked. Other products are untouched.\<close>

theorem set_inventory_moves_available:
  assumes "quiet_runtime db kv log num jsonb X" "inv_keys (db w)" "inv_ids (db w)"
    and "\<forall>x\<in>set (t_inventories (db w)). in_int64 (n - inv_Total x)
           \<and> in_int64 (inv_Available x + (n - inv_Total x))"
    and "SetInventory (inventories_tbl X) p \<lparr>sir_Total = n\<rparr> w = (Inr y, w')"
  shows "inv_Total y = n \<and>
    stock_of (db w') = (stock_of (db w))(p \<mapsto>
      (case find (\<lambda>x. inv_ProductID x = p) (t_inventories (db w)) of
         None \<Rightarrow> (n, 0)
       | Some x \<Rightarrow> (max 0 (inv_Available x + (n - inv_Total x)), inv_Locked x)))"
  using quiet_runtime.SetInventory_result [OF assms(1,5,2,3)] assms(4)
  unfolding SetInventoryRequest.simps by blast

text \<open>The flash sale's counter. \<^verbatim>\<open>DeductRedis\<close> succeeds only if the counter holds the quantity,
  and takes it; short of stock it puts back what it took, unless that second command fails, and the
  counter stays too low; a Redis error of the first command leaves it alone. Tables and Kafka are
  not touched.\<close>

theorem deduct_redis_outcome:
  assumes "runtime db kv log rely num jsonb X" "DeductRedis X p q w = (r, w')"
  shows "db w' = db w \<and> log w' = log w \<and>
    (case r of
       Inr _ \<Rightarrow> \<exists>c. counter_value (kv w (stockKey p)) = Some c \<and> q \<le> c
         \<and> kv w' = (kv w)(stockKey p \<mapsto> Text (show_int (c - q)))
     | Inl e \<Rightarrow>
         (\<exists>s. e = Errorf ''redis DECRBY failed'' (ErrExternal s)) \<and> kv w' = kv w
         \<or> e = InvErrStockInsufficient \<and> (\<exists>c. counter_value (kv w (stockKey p)) = Some c \<and> c < q
           \<and> (kv w' = (kv w)(stockKey p \<mapsto> Text (show_int c)) \<or> kv w' = (kv w)(stockKey p \<mapsto> Text (show_int (c - q))))))"
  by (rule runtime.DeductRedis_result [OF assms])

section \<open>Interference on the reference store\<close>

text \<open>Another session's purchase of \<open>n\<close> pieces of product \<open>p\<close>, done as \<^verbatim>\<open>DeductWithLock\<close> does it.\<close>

definition other_deduct :: "nat \<times> nat \<Rightarrow> tables \<Rightarrow> tables" where
  "other_deduct = (\<lambda>(p, n) d. d\<lparr>t_inventories := map
     (\<lambda>x. if inv_ProductID x = p \<and> inv_Available x \<ge> int n
          then x\<lparr>inv_Available := inv_Available x - int n, inv_Locked := inv_Locked x + int n,
                 inv_Version := inv_Version x + 1\<rparr> else x) (t_inventories d)\<rparr>)"

abbreviation busy_ext :: "bool \<Rightarrow> (nat \<times> nat) mem ext" where
  "busy_ext flaky \<equiv> mem_ext flaky other_deduct (\<lambda>x. x) (\<lambda>j. j)"

text \<open>A store with one product, 10 pieces available, and a script of what the others do.\<close>

definition demo_row :: Inventory where
  "demo_row = \<lparr>inv_ID = 1, inv_ProductID = 1, inv_Total = 10, inv_Available = 10, inv_Locked = 0,
     inv_Version = 0, inv_CreatedAt = 0, inv_UpdatedAt = 0\<rparr>"

definition demo_stock :: "'o list list \<Rightarrow> 'o mem" where
  "demo_stock others = mem_empty\<lparr>mem_db := \<lparr>t_inventories = [demo_row], t_orders = [], t_payments = [],
     t_products = [], t_outbox = [], t_users = []\<rparr>, mem_others := others\<rparr>"

lemma other_deduct_move: "inv_keys d \<Longrightarrow> stock_move d (other_deduct a d)"
proof -
  obtain p n where a: "a = (p, n)" by fastforce
  let ?P = "\<lambda>x. inv_ProductID x = p \<and> inv_Available x \<ge> int n"
  let ?f = "\<lambda>x. x\<lparr>inv_Available := inv_Available x - int n, inv_Locked := inv_Locked x + int n,
                 inv_Version := inv_Version x + 1\<rparr>"
  assume keys: "inv_keys d"
  have names: "map inv_ProductID (t_inventories (other_deduct a d)) = map inv_ProductID (t_inventories d)"
    by (simp add: a other_deduct_def)
  show ?thesis
  proof (cases "\<exists>x\<in>set (t_inventories d). ?P x")
    case True
    then obtain x where x: "x \<in> set (t_inventories d)" "?P x" by blast
    then have "stock_of (other_deduct a d) = (stock_of d)(p \<mapsto> (inv_Available (?f x), inv_Locked (?f x)))"
      unfolding a other_deduct_def prod.case using keys by (intro stock_of_update [where P = ?P]) auto
    then have "reserve p (int n) (stock_of d) = Some (stock_of (other_deduct a d))"
      using stock_of_row [OF keys x(1)] x(2) by (simp add: reserve_def)
    with names show ?thesis unfolding stock_move_def by (metis of_nat_0_le_iff)
  next
    case False
    then have "t_inventories (other_deduct a d) = t_inventories d"
      by (auto simp: a other_deduct_def intro!: map_if_none)
    with names show ?thesis by (simp add: stock_move_def stock_of_def)
  qed
qed

lemma other_deduct_keys: "inv_keys d \<Longrightarrow> inv_keys (other_deduct a d)"
  using other_deduct_move by (auto simp: stock_move_def inv_keys_def)

lemma other_deducts_path:
  "inv_keys d \<Longrightarrow> stock_path d (fold other_deduct acts d) \<and> inv_keys (fold other_deduct acts d)"
proof (induction acts arbitrary: d)
  case (Cons a acts)
  then show ?case
    using other_deduct_move [of d a] other_deduct_keys [of d a]
    by (auto intro: converse_rtranclp_into_rtranclp)
qed simp

text \<open>The relation the busy store's sessions keep to, from tables with one row per product.\<close>

lemma busy_rely: "inv_keys d \<Longrightarrow> rely_of other_deduct d d' \<Longrightarrow> stock_path d d' \<and> inv_keys d'"
  using other_deducts_path by (auto simp: rely_of_def)

lemma demo_stock_keys:
  "inv_keys (mem_db (demo_stock os))" "inv_ids (mem_db (demo_stock os))"
  "stock_of (mem_db (demo_stock os)) = [1 \<mapsto> (10, 0)]"
  by (simp_all add: demo_stock_def inv_keys_def inv_ids_def stock_of_def demo_row_def)

abbreviation idle_stock :: "unit mem" where
  "idle_stock \<equiv> demo_stock []"

abbreviation busy_stock :: "(nat \<times> nat) list list \<Rightarrow> (nat \<times> nat) mem" where
  "busy_stock \<equiv> demo_stock"

section \<open>What the retries do not cover\<close>

text \<open>Three conflicts are reported as a shortage. When each of the three attempts is overtaken by
  another session's purchase of one piece, \<^verbatim>\<open>Deduct\<close> answers that the stock is insufficient
  although 7 of the 10 pieces are still available.\<close>

theorem deduct_conflicts_reported_as_shortage:
  "case Deduct (inventories_tbl (busy_ext False)) 1 1 (busy_stock [[], [(1, 1)], [], [(1, 1)], [], [(1, 1)]]) of
     (r, w') \<Rightarrow> r = Inl InvErrStockInsufficient \<and> stock_of (mem_db w') 1 = Some (7, 3)"
  by code_simp

text \<open>\<^verbatim>\<open>SetInventory\<close> can undo another session's reservation. It writes back every column of the
  row it read, without the version check of \<^verbatim>\<open>Deduct\<close>: when another session buys 4 pieces in
  between, those 4 are available again, while their buyer believes to hold them.\<close>

theorem set_inventory_loses_reservation:
  "case SetInventory (inventories_tbl (busy_ext False)) 1 \<lparr>sir_Total = 10\<rparr> (busy_stock [[], [(1, 4)]]) of
     (_, w') \<Rightarrow> stock_of (mem_db w') 1 = Some (10, 0)"
  by code_simp

section \<open>Witnesses\<close>

text \<open>Another session buys 3 pieces between the read and the update; the second attempt succeeds.\<close>

theorem deduct_linearizable_witness:
  "\<exists>w'. Deduct (inventories_tbl (busy_ext False)) 1 2 (busy_stock [[], [(1, 3)]]) = (Inr (), w')
    \<and> (\<exists>d. rely_of other_deduct (mem_db (busy_stock [[], [(1, 3)]])) d \<and> reserve 1 2 (stock_of d) = Some (stock_of (mem_db w')))"
proof -
  have "case Deduct (inventories_tbl (busy_ext False)) 1 2 (busy_stock [[], [(1, 3)]]) of
      (r, _) \<Rightarrow> r = Inr ()" by code_simp
  then obtain w' where run: "Deduct (inventories_tbl (busy_ext False)) 1 2 (busy_stock [[], [(1, 3)]]) = (Inr (), w')"
    by (auto split: prod.splits)
  have "\<forall>d. rely_of other_deduct (mem_db (busy_stock [[], [(1, 3)]])) d \<longrightarrow> inv_keys d"
    using busy_rely demo_stock_keys(1) by blast
  from deduct_linearizable [OF mem_runtime this run] run show ?thesis by auto
qed

theorem concurrent_sessions_never_oversell_witness:
  "stock_nonneg (stock_of (mem_db (snd (Deduct (inventories_tbl (busy_ext False)) 1 2 (busy_stock [[], [(1, 3)]])))))"
proof -
  have path: "\<forall>d. rely_of other_deduct (mem_db (busy_stock [[], [(1, 3)]])) d \<longrightarrow>
      stock_path (mem_db (busy_stock [[], [(1, 3)]])) d"
    using busy_rely demo_stock_keys(1) by blast
  have nonneg: "stock_nonneg (stock_of (mem_db (busy_stock [[], [(1, 3)]])))"
    unfolding demo_stock_keys(3) by (simp add: stock_nonneg_def)
  show ?thesis
    using concurrent_sessions_never_oversell [OF mem_runtime path demo_stock_keys(1) nonneg _ insertI1, of 2] by simp
qed

theorem deduct_refines_reserve_witness:
  "\<exists>w'. Deduct (inventories_tbl (demo_ext False)) 1 4 idle_stock = (Inr (), w')
    \<and> stock_of (mem_db w') = [1 \<mapsto> (6, 4)]"
proof -
  have "case Deduct (inventories_tbl (demo_ext False)) 1 4 idle_stock of (r, _) \<Rightarrow> r = Inr ()"
    by code_simp
  then obtain w' where run: "Deduct (inventories_tbl (demo_ext False)) 1 4 idle_stock = (Inr (), w')"
    by (auto split: prod.splits)
  from deduct_refines_reserve [OF demo_quiet demo_stock_keys(1) run]
  have "reserve 1 4 [1 \<mapsto> (10, 0)] = Some (stock_of (mem_db w'))" by (simp add: demo_stock_keys(3))
  with run show ?thesis by (simp add: reserve_def)
qed

text \<open>Nothing is locked: the return is refused.\<close>

theorem return_and_confirm_refine_witness:
  "\<exists>w'. Return (inventories_tbl (demo_ext False)) 1 4 idle_stock = (Inl ErrNoLockedToReturn, w')
    \<and> mem_db w' = mem_db idle_stock"
proof -
  have "case Return (inventories_tbl (demo_ext False)) 1 4 idle_stock of (r, _) \<Rightarrow> r = Inl ErrNoLockedToReturn"
    by code_simp
  then obtain w' where run: "Return (inventories_tbl (demo_ext False)) 1 4 idle_stock = (Inl ErrNoLockedToReturn, w')"
    by (auto split: prod.splits)
  from return_and_confirm_refine [OF demo_quiet demo_stock_keys(1) insertI1 run] run show ?thesis by simp
qed

theorem set_inventory_moves_available_witness:
  "\<exists>y w'. SetInventory (inventories_tbl (demo_ext False)) 1 \<lparr>sir_Total = 4\<rparr> idle_stock = (Inr y, w')
    \<and> stock_of (mem_db w') = [1 \<mapsto> (4, 0)]"
proof -
  have "case SetInventory (inventories_tbl (demo_ext False)) 1 \<lparr>sir_Total = 4\<rparr> idle_stock of
      (Inr _, _) \<Rightarrow> True | _ \<Rightarrow> False" by code_simp
  then obtain y w' where run: "SetInventory (inventories_tbl (demo_ext False)) 1 \<lparr>sir_Total = 4\<rparr> idle_stock = (Inr y, w')"
    by (auto split: prod.splits sum.splits)
  have "\<forall>x\<in>set (t_inventories (mem_db idle_stock)). in_int64 (4 - inv_Total x)
      \<and> in_int64 (inv_Available x + (4 - inv_Total x))"
    by (simp add: demo_stock_def demo_row_def in_int64_def)
  from set_inventory_moves_available [OF demo_quiet demo_stock_keys(1,2) this run] run
  show ?thesis by (simp add: demo_stock_keys(3)) (simp add: demo_stock_def demo_row_def)
qed

text \<open>The counter holds 3, 5 are asked for, and the command that puts them back fails.\<close>

theorem deduct_redis_outcome_witness:
  "\<exists>w'. DeductRedis (demo_ext True) 1 5 (idle_stock\<lparr>mem_kv := [stockKey 1 \<mapsto> Text ''3''], mem_faults := [False, True]\<rparr>)
      = (Inl InvErrStockInsufficient, w')
    \<and> (mem_kv w' (stockKey 1) = Some (Text ''3'') \<or> mem_kv w' (stockKey 1) = Some (Text ''-2''))
    \<and> mem_db w' = mem_db idle_stock"
proof -
  let ?w = "idle_stock\<lparr>mem_kv := [stockKey 1 \<mapsto> Text ''3''], mem_faults := [False, True]\<rparr>"
  have "case DeductRedis (demo_ext True) 1 5 ?w of (r, _) \<Rightarrow> r = Inl InvErrStockInsufficient"
    by code_simp
  then obtain w' where run: "DeductRedis (demo_ext True) 1 5 ?w = (Inl InvErrStockInsufficient, w')"
    by (auto split: prod.splits)
  have "counter_value (Some (Text ''3'')) = Some 3" "show_int 3 = ''3''" "show_int (3 - 5) = ''-2''" by code_simp+
  with deduct_redis_outcome [OF mem_runtime run] run show ?thesis by auto
qed

end
