(* ===== verification/Keys.thy ===== *)
theory Keys
  imports Inventory
begin

text \<open>
  The Redis keys of the order flow, which the Go code formats where it uses them: the
  idempotency key that lets a user buy a product once (seckill_service.go, service.go,
  event_handler.go of the inventory), and the key under which the result of an order is polled.
  The lemmas in \<open>key_simps\<close> say that keys of different purposes never coincide.
\<close>

definition idempotencyKey :: "nat \<Rightarrow> nat \<Rightarrow> string" where
  "idempotencyKey userID productID = ''seckill:lock:'' @ show_nat userID @ '':'' @ show_nat productID"

definition resultKey :: "string \<Rightarrow> string" where
  "resultKey orderNo = ''seckill:result:'' @ orderNo"

lemma idempotencyKey_inject [simp, key_simps]:
  "idempotencyKey u p = idempotencyKey u' p' \<longleftrightarrow> u = u' \<and> p = p'"
proof
  assume "idempotencyKey u p = idempotencyKey u' p'"
  then have "show_nat u @ CHR '':'' # show_nat p = show_nat u' @ CHR '':'' # show_nat p'"
    by (simp add: idempotencyKey_def)
  from split_at_separator [OF show_nat_digits show_nat_digits not_digit_colon this]
  show "u = u' \<and> p = p'" by simp
qed simp

lemma resultKey_inject [simp, key_simps]: "resultKey n = resultKey n' \<longleftrightarrow> n = n'"
  by (simp add: resultKey_def)

lemma keys_differ [simp, key_simps]:
  "idempotencyKey u p \<noteq> stockKey q" "stockKey q \<noteq> idempotencyKey u p"
  "resultKey n \<noteq> stockKey q" "stockKey q \<noteq> resultKey n"
  "idempotencyKey u p \<noteq> resultKey n" "resultKey n \<noteq> idempotencyKey u p"
  by (simp_all add: idempotencyKey_def resultKey_def stockKey_def stockKeyPrefix_def)

end
