(* ===== verification/Kafka.thy ===== *)
theory Kafka
  imports Reference_Store
begin

text \<open>
  \<^verbatim>\<open>pkg/kafka\<close>: the wrappers around sarama's synchronous producer and consumer group. The
  interface \<^verbatim>\<open>TopicProducer\<close> of the outbox relay is the locale \<open>topic_producer\<close>; the
  wrapper provides it.
\<close>

section \<open>producer.go\<close>

record Producer =
  kp_topic :: string

definition SendMessage :: "'w ext \<Rightarrow> Producer \<Rightarrow> string \<Rightarrow> json \<Rightarrow> 'w \<Rightarrow> (go_error + unit) \<times> 'w" where
  "SendMessage X p key val w = kafka_SendMessage X (kp_topic p) key val w"

definition SendMessageToTopic :: "'w ext \<Rightarrow> string \<Rightarrow> string \<Rightarrow> json \<Rightarrow> 'w \<Rightarrow> (go_error + unit) \<times> 'w" where
  "SendMessageToTopic X topic key val w = kafka_SendMessage X topic key val w"

section \<open>consumer.go\<close>

text \<open>
  \<^verbatim>\<open>ConsumeClaim\<close> over the messages of a claim: the handler's error is logged, and the
  message is marked either way. The result is the list of marked messages.
\<close>

fun ConsumeClaim ::
    "('k \<Rightarrow> 'v \<Rightarrow> 'w \<Rightarrow> (go_error + unit) \<times> 'w) \<Rightarrow> ('k \<times> 'v) list \<Rightarrow> 'w \<Rightarrow> ('k \<times> 'v) list \<times> 'w" where
  "ConsumeClaim handler [] w = ([], w)"
| "ConsumeClaim handler (msg # msgs) w =
     (case handler (fst msg) (snd msg) w of
        (_, w1) \<Rightarrow>
          (case ConsumeClaim handler msgs w1 of (marked, w2) \<Rightarrow> (msg # marked, w2)))"

lemma ConsumeClaim_append:
  "ConsumeClaim handler (xs @ ys) w =
     (case ConsumeClaim handler xs w of (m, w1) \<Rightarrow>
        (case ConsumeClaim handler ys w1 of (m', w2) \<Rightarrow> (m @ m', w2)))"
  by (induction xs arbitrary: w) (auto split: prod.splits)

lemma ConsumeClaim_marks: "fst (ConsumeClaim handler msgs w) = msgs"
proof (induction msgs arbitrary: w)
  case (Cons msg msgs)
  then show ?case by (simp split: prod.split) (metis fst_conv)
qed simp

section \<open>The interface of the relay\<close>

locale topic_producer =
  fixes rest :: "'w \<Rightarrow> 'r"
    and log :: "'w \<Rightarrow> message list"
    and send :: "string \<Rightarrow> string \<Rightarrow> json \<Rightarrow> 'w \<Rightarrow> (go_error + unit) \<times> 'w"
  assumes send_law: "send topic key val w = (ur, w') \<Longrightarrow>
      rest w' = rest w \<and>
      (case ur of Inr _ \<Rightarrow> log w' = log w @ [(topic, key, val)]
       | Inl e \<Rightarrow> log w' = log w \<or> log w' = log w @ [(topic, key, val)])"

begin

lemma send_rest: "send topic key val w = (ur, w') \<Longrightarrow> rest w' = rest w"
  by (drule send_law) simp

lemma send_ok: "send topic key val w = (Inr u, w') \<Longrightarrow> log w' = log w @ [(topic, key, val)]"
  by (drule send_law) simp

lemma send_log: "send topic key val w = (ur, w') \<Longrightarrow> log w' = log w \<or> log w' = log w @ [(topic, key, val)]"
  by (drule send_law) (auto split: sum.splits)

end

locale accepting_producer = topic_producer +
  assumes send_accepts: "send topic key val w = (ur, w') \<Longrightarrow> ur = Inr ()"

sublocale kafka_producer \<subseteq> producer: topic_producer rest log "SendMessageToTopic X"
  by unfold_locales
    (drule SendMessage_law [folded SendMessageToTopic_def], auto split: sum.splits)

sublocale reliable_kafka \<subseteq> producer: accepting_producer rest log "SendMessageToTopic X"
  by unfold_locales (rule SendMessage_reliable [folded SendMessageToTopic_def])

interpretation mem_producer: topic_producer "\<lambda>w. (mem_db w, mem_kv w)" mem_log
    "SendMessageToTopic (mem_ext flaky run num jsonb)" for flaky run num jsonb
  by unfold_locales
    (auto simp: SendMessageToTopic_def mem_ext_def mem_send_def Let_def split: if_splits)

interpretation mem_accepting: accepting_producer "\<lambda>w. (mem_db w, mem_kv w)" mem_log
    "SendMessageToTopic (mem_ext False run num jsonb)" for run num jsonb
  by unfold_locales (auto simp: SendMessageToTopic_def mem_ext_def mem_send_def Let_def)

end
