(* ===== verification/Outbox.thy ===== *)
theory Outbox
  imports Kafka Event
begin

text \<open>
  \<^verbatim>\<open>pkg/outbox\<close>: \<^verbatim>\<open>WriteEvent\<close>, which stores an event in the transaction of the change
  it announces, and one round of the relay, \<^verbatim>\<open>publishBatch\<close>, which sends the unsent events
  and marks the ones that were accepted. \<^verbatim>\<open>Start\<close> repeats rounds on a ticker until its context
  is cancelled: what its \<^verbatim>\<open>select\<close> receives, one after the other, is a list.
\<close>

section \<open>model.go\<close>

definition WriteEvent ::
    "('w, OutboxEvent) table_api \<Rightarrow> string \<Rightarrow> string \<Rightarrow> string \<Rightarrow> string \<Rightarrow> payload \<Rightarrow> 'w \<Rightarrow>
      (go_error + unit) \<times> 'w" where
  "WriteEvent tx aggregateType aggregateID eventType topic payload w =
     (case json_Marshal payload of
        Inl err \<Rightarrow> (Inl err, w)
      | Inr data \<Rightarrow>
          (case db_Create tx
                  \<lparr>ob_ID = 0, ob_AggregateType = aggregateType, ob_AggregateID = aggregateID,
                   ob_EventType = eventType, ob_Topic = topic, ob_Payload = data, ob_Sent = False,
                   ob_CreatedAt = 0, ob_SentAt = None\<rparr> w of
             (Inl err, w1) \<Rightarrow> (Inl err, w1)
           | (Inr _, w1) \<Rightarrow> (Inr (), w1)))"

section \<open>relay.go\<close>

text \<open>The loop of \<^verbatim>\<open>publishBatch\<close> over the events it read.\<close>

fun publishEvents ::
    "'w ext \<Rightarrow> (string \<Rightarrow> string \<Rightarrow> json \<Rightarrow> 'w \<Rightarrow> (go_error + unit) \<times> 'w) \<Rightarrow> OutboxEvent list \<Rightarrow> 'w \<Rightarrow> 'w" where
  "publishEvents X send [] w = w"
| "publishEvents X send (evt # evts) w =
     (case send (ob_Topic evt) (ob_AggregateID evt) (ob_Payload evt) w of
        (Inl _, w1) \<Rightarrow> publishEvents X send evts w1
      | (Inr _, w1) \<Rightarrow>
          (case time_Now X w1 of
             (now, w2) \<Rightarrow>
               (case db_Updates (outbox_tbl X) (\<lambda>x. ob_ID x = ob_ID evt)
                       (\<lambda>x. x\<lparr>ob_Sent := True, ob_SentAt := Some now\<rparr>) w2 of
                  (_, w3) \<Rightarrow> publishEvents X send evts w3)))"

definition publishBatch ::
    "'w ext \<Rightarrow> (string \<Rightarrow> string \<Rightarrow> json \<Rightarrow> 'w \<Rightarrow> (go_error + unit) \<times> 'w) \<Rightarrow> 'w \<Rightarrow> 'w" where
  "publishBatch X send w =
     (case db_Find (outbox_tbl X) (\<lambda>x. \<not> ob_Sent x) ob_CreatedAt 0 100 w of
        (Inl _, w1) \<Rightarrow> w1
      | (Inr events, w1) \<Rightarrow> publishEvents X send events w1)"

record Relay =
  rl_interval :: int

definition NewRelay :: "int \<Rightarrow> Relay" where
  "NewRelay interval = \<lparr>rl_interval = interval\<rparr>"

datatype selected = Ticked | Cancelled

text \<open>The world after the list, and whether the loop has returned.\<close>

fun Relay_Start ::
    "'w ext \<Rightarrow> (string \<Rightarrow> string \<Rightarrow> json \<Rightarrow> 'w \<Rightarrow> (go_error + unit) \<times> 'w) \<Rightarrow> selected list \<Rightarrow> 'w \<Rightarrow> 'w \<times> bool" where
  "Relay_Start X send [] w = (w, False)"
| "Relay_Start X send (Cancelled # ss) w = (w, True)"
| "Relay_Start X send (Ticked # ss) w = Relay_Start X send ss (publishBatch X send w)"

lemma Relay_Start_rounds:
  "Relay_Start X send ss w =
     ((publishBatch X send ^^ length (takeWhile (\<lambda>s. s = Ticked) ss)) w, Cancelled \<in> set ss)"
  by (induction X send ss w rule: Relay_Start.induct) (auto simp: funpow_swap1)

section \<open>What a written event is\<close>

definition event_message :: "OutboxEvent \<Rightarrow> message" where
  "event_message e = (ob_Topic e, ob_AggregateID e, ob_Payload e)"

text \<open>The row \<^verbatim>\<open>WriteEvent\<close> leaves in the table.\<close>

definition is_event_row :: "(json \<Rightarrow> json) \<Rightarrow> string \<Rightarrow> string \<Rightarrow> string \<Rightarrow> string \<Rightarrow> payload \<Rightarrow> OutboxEvent \<Rightarrow> bool" where
  "is_event_row jsonb agg no typ topic p x \<longleftrightarrow>
     ob_AggregateType x = agg \<and> ob_AggregateID x = no \<and> ob_EventType x = typ \<and> ob_Topic x = topic
     \<and> (\<exists>j. json_Marshal p = Inr j \<and> ob_Payload x = jsonb j) \<and> \<not> ob_Sent x"

definition mark_sent :: "time \<Rightarrow> OutboxEvent \<Rightarrow> OutboxEvent" where
  "mark_sent t x = x\<lparr>ob_Sent := True, ob_SentAt := Some t\<rparr>"

lemma mark_sent_simps [simp]:
  "ob_ID (mark_sent t x) = ob_ID x" "ob_Sent (mark_sent t x)" "mark_sent t (mark_sent u x) = mark_sent t x"
  "event_message (mark_sent t x) = event_message x"
  by (simp_all add: mark_sent_def event_message_def)

lemma carries_stored:
  assumes "is_event_row jsonb agg no typ topic p x" "payload_ok p" "jsonb_faithful jsonb"
  shows "carries (ob_Payload x) p"
proof -
  obtain j where j: "json_Marshal p = Inr j" "ob_Payload x = jsonb j" using assms(1) by (auto simp: is_event_row_def)
  with jsonb_Unmarshal [OF assms(3) j(1)] Unmarshal_Marshal [OF assms(2) j(1)] Unmarshal_base [OF j(1)]
  show ?thesis by (simp add: carries_def)
qed

context quiet_runtime
begin

text \<open>\<^verbatim>\<open>WriteEvent\<close> adds one unsent row or none at all.\<close>

lemma WriteEvent_result:
  assumes "WriteEvent (outbox_tbl X) agg no typ topic p w = (r, w')"
  shows "kv w' = kv w \<and> log w' = log w \<and>
    (case r of
       Inr _ \<Rightarrow> \<exists>x. db w' = (db w)\<lparr>t_outbox := t_outbox (db w) @ [x]\<rparr> \<and> is_event_row jsonb agg no typ topic p x
     | Inl e \<Rightarrow> db w' = db w)"
proof (cases r)
  case (Inl e)
  then show ?thesis using assms
    by (auto simp: WriteEvent_def create_result_def split: sum.splits prod.splits dest!: ob_Create)
next
  case (Inr u)
  let ?row = "\<lambda>j. \<lparr>ob_ID = 0, ob_AggregateType = agg, ob_AggregateID = no, ob_EventType = typ,
    ob_Topic = topic, ob_Payload = j, ob_Sent = False, ob_CreatedAt = 0, ob_SentAt = None\<rparr>"
  obtain j x where "json_Marshal p = Inr j" "db_Create (outbox_tbl X) (?row j) w = (Inr x, w')"
    using assms Inr by (auto simp: WriteEvent_def split: sum.splits prod.splits)
  with ob_Create [OF this(2)] obtain i t where
    "kv w' = kv w" "log w' = log w"
    "db w' = (db w)\<lparr>t_outbox := t_outbox (db w) @ [(?row (jsonb j))\<lparr>ob_ID := i, ob_CreatedAt := t\<rparr>]\<rparr>"
    by (auto simp: create_result_def outbox_schema_def)
  moreover have "is_event_row jsonb agg no typ topic p ((?row (jsonb j))\<lparr>ob_ID := i, ob_CreatedAt := t\<rparr>)"
    using \<open>json_Marshal p = Inr j\<close> by (simp add: is_event_row_def)
  ultimately show ?thesis unfolding Inr by (simp only: sum.case) blast
qed

lemma mark_Updates:
  assumes "db_Updates (outbox_tbl X) (\<lambda>x. ob_ID x = i)
             (\<lambda>x. x\<lparr>ob_Sent := True, ob_SentAt := Some t\<rparr>) w = (r, w')"
  shows "kv w' = kv w \<and> log w' = log w \<and>
    db w' = (case r of
        Inr _ \<Rightarrow> (db w)\<lparr>t_outbox := map (\<lambda>x. if ob_ID x = i then mark_sent t x else x) (t_outbox (db w))\<rparr>
      | Inl _ \<Rightarrow> db w)"
  using ob_Updates [OF assms]
  by (auto simp: update_result_def outbox_schema_def mark_sent_def split: sum.splits)

end

section \<open>A round of the relay\<close>

text \<open>The rows after a loop that marked the events with identifiers in \<open>I\<close>.\<close>

definition marked_rows :: "nat set \<Rightarrow> OutboxEvent list \<Rightarrow> OutboxEvent list \<Rightarrow> bool" where
  "marked_rows I = list_all2 (\<lambda>x y. if ob_ID x \<in> I then \<exists>t. y = mark_sent t x else y = x)"

lemma marked_rows_refl [simp]: "marked_rows {} rows rows"
  by (simp add: marked_rows_def list.rel_refl)

lemma marked_rows_step:
  "marked_rows I (map (\<lambda>x. if ob_ID x = i then mark_sent t x else x) rows) rows' \<Longrightarrow>
    marked_rows (insert i I) rows rows'"
  unfolding marked_rows_def list.rel_map
  by (erule list.rel_mono_strong) (auto split: if_splits)

context quiet_runtime
begin

text \<open>
  The loop against any producer that keeps the interface's promises: it marks only events whose
  message is in the log, and writes nothing else.
\<close>

lemma publishEvents_result:
  assumes "topic_producer (\<lambda>w. (db w, kv w)) log send"
  shows "\<exists>ok new. set ok \<subseteq> set evts \<and> event_message ` set ok \<subseteq> set new
    \<and> set new \<subseteq> event_message ` set evts
    \<and> kv (publishEvents X send evts w) = kv w \<and> log (publishEvents X send evts w) = log w @ new
    \<and> (\<exists>rows. db (publishEvents X send evts w) = (db w)\<lparr>t_outbox := rows\<rparr>
         \<and> marked_rows (ob_ID ` set ok) (t_outbox (db w)) rows)"
proof (induction evts arbitrary: w)
  case Nil
  show ?case by (rule exI [of _ "[]"], rule exI [of _ "[]"]) (auto intro: exI [of _ "t_outbox (db w)"])
next
  case (Cons evt evts)
  obtain r u where send: "send (ob_Topic evt) (ob_AggregateID evt) (ob_Payload evt) w = (r, u)"
    by fastforce
  note sent = topic_producer.send_rest [OF assms send] topic_producer.send_log [OF assms send]
  show ?case
  proof (cases r)
    case (Inl e)
    obtain ok new rows where IH: "set ok \<subseteq> set evts" "event_message ` set ok \<subseteq> set new"
        "set new \<subseteq> event_message ` set evts" "kv (publishEvents X send evts u) = kv u"
        "log (publishEvents X send evts u) = log u @ new"
        "db (publishEvents X send evts u) = (db u)\<lparr>t_outbox := rows\<rparr>"
        "marked_rows (ob_ID ` set ok) (t_outbox (db u)) rows"
      using Cons.IH [of u] by blast
    obtain pre where pre: "log u = log w @ pre" "set pre \<subseteq> {event_message evt}"
      using sent(2) by (cases "log u = log w") (force simp: event_message_def)+
    show ?thesis
      using send Inl IH sent(1) pre
      by (intro exI [of _ ok] exI [of _ "pre @ new"]) auto
  next
    case (Inr one)
    obtain now v where now: "time_Now X u = (now, v)" by fastforce
    obtain r' v' where upd: "db_Updates (outbox_tbl X) (\<lambda>x. ob_ID x = ob_ID evt)
        (\<lambda>x. x\<lparr>ob_Sent := True, ob_SentAt := Some now\<rparr>) v = (r', v')" by fastforce
    note marked = mark_Updates [OF upd]
    have v: "db v = db w" "kv v = kv w" "log v = log w @ [event_message evt]"
      using inp.Now_law [OF now] sent(1) topic_producer.send_ok [OF assms send [unfolded Inr]]
      by (simp_all add: event_message_def)
    obtain ok new rows where IH: "set ok \<subseteq> set evts" "event_message ` set ok \<subseteq> set new"
        "set new \<subseteq> event_message ` set evts" "kv (publishEvents X send evts v') = kv v'"
        "log (publishEvents X send evts v') = log v' @ new"
        "db (publishEvents X send evts v') = (db v')\<lparr>t_outbox := rows\<rparr>"
        "marked_rows (ob_ID ` set ok) (t_outbox (db v')) rows"
      using Cons.IH [of v'] by blast
    have pub: "publishEvents X send (evt # evts) w = publishEvents X send evts v'"
      using send Inr now upd by simp
    show ?thesis
    proof (cases r')
      case (Inl e)
      then have "db v' = db w" using marked v by (simp split: sum.splits)
      then show ?thesis unfolding pub using IH marked v
        by (intro exI [of _ ok] exI [of _ "event_message evt # new"]) auto
    next
      case (Inr n)
      have "marked_rows (insert (ob_ID evt) (ob_ID ` set ok)) (t_outbox (db w)) rows"
        by (rule marked_rows_step [of _ _ now]) (use IH(7) marked v Inr in simp)
      then show ?thesis unfolding pub using IH marked v Inr
        by (intro exI [of _ "evt # ok"] exI [of _ "event_message evt # new"]) 
          (auto intro!: exI [of _ rows])
    qed
  qed
qed

end

text \<open>What a round may do to a row, when \<open>M\<close> are the messages it sent.\<close>

definition relayed :: "message set \<Rightarrow> OutboxEvent \<Rightarrow> OutboxEvent \<Rightarrow> bool" where
  "relayed M x y \<longleftrightarrow> y = x \<or> \<not> ob_Sent x \<and> event_message x \<in> M \<and> (\<exists>t. y = mark_sent t x)"

lemma take_subset: "mset ys = mset xs \<Longrightarrow> set (take n ys) \<subseteq> set xs"
  by (metis set_mset_mset set_take_subset)

lemma same_ID:
  "distinct (map ob_ID rows) \<Longrightarrow> x \<in> set rows \<Longrightarrow> y \<in> set rows \<Longrightarrow> ob_ID x = ob_ID y \<Longrightarrow> x = y"
  by (simp add: distinct_map inj_on_def)

context quiet_runtime
begin

lemma publishBatch_result:
  assumes send: "topic_producer (\<lambda>w. (db w, kv w)) log send"
    and ids: "distinct (map ob_ID (t_outbox (db w)))"
  shows "\<exists>new rows. log (publishBatch X send w) = log w @ new
    \<and> set new \<subseteq> event_message ` {x \<in> set (t_outbox (db w)). \<not> ob_Sent x}
    \<and> kv (publishBatch X send w) = kv w
    \<and> db (publishBatch X send w) = (db w)\<lparr>t_outbox := rows\<rparr>
    \<and> list_all2 (relayed (set new)) (t_outbox (db w)) rows"
proof -
  let ?rows = "t_outbox (db w)"
  obtain r u where find: "db_Find (outbox_tbl X) (\<lambda>x. \<not> ob_Sent x) ob_CreatedAt 0 100 w = (r, u)"
    by fastforce
  note found = ob.Find_law [OF find]
  show ?thesis
  proof (cases r)
    case (Inl e)
    then show ?thesis using find found
      by (auto simp: publishBatch_def relayed_def list.rel_refl intro!: exI [of _ "[]"] exI [of _ ?rows])
  next
    case (Inr evts)
    have evts: "set evts \<subseteq> {x \<in> set ?rows. \<not> ob_Sent x}"
      using found Inr by (auto simp: find_result_def simp del: mset_filter dest!: take_subset [THEN subsetD])
    obtain ok new rows where pub: "set ok \<subseteq> set evts" "event_message ` set ok \<subseteq> set new"
        "set new \<subseteq> event_message ` set evts" "kv (publishEvents X send evts u) = kv u"
        "log (publishEvents X send evts u) = log u @ new"
        "db (publishEvents X send evts u) = (db u)\<lparr>t_outbox := rows\<rparr>"
        "marked_rows (ob_ID ` set ok) (t_outbox (db u)) rows"
      using publishEvents_result [OF send, of evts u] by blast
    have "list_all2 (relayed (set new)) ?rows rows"
    proof (rule list.rel_mono_strong)
      show "list_all2 (\<lambda>x y. if ob_ID x \<in> ob_ID ` set ok then \<exists>t. y = mark_sent t x else y = x) ?rows rows"
        using pub(7) found by (simp add: marked_rows_def)
      fix x y assume x: "x \<in> set ?rows"
        and y: "if ob_ID x \<in> ob_ID ` set ok then \<exists>t. y = mark_sent t x else y = x"
      show "relayed (set new) x y"
      proof (cases "ob_ID x \<in> ob_ID ` set ok")
        case True
        then obtain e where e: "e \<in> set ok" "ob_ID e = ob_ID x" by auto
        then have "x = e" using same_ID [OF ids, of e x] x evts pub(1) by auto
        then show ?thesis using e y True evts pub(1,2) by (auto simp: relayed_def)
      qed (use y in \<open>simp add: relayed_def\<close>)
    qed
    moreover have "set new \<subseteq> event_message ` {x \<in> set ?rows. \<not> ob_Sent x}"
      using pub(3) evts by (meson image_mono order_trans)
    ultimately show ?thesis using Inr find found pub
      by (intro exI [of _ new] exI [of _ rows]) (simp add: publishBatch_def)
  qed
qed

lemmas relay_round = publishBatch_result [OF kafka.producer.topic_producer_axioms, unfolded relayed_def mark_sent_def]

end

section \<open>With services that do not fail\<close>

context reliable_runtime
begin

lemma mark_Updates_ok:
  assumes "db_Updates (outbox_tbl X) (\<lambda>x. ob_ID x = i)
             (\<lambda>x. x\<lparr>ob_Sent := True, ob_SentAt := Some t\<rparr>) w = (r, w')"
  shows "kv w' = kv w" "log w' = log w"
    "db w' = (db w)\<lparr>t_outbox := map (\<lambda>x. if ob_ID x = i then mark_sent t x else x) (t_outbox (db w))\<rparr>"
  using mark_Updates [OF assms] ob.Updates_reliable [OF assms] by auto

lemma publishEvents_accepted:
  assumes "accepting_producer (\<lambda>w. (db w, kv w)) log send"
  shows "kv (publishEvents X send evts w) = kv w
    \<and> log (publishEvents X send evts w) = log w @ map event_message evts
    \<and> (\<exists>rows. db (publishEvents X send evts w) = (db w)\<lparr>t_outbox := rows\<rparr>
         \<and> marked_rows (ob_ID ` set evts) (t_outbox (db w)) rows)"
proof (induction evts arbitrary: w)
  case Nil
  show ?case by (auto intro: exI [of _ "t_outbox (db w)"])
next
  case (Cons evt evts)
  have prod: "topic_producer (\<lambda>w. (db w, kv w)) log send"
    using assms by (simp add: accepting_producer_def)
  obtain u where send: "send (ob_Topic evt) (ob_AggregateID evt) (ob_Payload evt) w = (Inr (), u)"
    using accepting_producer.send_accepts [OF assms] by (metis old.prod.exhaust)
  obtain now v where now: "time_Now X u = (now, v)" by fastforce
  obtain r v' where upd: "db_Updates (outbox_tbl X) (\<lambda>x. ob_ID x = ob_ID evt)
      (\<lambda>x. x\<lparr>ob_Sent := True, ob_SentAt := Some now\<rparr>) v = (r, v')" by fastforce
  note marked = mark_Updates_ok [OF upd]
  have v: "db v = db w" "kv v = kv w" "log v = log w @ [event_message evt]"
    using inp.Now_law [OF now] topic_producer.send_rest [OF prod send] topic_producer.send_ok [OF prod send]
    by (simp_all add: event_message_def)
  obtain rows where rows: "db (publishEvents X send evts v') = (db v')\<lparr>t_outbox := rows\<rparr>"
      "marked_rows (ob_ID ` set evts) (t_outbox (db v')) rows"
    using Cons.IH [of v'] by blast
  have "marked_rows (insert (ob_ID evt) (ob_ID ` set evts)) (t_outbox (db w)) rows"
    by (rule marked_rows_step [of _ _ now]) (use rows(2) marked v in simp)
  then show ?case using Cons.IH [of v'] rows(1) send now upd marked v by auto
qed

lemma publishBatch_accepted:
  assumes send: "accepting_producer (\<lambda>w. (db w, kv w)) log send"
  shows "\<exists>ys rows. mset ys = mset (filter (\<lambda>x. \<not> ob_Sent x) (t_outbox (db w))) \<and> sorted (map ob_CreatedAt ys)
    \<and> log (publishBatch X send w) = log w @ map event_message (take 100 ys)
    \<and> kv (publishBatch X send w) = kv w
    \<and> db (publishBatch X send w) = (db w)\<lparr>t_outbox := rows\<rparr>
    \<and> marked_rows (ob_ID ` set (take 100 ys)) (t_outbox (db w)) rows"
proof -
  obtain r u where find: "db_Find (outbox_tbl X) (\<lambda>x. \<not> ob_Sent x) ob_CreatedAt 0 100 w = (r, u)"
    by fastforce
  moreover obtain evts where "r = Inr evts" using ob.Find_reliable [OF find] by blast
  ultimately show ?thesis
    using ob.Find_law [OF find] publishEvents_accepted [OF send, of evts u]
    by (auto simp: find_result_def publishBatch_def)
qed

lemmas relay_round_accepted = publishBatch_accepted [OF kafka.producer.accepting_producer_axioms]

end

text \<open>How many unsent rows are left after the first hundred are marked.\<close>

lemma unsent_after:
  assumes ids: "distinct (map ob_ID rows)" and ys: "mset ys = mset (filter (\<lambda>x. \<not> ob_Sent x) rows)"
    and "marked_rows (ob_ID ` set (take n ys)) rows rows'"
  shows "length (filter (\<lambda>x. \<not> ob_Sent x) rows') = length (filter (\<lambda>x. \<not> ob_Sent x) rows) - n"
    and "map ob_ID rows' = map ob_ID rows"
proof -
  let ?U = "\<lambda>x. \<not> ob_Sent x" and ?I = "ob_ID ` set (take n ys)"
  have all: "list_all2 (\<lambda>x y. ob_ID y = ob_ID x \<and> (?U y \<longleftrightarrow> ?U x \<and> ob_ID x \<notin> ?I)) rows rows'"
    using assms(3) unfolding marked_rows_def by (rule list.rel_mono_strong) (auto split: if_splits)
  show "map ob_ID rows' = map ob_ID rows"
    using all by (auto simp: list_all2_conv_all_nth intro!: nth_equalityI)
  have "length (filter ?U rows') = length (filter (\<lambda>x. ?U x \<and> ob_ID x \<notin> ?I) rows)"
    using all by (induction rule: list.rel_induct) auto
  also have "filter (\<lambda>x. ?U x \<and> ob_ID x \<notin> ?I) rows = filter (\<lambda>x. x \<notin> set (take n ys)) (filter ?U rows)"
    unfolding filter_filter
  proof (rule filter_cong [OF refl])
    fix x assume x: "x \<in> set rows"
    have "x \<in> set (take n ys)" if "ob_ID x = ob_ID y" "y \<in> set (take n ys)" for y
      using that x take_subset [OF ys, of n] same_ID [OF ids x, of y] by auto
    then show "(?U x \<and> ob_ID x \<notin> ?I) = (?U x \<and> x \<notin> set (take n ys))" by auto
  qed
  also have "length \<dots> = length (filter (\<lambda>x. x \<notin> set (take n ys)) ys)"
    using ys by (metis mset_filter size_mset)
  also have "\<dots> = length (drop n ys)"
  proof -
    have "distinct ys" using ids ys
      by (metis distinct_filter distinct_map mset_eq_imp_distinct_iff)
    then have "distinct (take n ys @ drop n ys)" by simp
    then have "filter (\<lambda>x. x \<notin> set (take n ys)) (take n ys @ drop n ys) = drop n ys"
      by (subst filter_append) (auto simp: filter_empty_conv filter_id_conv simp del: append_take_drop_id)
    then show ?thesis by simp
  qed
  also have "\<dots> = length (filter ?U rows) - n" using mset_eq_length [OF ys] by simp
  finally show "length (filter ?U rows') = length (filter ?U rows) - n" .
qed


context reliable_runtime
begin

lemma relay_unsent:
  assumes "distinct (map ob_ID (t_outbox (db w)))"
  shows "length (filter (\<lambda>x. \<not> ob_Sent x) (t_outbox (db (publishBatch X (SendMessageToTopic X) w))))
      = length (filter (\<lambda>x. \<not> ob_Sent x) (t_outbox (db w))) - 100"
    and "map ob_ID (t_outbox (db (publishBatch X (SendMessageToTopic X) w))) = map ob_ID (t_outbox (db w))"
  using relay_round_accepted [of w] unsent_after [OF assms] by auto

lemma relay_rounds_unsent:
  assumes "distinct (map ob_ID (t_outbox (db w)))"
  shows "length (filter (\<lambda>x. \<not> ob_Sent x) (t_outbox (db ((publishBatch X (SendMessageToTopic X) ^^ n) w))))
      = length (filter (\<lambda>x. \<not> ob_Sent x) (t_outbox (db w))) - 100 * n
    \<and> distinct (map ob_ID (t_outbox (db ((publishBatch X (SendMessageToTopic X) ^^ n) w))))"
  by (induction n) (use assms in \<open>auto simp: relay_unsent\<close>)

end

section \<open>Properties\<close>

text \<open>C9: the relay never loses or invents an event. Whatever fails during a round, the messages it
  appends to the log belong to unsent rows, and the only rows it changes are unsent rows whose
  message it has appended: these become marked as sent, everything else in them is kept.\<close>

theorem relay_marks_only_published:
  assumes "quiet_runtime db kv log num jsonb X"
    and "distinct (map ob_ID (t_outbox (db w)))"
    and "w' = publishBatch X (SendMessageToTopic X) w"
  shows "\<exists>new rows. log w' = log w @ new
    \<and> set new \<subseteq> event_message ` {x \<in> set (t_outbox (db w)). \<not> ob_Sent x}
    \<and> kv w' = kv w \<and> db w' = (db w)\<lparr>t_outbox := rows\<rparr>
    \<and> list_all2 (\<lambda>x y. y = x \<or> \<not> ob_Sent x \<and> event_message x \<in> set new
        \<and> (\<exists>t. y = x\<lparr>ob_Sent := True, ob_SentAt := Some t\<rparr>)) (t_outbox (db w)) rows"
  unfolding assms(3) by (rule quiet_runtime.relay_round [OF assms(1,2)])

text \<open>A round of the relay, when nothing fails, publishes the first hundred unsent events in the
  order of their creation, and leaves a hundred fewer unsent ones.\<close>

theorem relay_publishes_in_order:
  assumes "reliable_runtime db kv log num jsonb X"
    and "distinct (map ob_ID (t_outbox (db w)))"
    and "w' = publishBatch X (SendMessageToTopic X) w"
  shows "\<exists>ys. mset ys = mset (filter (\<lambda>x. \<not> ob_Sent x) (t_outbox (db w))) \<and> sorted (map ob_CreatedAt ys)
    \<and> log w' = log w @ map event_message (take 100 ys)
    \<and> length (filter (\<lambda>x. \<not> ob_Sent x) (t_outbox (db w')))
        = length (filter (\<lambda>x. \<not> ob_Sent x) (t_outbox (db w))) - 100"
  unfolding assms(3)
  using reliable_runtime.relay_round_accepted [OF assms(1), of w]
    reliable_runtime.relay_unsent(1) [OF assms(1,2)] by blast

text \<open>Repeated rounds drain the outbox. With services that do not fail, after one round for every
  hundred unsent events no event is left unsent.\<close>

theorem relay_drains:
  assumes "reliable_runtime db kv log num jsonb X"
    and "distinct (map ob_ID (t_outbox (db w)))"
    and "length (filter (\<lambda>x. \<not> ob_Sent x) (t_outbox (db w))) \<le> 100 * n"
  shows "\<forall>x \<in> set (t_outbox (db ((publishBatch X (SendMessageToTopic X) ^^ n) w))). ob_Sent x"
  using reliable_runtime.relay_rounds_unsent [OF assms(1,2), of n] assms(3)
  by (simp add: length_filter_zero filter_empty_conv)


section \<open>A round on the reference store\<close>

definition demo_event :: "nat \<Rightarrow> string \<Rightarrow> OutboxEvent" where
  "demo_event i no =
     \<lparr>ob_ID = i, ob_AggregateType = ''order'', ob_AggregateID = no, ob_EventType = OrderCreated,
      ob_Topic = TopicOrderEvents, ob_Payload = JObj [(''order_no'', JStr no)], ob_Sent = False,
      ob_CreatedAt = int i, ob_SentAt = None\<rparr>"

definition demo_outbox :: "bool list \<Rightarrow> unit mem" where
  "demo_outbox faults = mem_empty\<lparr>mem_db := (mem_db (mem_empty :: unit mem))\<lparr>t_outbox := [demo_event 1 ''7'', demo_event 2 ''8'']\<rparr>,
     mem_faults := faults\<rparr>"

lemma demo_outbox_rows [simp]:
  "distinct (map ob_ID (t_outbox (mem_db (demo_outbox fs))))"
  "filter (\<lambda>x. \<not> ob_Sent x) (t_outbox (mem_db (demo_outbox fs))) = [demo_event 1 ''7'', demo_event 2 ''8'']"
  by (simp_all add: demo_outbox_def demo_event_def)

text \<open>The first event's message is refused: only the second one is sent and marked.\<close>

theorem relay_marks_only_published_witness:
  "(\<exists>new rows. mem_log (publishBatch (demo_ext True)
        (SendMessageToTopic (demo_ext True)) (demo_outbox [False, True, False])) = new
      \<and> set new \<subseteq> {event_message (demo_event 1 ''7''), event_message (demo_event 2 ''8'')})
    \<and> map ob_Sent (t_outbox (mem_db (publishBatch (demo_ext True)
        (SendMessageToTopic (demo_ext True)) (demo_outbox [False, True, False])))) = [False, True]"
  (is "?A \<and> ?B")
proof
  show ?A
    using relay_marks_only_published [OF demo_quiet demo_outbox_rows(1) refl, of True "[False, True, False]"]
    by (auto simp: demo_outbox_def mem_empty_def demo_event_def)
  show ?B by code_simp
qed

text \<open>Nothing refused.\<close>

theorem relay_publishes_in_order_witness:
  "\<exists>ys. mset ys = mset [demo_event 1 ''7'', demo_event 2 ''8''] \<and> sorted (map ob_CreatedAt ys)
    \<and> mem_log (publishBatch (demo_ext False)
        (SendMessageToTopic (demo_ext False)) (demo_outbox [])) = map event_message ys"
proof -
  obtain ys where ys: "mset ys = mset [demo_event 1 ''7'', demo_event 2 ''8'']" "sorted (map ob_CreatedAt ys)"
      "mem_log (publishBatch (demo_ext False) (SendMessageToTopic (demo_ext False)) (demo_outbox []))
        = mem_log (demo_outbox []) @ map event_message (take 100 ys)"
    using relay_publishes_in_order [OF demo_reliable demo_outbox_rows(1) refl, of "[]"]
    unfolding demo_outbox_rows(2) by blast
  have "length ys = 2" using mset_eq_length [OF ys(1)] by simp
  with ys show ?thesis by (intro exI [of _ ys]) (simp add: demo_outbox_def mem_empty_def)
qed

theorem relay_drains_witness:
  "list_all ob_Sent (t_outbox (mem_db ((publishBatch (demo_ext False)
      (SendMessageToTopic (demo_ext False)) ^^ 1) (demo_outbox []))))"
  unfolding list_all_iff
  by (rule relay_drains [OF demo_reliable demo_outbox_rows(1)]) simp


end
