(* ===== verification/Inventory_Events.thy ===== *)
theory Inventory_Events
  imports Keys Outbox
begin

text \<open>
  \<^verbatim>\<open>internal/inventory/event_handler.go\<close>: what the inventory service does with the events
  of the order topic. A handler's log lines are left out; it returns nil on every path. The body
  of the transaction of \<^verbatim>\<open>handleOrderCreated\<close> is a definition of its own.
\<close>

section \<open>event\_handler.go\<close>

definition handleOrderCreated_tx :: "'w ext \<Rightarrow> OrderCreatedEvent \<Rightarrow> 'w \<Rightarrow> (go_error + unit) \<times> 'w" where
  "handleOrderCreated_tx X evt w =
     (case Deduct (inventories_tbl X) (oc_ProductID evt) (oc_Quantity evt) w of
        (Inl err, w1) \<Rightarrow>
          (case uuid_New X w1 of (eventID, w2) \<Rightarrow>
             (case time_Now X w2 of (now, w3) \<Rightarrow>
                WriteEvent (outbox_tbl X) ''inventory'' (oc_OrderNo evt) StockDeductFailed TopicInventoryEvents
                  (PayStockDeductFailed
                     \<lparr>ev_EventID = eventID, ev_EventType = StockDeductFailed, ev_Timestamp = now,
                      sf_OrderNo = oc_OrderNo evt, sf_ProductID = oc_ProductID evt,
                      sf_Reason = error_text err\<rparr>) w3))
      | (Inr _, w1) \<Rightarrow>
          (case uuid_New X w1 of (eventID, w2) \<Rightarrow>
             (case time_Now X w2 of (now, w3) \<Rightarrow>
                WriteEvent (outbox_tbl X) ''inventory'' (oc_OrderNo evt) StockDeducted TopicInventoryEvents
                  (PayStockDeducted
                     \<lparr>ev_EventID = eventID, ev_EventType = StockDeducted, ev_Timestamp = now,
                      sd_OrderNo = oc_OrderNo evt, sd_ProductID = oc_ProductID evt,
                      sd_Quantity = oc_Quantity evt\<rparr>) w3)))"

definition handleOrderCreated :: "'w ext \<Rightarrow> json \<Rightarrow> 'w \<Rightarrow> (go_error + unit) \<times> 'w" where
  "handleOrderCreated X data w =
     (case json_Unmarshal dec_OrderCreated data of
        Inl _ \<Rightarrow> (Inr (), w)
      | Inr evt \<Rightarrow>
          (case db_Transaction X (\<lambda>v. no_capture (handleOrderCreated_tx X evt v)) w of (_, w1) \<Rightarrow> (Inr (), w1)))"

definition handleOrderCompleted :: "'w ext \<Rightarrow> json \<Rightarrow> 'w \<Rightarrow> (go_error + unit) \<times> 'w" where
  "handleOrderCompleted X data w =
     (case json_Unmarshal dec_OrderCompleted data of
        Inl _ \<Rightarrow> (Inr (), w)
      | Inr evt \<Rightarrow>
          (case InventoryService_ConfirmDeduction (inventories_tbl X) (of_ProductID evt) (of_Quantity evt) w of
             (_, w1) \<Rightarrow> (Inr (), w1)))"

definition handleOrderCancelled :: "'w ext \<Rightarrow> json \<Rightarrow> 'w \<Rightarrow> (go_error + unit) \<times> 'w" where
  "handleOrderCancelled X data w =
     (case json_Unmarshal dec_OrderCancelled data of
        Inl _ \<Rightarrow> (Inr (), w)
      | Inr evt \<Rightarrow>
          (case Return (inventories_tbl X) (ox_ProductID evt) (ox_Quantity evt) w of
             (_, w1) \<Rightarrow>
               (let w2 = RollbackRedis X (ox_ProductID evt) (ox_Quantity evt) w1 in
                case rdb_Del X (idempotencyKey (ox_UserID evt) (ox_ProductID evt)) w2 of
                  (_, w3) \<Rightarrow> (Inr (), w3))))"

definition HandleOrderEvent :: "'w ext \<Rightarrow> string \<Rightarrow> json \<Rightarrow> 'w \<Rightarrow> (go_error + unit) \<times> 'w" where
  "HandleOrderEvent X key val w =
     (case json_Unmarshal dec_BaseEvent val of
        Inl _ \<Rightarrow> (Inr (), w)
      | Inr base \<Rightarrow>
          (if ev_EventType base = OrderCreated then handleOrderCreated X val w
           else if ev_EventType base = OrderCompleted then handleOrderCompleted X val w
           else if ev_EventType base = OrderCancelled then handleOrderCancelled X val w
           else (Inr (), w)))"

section \<open>What an ORDER\_CREATED event leads to\<close>

lemma stock_of_others [simp]:
  "stock_of (d\<lparr>t_outbox := xs\<rparr>) = stock_of d" "stock_of (d\<lparr>t_orders := os\<rparr>) = stock_of d"
  "stock_of (d\<lparr>t_payments := ps\<rparr>) = stock_of d"
  by (simp_all add: stock_of_def)

lemma inv_keys_others [simp]:
  "inv_keys (d\<lparr>t_outbox := xs\<rparr>) = inv_keys d" "inv_keys (d\<lparr>t_orders := os\<rparr>) = inv_keys d"
  by (simp_all add: inv_keys_def)

text \<open>The payloads of the two answers.\<close>

definition deducted_payload :: "OrderCreatedEvent \<Rightarrow> payload \<Rightarrow> bool" where
  "deducted_payload evt p \<longleftrightarrow> (\<exists>i t. p = PayStockDeducted
     \<lparr>ev_EventID = i, ev_EventType = StockDeducted, ev_Timestamp = t, sd_OrderNo = oc_OrderNo evt,
      sd_ProductID = oc_ProductID evt, sd_Quantity = oc_Quantity evt\<rparr>)"

definition deduct_failed_payload :: "OrderCreatedEvent \<Rightarrow> go_error \<Rightarrow> payload \<Rightarrow> bool" where
  "deduct_failed_payload evt err p \<longleftrightarrow> (\<exists>i t. p = PayStockDeductFailed
     \<lparr>ev_EventID = i, ev_EventType = StockDeductFailed, ev_Timestamp = t, sf_OrderNo = oc_OrderNo evt,
      sf_ProductID = oc_ProductID evt, sf_Reason = error_text err\<rparr>)"

text \<open>
  The two ways the transaction can change the tables: the stock is reserved and the announcement
  of it is in the outbox, or the stock is unchanged and the outbox holds the refusal.
\<close>

definition created_reserved :: "(json \<Rightarrow> json) \<Rightarrow> OrderCreatedEvent \<Rightarrow> tables \<Rightarrow> tables \<Rightarrow> bool" where
  "created_reserved jsonb evt d d' \<longleftrightarrow>
     reserve (oc_ProductID evt) (oc_Quantity evt) (stock_of d) = Some (stock_of d') \<and>
     (\<exists>rows x p. map inv_ProductID rows = map inv_ProductID (t_inventories d) \<and>
        d' = d\<lparr>t_inventories := rows, t_outbox := t_outbox d @ [x]\<rparr> \<and> deducted_payload evt p \<and>
        is_event_row jsonb ''inventory'' (oc_OrderNo evt) StockDeducted TopicInventoryEvents p x)"

definition created_refused :: "(json \<Rightarrow> json) \<Rightarrow> OrderCreatedEvent \<Rightarrow> go_error \<Rightarrow> tables \<Rightarrow> tables \<Rightarrow> bool" where
  "created_refused jsonb evt err d d' \<longleftrightarrow>
     (\<exists>x p. d' = d\<lparr>t_outbox := t_outbox d @ [x]\<rparr> \<and> deduct_failed_payload evt err p \<and>
        is_event_row jsonb ''inventory'' (oc_OrderNo evt) StockDeductFailed TopicInventoryEvents p x)"

definition refusal :: "stock \<Rightarrow> nat \<Rightarrow> int \<Rightarrow> go_error \<Rightarrow> bool" where
  "refusal m p q e \<longleftrightarrow>
     e = InvErrInventoryNotFound \<and> m p = None
     \<or> e = InvErrStockInsufficient \<and> (\<exists>a l. m p = Some (a, l) \<and> a < q)"

context quiet_runtime
begin

text \<open>An event written with a fresh identifier and the time.\<close>

lemma announce:
  assumes "uuid_New X w = (i, v)" "time_Now X v = (t, u)" "WriteEvent (outbox_tbl X) agg no typ topic p u = (r, w')"
  shows "kv w' = kv w \<and> log w' = log w \<and>
    (case r of
       Inr _ \<Rightarrow> \<exists>x. db w' = (db w)\<lparr>t_outbox := t_outbox (db w) @ [x]\<rparr> \<and> is_event_row jsonb agg no typ topic p x
     | Inl e \<Rightarrow> db w' = db w)"
  using inp.New_law [OF assms(1)] inp.Now_law [OF assms(2)] WriteEvent_result [OF assms(3)] by (cases r) auto

lemma handleOrderCreated_tx_cases:
  assumes "handleOrderCreated_tx X evt w = (r, w')" "inv_keys (db w)"
    and deduct: "Deduct (inventories_tbl X) (oc_ProductID evt) (oc_Quantity evt) w = (d, u)"
  shows "kv w' = kv w \<and> log w' = log w \<and>
    (case r of
       Inr _ \<Rightarrow> (case d of Inr _ \<Rightarrow> created_reserved jsonb evt (db w) (db w')
                  | Inl err \<Rightarrow> created_refused jsonb evt err (db w) (db w'))
     | Inl e \<Rightarrow> True)"
proof -
  note took = Deduct_quiet [OF deduct assms(2)]
  obtain i v where i: "uuid_New X u = (i, v)" by fastforce
  obtain t s where t: "time_Now X v = (t, s)" by fastforce
  show ?thesis
  proof (cases d)
    case (Inl err)
    let ?p = "PayStockDeductFailed \<lparr>ev_EventID = i, ev_EventType = StockDeductFailed, ev_Timestamp = t,
      sf_OrderNo = oc_OrderNo evt, sf_ProductID = oc_ProductID evt, sf_Reason = error_text err\<rparr>"
    have wrote: "WriteEvent (outbox_tbl X) ''inventory'' (oc_OrderNo evt) StockDeductFailed TopicInventoryEvents ?p s = (r, w')"
      using assms(1) deduct Inl i t by (simp add: handleOrderCreated_tx_def)
    have "deduct_failed_payload evt err ?p" by (auto simp: deduct_failed_payload_def)
    then show ?thesis using announce [OF i t wrote] took Inl
      by (cases r) (auto simp: created_refused_def)
  next
    case (Inr one)
    let ?p = "PayStockDeducted \<lparr>ev_EventID = i, ev_EventType = StockDeducted, ev_Timestamp = t,
      sd_OrderNo = oc_OrderNo evt, sd_ProductID = oc_ProductID evt, sd_Quantity = oc_Quantity evt\<rparr>"
    have wrote: "WriteEvent (outbox_tbl X) ''inventory'' (oc_OrderNo evt) StockDeducted TopicInventoryEvents ?p s = (r, w')"
      using assms(1) deduct Inr i t by (simp add: handleOrderCreated_tx_def)
    have "deducted_payload evt ?p" by (auto simp: deducted_payload_def)
    then show ?thesis using announce [OF i t wrote] took Inr
      by (cases r) (fastforce simp: created_reserved_def guarded_step_def)+
  qed
qed

lemma handleOrderCreated_tx_result:
  assumes "handleOrderCreated_tx X evt w = (r, w')" "inv_keys (db w)"
  shows "kv w' = kv w \<and> log w' = log w \<and>
    (case r of
       Inr _ \<Rightarrow> created_reserved jsonb evt (db w) (db w')
         \<or> (\<exists>err. (refusal (stock_of (db w)) (oc_ProductID evt) (oc_Quantity evt) err \<or> is_external err)
              \<and> created_refused jsonb evt err (db w) (db w'))
     | Inl e \<Rightarrow> True)"
proof -
  obtain d u where deduct: "Deduct (inventories_tbl X) (oc_ProductID evt) (oc_Quantity evt) w = (d, u)" by fastforce
  show ?thesis
    using handleOrderCreated_tx_cases [OF assms deduct] Deduct_quiet [OF deduct assms(2)]
    by (cases r; cases d) (auto simp: refusal_def)
qed

end

context quiet_runtime
begin

lemma handleOrderCreated_result:
  assumes "json_Unmarshal dec_OrderCreated data = Inr evt" "inv_keys (db w)"
    and "handleOrderCreated X data w = (r, w')"
  shows "r = Inr () \<and> kv w' = kv w \<and> log w' = log w \<and>
    (db w' = db w \<or> created_reserved jsonb evt (db w) (db w')
     \<or> (\<exists>err. (refusal (stock_of (db w)) (oc_ProductID evt) (oc_Quantity evt) err \<or> is_external err)
           \<and> created_refused jsonb evt err (db w) (db w')))"
proof -
  obtain s where tx: "db_Transaction X (\<lambda>v. no_capture (handleOrderCreated_tx X evt v)) w = (s, w')" and r: "r = Inr ()"
    using assms(1,3) by (auto simp: handleOrderCreated_def split: prod.splits)
  let ?Q = "\<lambda>d. created_reserved jsonb evt (db w) d
     \<or> (\<exists>err. (refusal (stock_of (db w)) (oc_ProductID evt) (oc_Quantity evt) err \<or> is_external err)
           \<and> created_refused jsonb evt err (db w) d)"
  have "kv w' = kv w \<and> log w' = log w \<and> (case s of Inr _ \<Rightarrow> ?Q (db w') | Inl e \<Rightarrow> db w' = db w \<and> (True \<or> is_external e))"
  proof (rule Transaction_quiet_unit [OF tx])
    fix v s v' assume "handleOrderCreated_tx X evt v = (s, v')" "db v = db w"
    then show "kv v' = kv v \<and> log v' = log v \<and> (case s of Inr _ \<Rightarrow> ?Q (db v') | Inl e \<Rightarrow> True)"
      using handleOrderCreated_tx_result [of evt v s v'] assms(2) by (cases s) simp_all
  qed
  then show ?thesis using r by (cases s) auto
qed

lemma handleOrderCompleted_result:
  assumes "json_Unmarshal dec_OrderCompleted data = Inr evt" "inv_keys (db w)"
    and "handleOrderCompleted X data w = (r, w')"
  shows "r = Inr () \<and> kv w' = kv w \<and> log w' = log w \<and>
    (\<exists>s. guarded_step (confirm (of_ProductID evt) (of_Quantity evt)) ErrNoLockedToConfirm (db w) (db w') s)"
proof -
  obtain s where "Repository_ConfirmDeduction (inventories_tbl X) (of_ProductID evt) (of_Quantity evt) w = (s, w')"
    and r: "r = Inr ()"
    using assms(1,3)
    by (auto simp: handleOrderCompleted_def InventoryService_ConfirmDeduction_def split: prod.splits)
  from ConfirmDeduction_result [OF this(1)] r show ?thesis
    using assms(2) by (auto simp: guarded_statement_def)
qed

text \<open>The stock of a cancelled order goes back in the table and in Redis, each if it can.\<close>

lemma handleOrderCancelled_result:
  assumes "json_Unmarshal dec_OrderCancelled data = Inr evt" "inv_keys (db w)"
    and "handleOrderCancelled X data w = (r, w')"
  shows "r = Inr () \<and> log w' = log w \<and>
    (\<exists>s. guarded_step (release (ox_ProductID evt) (ox_Quantity evt)) ErrNoLockedToReturn (db w) (db w') s) \<and>
    (kv w' (idempotencyKey (ox_UserID evt) (ox_ProductID evt)) = None
     \<or> kv w' (idempotencyKey (ox_UserID evt) (ox_ProductID evt)) = kv w (idempotencyKey (ox_UserID evt) (ox_ProductID evt))) \<and>
    (kv w' (stockKey (ox_ProductID evt)) = kv w (stockKey (ox_ProductID evt))
     \<or> (\<exists>c. counter_value (kv w (stockKey (ox_ProductID evt))) = Some c
          \<and> kv w' (stockKey (ox_ProductID evt)) = Some (Text (show_int (c + ox_Quantity evt))))) \<and>
    (\<forall>k. k \<noteq> stockKey (ox_ProductID evt) \<longrightarrow> k \<noteq> idempotencyKey (ox_UserID evt) (ox_ProductID evt) \<longrightarrow> kv w' k = kv w k)"
proof -
  let ?p = "ox_ProductID evt" and ?q = "ox_Quantity evt"
  obtain s u where ret: "ReturnStock (inventories_tbl X) ?p ?q w = (s, u)" by fastforce
  let ?v = "RollbackRedis X ?p ?q u"
  obtain d where del: "rdb_Del X (idempotencyKey (ox_UserID evt) ?p) ?v = (d, w')" and r: "r = Inr ()"
    using assms(1,3) ret by (auto simp: handleOrderCancelled_def Return_def Let_def split: prod.splits)
  have step: "guarded_step (release ?p ?q) ErrNoLockedToReturn (db w) (db u) s" "kv u = kv w" "log u = log w"
    using ReturnStock_result [OF ret] assms(2) by (auto simp: guarded_statement_def)
  have v: "db ?v = db u" "log ?v = log u" "kv ?v = kv u \<or>
      (\<exists>c. counter_value (kv u (stockKey ?p)) = Some c \<and> kv ?v = (kv u)(stockKey ?p \<mapsto> Text (show_int (c + ?q))))"
    using RollbackRedis_result [where w = u and p = ?p and q = ?q] by auto
  have w': "db w' = db ?v" "log w' = log ?v"
    "kv w' = (kv ?v)(idempotencyKey (ox_UserID evt) ?p := None) \<or> kv w' = kv ?v"
    using rdb.Del_law [OF del] by (auto simp: write_result_def split: sum.splits)
  have "\<exists>s. guarded_step (release ?p ?q) ErrNoLockedToReturn (db w) (db w') s" using step(1) v w' by auto
  with r step(2,3) v w' show ?thesis by (elim disjE exE conjE) (auto simp: key_simps)
qed

end

text \<open>Which handler an event reaches, and that others are left alone.\<close>

lemma HandleOrderEvent_dispatch:
  assumes "json_Unmarshal dec_BaseEvent val = Inr base"
  shows "ev_EventType base = OrderCreated \<Longrightarrow> HandleOrderEvent X key val w = handleOrderCreated X val w"
    "ev_EventType base = OrderCompleted \<Longrightarrow> HandleOrderEvent X key val w = handleOrderCompleted X val w"
    "ev_EventType base = OrderCancelled \<Longrightarrow> HandleOrderEvent X key val w = handleOrderCancelled X val w"
    "ev_EventType base \<notin> {OrderCreated, OrderCompleted, OrderCancelled} \<Longrightarrow>
       HandleOrderEvent X key val w = (Inr (), w)"
  using assms by (auto simp: HandleOrderEvent_def event_type_defs)

section \<open>With services that do not fail\<close>

context reliable_runtime
begin

lemma WriteEvent_reliable:
  assumes "WriteEvent (outbox_tbl X) agg no typ topic p w = (r, w')" "json_Marshal p = Inr j"
  shows "r = Inr ()"
proof (cases r)
  case (Inl e)
  let ?row = "\<lparr>ob_ID = 0, ob_AggregateType = agg, ob_AggregateID = no, ob_EventType = typ,
    ob_Topic = topic, ob_Payload = j, ob_Sent = False, ob_CreatedAt = 0, ob_SentAt = None\<rparr>"
  have "db_Create (outbox_tbl X) ?row w = (Inl e, w')"
    using assms Inl by (auto simp: WriteEvent_def split: sum.splits prod.splits)
  from ob.Create_reliable [OF this] show ?thesis by (simp add: outbox_schema_def)
qed simp

lemma handleOrderCreated_tx_reliable:
  assumes "handleOrderCreated_tx X evt w = (r, w')" "inv_keys (db w)"
  shows "r = Inr () \<and> kv w' = kv w \<and> log w' = log w \<and>
    (if reserve (oc_ProductID evt) (oc_Quantity evt) (stock_of (db w)) = None
     then \<exists>err. refusal (stock_of (db w)) (oc_ProductID evt) (oc_Quantity evt) err \<and> created_refused jsonb evt err (db w) (db w')
     else created_reserved jsonb evt (db w) (db w'))"
proof -
  obtain d u where deduct: "Deduct (inventories_tbl X) (oc_ProductID evt) (oc_Quantity evt) w = (d, u)" by fastforce
  note took = Deduct_reliable [OF deduct assms(2)]
  have ok: "r = Inr ()"
  proof (cases d)
    case (Inl err)
    then show ?thesis using assms(1) deduct WriteEvent_reliable
      by (fastforce simp: handleOrderCreated_tx_def split: prod.splits)
  next
    case (Inr one)
    then show ?thesis using assms(1) deduct WriteEvent_reliable
      by (fastforce simp: handleOrderCreated_tx_def split: prod.splits)
  qed
  show ?thesis
    using ok handleOrderCreated_tx_cases [OF assms deduct] took
    by (cases "reserve (oc_ProductID evt) (oc_Quantity evt) (stock_of (db w))")
      (auto simp: refusal_def reserve_def split: option.splits if_splits)
qed

lemma handleOrderCreated_reliable:
  assumes "json_Unmarshal dec_OrderCreated data = Inr evt" "inv_keys (db w)"
    and "handleOrderCreated X data w = (r, w')"
  shows "kv w' = kv w \<and> log w' = log w \<and>
    (if reserve (oc_ProductID evt) (oc_Quantity evt) (stock_of (db w)) = None
     then \<exists>err. refusal (stock_of (db w)) (oc_ProductID evt) (oc_Quantity evt) err \<and> created_refused jsonb evt err (db w) (db w')
     else created_reserved jsonb evt (db w) (db w'))"
proof -
  let ?Q = "\<lambda>d. if reserve (oc_ProductID evt) (oc_Quantity evt) (stock_of (db w)) = None
     then \<exists>err. refusal (stock_of (db w)) (oc_ProductID evt) (oc_Quantity evt) err \<and> created_refused jsonb evt err (db w) d
     else created_reserved jsonb evt (db w) d"
  obtain s where tx: "db_Transaction X (\<lambda>v. no_capture (handleOrderCreated_tx X evt v)) w = (s, w')"
    using assms(1,3) by (auto simp: handleOrderCreated_def split: prod.splits)
  have "kv w' = kv w \<and> log w' = log w \<and> (case s of Inr _ \<Rightarrow> ?Q (db w') | Inl e \<Rightarrow> db w' = db w \<and> False)"
  proof (rule Transaction_reliable_unit [OF tx])
    fix v s v' assume "handleOrderCreated_tx X evt v = (s, v')" "db v = db w"
    then show "kv v' = kv v \<and> log v' = log v \<and> (case s of Inr _ \<Rightarrow> ?Q (db v') | Inl e \<Rightarrow> False)"
      using handleOrderCreated_tx_reliable [of evt v s v'] assms(2) by (auto split: if_splits)
  qed
  then show ?thesis by (cases s) auto
qed

end

section \<open>Properties\<close>

text \<open>C5: reservation and announcement are one step. On an ORDER_CREATED event the inventory service
  either reserves the stock and stores STOCK_DEDUCTED in the outbox, or leaves the stock alone and
  stores STOCK_DEDUCT_FAILED with the reason, or, when the transaction fails, does neither. It
  reports success to the consumer in every case.\<close>

theorem order_created_reserves_and_announces:
  assumes "quiet_runtime db kv log num jsonb X" "inv_keys (db w)"
    and "json_Unmarshal dec_BaseEvent val = Inr base" "ev_EventType base = OrderCreated"
    and "json_Unmarshal dec_OrderCreated val = Inr evt"
    and "HandleOrderEvent X key val w = (r, w')"
  shows "r = Inr () \<and> kv w' = kv w \<and> log w' = log w \<and>
    (db w' = db w \<or> created_reserved jsonb evt (db w) (db w')
     \<or> (\<exists>err. (refusal (stock_of (db w)) (oc_ProductID evt) (oc_Quantity evt) err \<or> is_external err)
           \<and> created_refused jsonb evt err (db w) (db w')))"
  using quiet_runtime.handleOrderCreated_result [OF assms(1,5,2)] assms(6)
  unfolding HandleOrderEvent_dispatch(1) [OF assms(3,4)] .

text \<open>With services that do not fail, the answer to an ORDER_CREATED event is determined by the
  stock: reserved and announced if it suffices, refused and announced otherwise.\<close>

theorem order_created_is_answered:
  assumes "reliable_runtime db kv log num jsonb X" "inv_keys (db w)"
    and "json_Unmarshal dec_BaseEvent val = Inr base" "ev_EventType base = OrderCreated"
    and "json_Unmarshal dec_OrderCreated val = Inr evt"
    and "HandleOrderEvent X key val w = (r, w')"
  shows "if reserve (oc_ProductID evt) (oc_Quantity evt) (stock_of (db w)) = None
     then \<exists>err. refusal (stock_of (db w)) (oc_ProductID evt) (oc_Quantity evt) err
            \<and> created_refused jsonb evt err (db w) (db w')
     else created_reserved jsonb evt (db w) (db w')"
  using reliable_runtime.handleOrderCreated_reliable [OF assms(1,5,2)] assms(6)
  unfolding HandleOrderEvent_dispatch(1) [OF assms(3,4)] by blast


section \<open>Two things the saga gets wrong\<close>

definition marshalled :: "payload \<Rightarrow> json" where
  "marshalled p = (case json_Marshal p of Inr j \<Rightarrow> j | Inl _ \<Rightarrow> JNull)"

text \<open>A marshalled payload reaches its handler with the payload it was made from.\<close>

lemma marshalled_reads:
  assumes "payload_ok p"
  shows "json_Unmarshal dec_BaseEvent (marshalled p) = Inr (payload_base p)"
    "unmarshal_like p (marshalled p) = Inr p"
  using Marshal_succeeds [OF assms] Unmarshal_base Unmarshal_Marshal [OF assms]
  by (auto simp: marshalled_def)

lemma carries_marshalled: "payload_ok p \<Longrightarrow> carries (marshalled p) p"
  by (simp add: carries_def marshalled_reads)

lemma marshalled_decodes:
  "payload_ok (PayOrderCreated e) \<Longrightarrow> json_Unmarshal dec_OrderCreated (marshalled (PayOrderCreated e)) = Inr e"
  "payload_ok (PayOrderCancelled c) \<Longrightarrow> json_Unmarshal dec_OrderCancelled (marshalled (PayOrderCancelled c)) = Inr c"
proof -
  show "json_Unmarshal dec_OrderCreated (marshalled (PayOrderCreated e)) = Inr e" if "payload_ok (PayOrderCreated e)"
    using marshalled_reads(2) [OF that]
    by (cases "json_Unmarshal dec_OrderCreated (marshalled (PayOrderCreated e))") simp_all
  show "json_Unmarshal dec_OrderCancelled (marshalled (PayOrderCancelled c)) = Inr c" if "payload_ok (PayOrderCancelled c)"
    using marshalled_reads(2) [OF that]
    by (cases "json_Unmarshal dec_OrderCancelled (marshalled (PayOrderCancelled c))") simp_all
qed

lemma HandleOrderEvent_created:
  assumes "payload_ok (PayOrderCreated e)" "ev_EventType e = OrderCreated"
  shows "HandleOrderEvent X key (marshalled (PayOrderCreated e)) w
    = (Inr (), snd (db_Transaction X (\<lambda>v. no_capture (handleOrderCreated_tx X e v)) w))"
  using marshalled_reads(1) [OF assms(1)] marshalled_decodes(1) [OF assms(1)] assms(2)
  by (auto simp: HandleOrderEvent_def handleOrderCreated_def BaseEvent.truncate_def split: prod.split)

lemma HandleOrderEvent_cancelled:
  assumes "payload_ok (PayOrderCancelled e)" "ev_EventType e = OrderCancelled"
  shows "HandleOrderEvent X key (marshalled (PayOrderCancelled e)) w
    = (Inr (), snd (rdb_Del X (idempotencyKey (ox_UserID e) (ox_ProductID e))
        (RollbackRedis X (ox_ProductID e) (ox_Quantity e)
          (snd (Return (inventories_tbl X) (ox_ProductID e) (ox_Quantity e) w)))))"
  using marshalled_reads(1) [OF assms(1)] marshalled_decodes(2) [OF assms(1)] assms(2)
  by (auto simp: HandleOrderEvent_def handleOrderCancelled_def BaseEvent.truncate_def
      event_type_defs Let_def split: prod.split)

definition demo_created :: "string \<Rightarrow> nat \<Rightarrow> int \<Rightarrow> OrderCreatedEvent" where
  "demo_created no user qty =
     \<lparr>ev_EventID = ''e'' @ no, ev_EventType = OrderCreated, ev_Timestamp = 0, oc_OrderNo = no,
      oc_UserID = user, oc_ProductID = 1, oc_Quantity = qty, oc_TotalPrice = f64_one\<rparr>"

definition demo_cancelled :: "string \<Rightarrow> nat \<Rightarrow> int \<Rightarrow> string \<Rightarrow> OrderCancelledEvent" where
  "demo_cancelled no user qty reason =
     \<lparr>ev_EventID = ''c'' @ no, ev_EventType = OrderCancelled, ev_Timestamp = 0, ox_OrderNo = no,
      ox_UserID = user, ox_ProductID = 1, ox_Quantity = qty, ox_Reason = reason\<rparr>"

lemma demo_cancelled_fields:
  "ox_UserID (demo_cancelled no user qty reason) = user" "ox_ProductID (demo_cancelled no user qty reason) = 1"
  "ox_Quantity (demo_cancelled no user qty reason) = qty"
  by (simp_all add: demo_cancelled_def)

lemma demo_msgs_ok:
  "is_uint user \<Longrightarrow> in_int64 qty \<Longrightarrow> payload_ok (PayOrderCreated (demo_created no user qty))"
  "is_uint user \<Longrightarrow> in_int64 qty \<Longrightarrow> payload_ok (PayOrderCancelled (demo_cancelled no user qty reason))"
  "ev_EventType (demo_created no user qty) = OrderCreated"
  "ev_EventType (demo_cancelled no user qty reason) = OrderCancelled"
  by (simp_all add: demo_created_def demo_cancelled_def is_uint_def f64_one_parts)

definition created_msg :: "string \<Rightarrow> nat \<Rightarrow> int \<Rightarrow> string \<times> json" where
  "created_msg no user qty = (no, marshalled (PayOrderCreated (demo_created no user qty)))"

definition cancelled_msg :: "string \<Rightarrow> nat \<Rightarrow> int \<Rightarrow> string \<Rightarrow> string \<times> json" where
  "cancelled_msg no user qty reason = (no, marshalled (PayOrderCancelled (demo_cancelled no user qty reason)))"

lemma handle_demo_msg:
  "is_uint user \<Longrightarrow> in_int64 qty \<Longrightarrow>
    HandleOrderEvent X (fst (created_msg no user qty)) (snd (created_msg no user qty)) w
      = (Inr (), snd (db_Transaction X (\<lambda>v. no_capture (handleOrderCreated_tx X (demo_created no user qty) v)) w))"
  "is_uint user \<Longrightarrow> in_int64 qty \<Longrightarrow>
    HandleOrderEvent X (fst (cancelled_msg no user qty reason)) (snd (cancelled_msg no user qty reason)) w
      = (Inr (), snd (rdb_Del X (idempotencyKey user 1) (RollbackRedis X 1 qty
          (snd (Return (inventories_tbl X) 1 qty w)))))"
  using HandleOrderEvent_created [OF demo_msgs_ok(1,3)] HandleOrderEvent_cancelled [OF demo_msgs_ok(2,4)]
  by (simp_all add: created_msg_def cancelled_msg_def demo_cancelled_fields)

text \<open>The worlds a list of messages leads to.\<close>

lemma ConsumeClaim_world:
  "snd (ConsumeClaim h [] w) = w"
  "snd (ConsumeClaim h (m # ms) w) = snd (ConsumeClaim h ms (snd (h (fst m) (snd m) w)))"
  by (auto split: prod.split)

text \<open>What the service announced, in order: the type and the order of each outbox row.\<close>

definition announced :: "'o mem \<Rightarrow> (string \<times> string) list" where
  "announced w = map (\<lambda>x. (ob_EventType x, ob_AggregateID x)) (t_outbox (mem_db w))"

text \<open>A refused order's cancellation returns stock it never had. Of 10 pieces order 1 takes 8;
  order 2 asks for 5 and is refused, upon which the order service cancels it with its quantity;
  the inventory service then releases 5 of the pieces locked for order 1, and order 3 can take 7.
  Orders 1 and 3 together hold 15 of 10 pieces.\<close>

theorem cancelling_refused_order_oversells:
  "\<exists>w'. snd (ConsumeClaim (HandleOrderEvent (demo_ext False))
       [created_msg ''1'' 101 8, created_msg ''2'' 102 5,
        cancelled_msg ''2'' 102 5 ''stock_deduction_failed'', created_msg ''3'' 103 7] idle_stock) = w'
     \<and> announced w' = [(StockDeducted, ''1''), (StockDeductFailed, ''2''), (StockDeducted, ''3'')]
     \<and> stock_of (mem_db w') 1 = Some (0, 10)"
proof -
  let ?X = "demo_ext False"
  let ?order = "\<lambda>no u q w. snd (db_Transaction ?X (\<lambda>v. no_capture (handleOrderCreated_tx ?X (demo_created no u q) v)) w)"
  let ?cancel = "\<lambda>u q w. snd (rdb_Del ?X (idempotencyKey u 1) (RollbackRedis ?X 1 q
    (snd (Return (inventories_tbl ?X) 1 q w))))"
  have "(let w' = ?order ''3'' 103 7 (?cancel 102 5 (?order ''2'' 102 5 (?order ''1'' 101 8 idle_stock))) in
      announced w' = [(StockDeducted, ''1''), (StockDeductFailed, ''2''), (StockDeducted, ''3'')]
      \<and> stock_of (mem_db w') 1 = Some (0, 10))"
    by code_simp
  then show ?thesis
    by (simp add: ConsumeClaim_world handle_demo_msg is_uint_def in_int64_def Let_def)
qed

text \<open>A redelivered ORDER_CREATED event is not recognised. Delivered twice, as Kafka may do, the
  event reserves the quantity twice for one order.\<close>

theorem redelivered_order_reserves_twice:
  "\<exists>w'. snd (ConsumeClaim (HandleOrderEvent (demo_ext False))
       [created_msg ''1'' 101 3, created_msg ''1'' 101 3] idle_stock) = w'
     \<and> announced w' = [(StockDeducted, ''1''), (StockDeducted, ''1'')]
     \<and> stock_of (mem_db w') 1 = Some (4, 6)"
proof -
  let ?X = "demo_ext False"
  let ?order = "\<lambda>no u q w. snd (db_Transaction ?X (\<lambda>v. no_capture (handleOrderCreated_tx ?X (demo_created no u q) v)) w)"
  have "(let w' = ?order ''1'' 101 3 (?order ''1'' 101 3 idle_stock) in
      announced w' = [(StockDeducted, ''1''), (StockDeducted, ''1'')] \<and> stock_of (mem_db w') 1 = Some (4, 6))"
    by code_simp
  then show ?thesis
    by (simp add: ConsumeClaim_world handle_demo_msg is_uint_def in_int64_def Let_def)
qed

section \<open>Witnesses\<close>

lemma demo_base:
  assumes "is_uint user" "in_int64 qty"
  shows "\<exists>b. json_Unmarshal dec_BaseEvent (snd (created_msg no user qty)) = Inr b \<and> ev_EventType b = OrderCreated"
    "\<exists>b. json_Unmarshal dec_BaseEvent (snd (cancelled_msg no user qty reason)) = Inr b \<and> ev_EventType b = OrderCancelled"
  using marshalled_reads(1) [OF demo_msgs_ok(1) [OF assms]] marshalled_reads(1) [OF demo_msgs_ok(2) [OF assms]]
  by (simp_all add: created_msg_def cancelled_msg_def demo_created_def demo_cancelled_def BaseEvent.truncate_def)

text \<open>A lost connection at the commit: neither the stock nor the outbox shows the order.\<close>

theorem order_created_reserves_and_announces_witness:
  "fst (HandleOrderEvent (demo_ext True) ''1'' (snd (created_msg ''1'' 101 8)) (idle_stock\<lparr>mem_faults := [True]\<rparr>)) = Inr ()
    \<and> mem_db (snd (HandleOrderEvent (demo_ext True) ''1'' (snd (created_msg ''1'' 101 8)) (idle_stock\<lparr>mem_faults := [True]\<rparr>)))
        = mem_db idle_stock"
proof -
  let ?w = "idle_stock\<lparr>mem_faults := [True]\<rparr>"
  have ok: "is_uint 101" "in_int64 8" by (simp_all add: is_uint_def in_int64_def)
  obtain b where b: "json_Unmarshal dec_BaseEvent (snd (created_msg ''1'' 101 8)) = Inr b" "ev_EventType b = OrderCreated"
    using demo_base(1) [OF ok] by blast
  have d: "json_Unmarshal dec_OrderCreated (snd (created_msg ''1'' 101 8)) = Inr (demo_created ''1'' 101 8)"
    using marshalled_decodes(1) [OF demo_msgs_ok(1) [OF ok]] by (simp add: created_msg_def)
  have keys: "inv_keys (mem_db ?w)" using demo_stock_keys(1) by simp
  obtain r w' where run: "HandleOrderEvent (demo_ext True) ''1'' (snd (created_msg ''1'' 101 8)) ?w = (r, w')" by fastforce
  have "mem_db (snd (db_Transaction (demo_ext True) (\<lambda>v. no_capture (handleOrderCreated_tx (demo_ext True) (demo_created ''1'' 101 8) v)) ?w)) = mem_db ?w"
    by (simp add: mem_ext_def mem_Transaction_def mem_fault_def mem_interfere_def demo_stock_def mem_empty_def Let_def)
  with run handle_demo_msg(1) [OF ok, of "demo_ext True" "''1''" ?w]
  have "mem_db w' = mem_db idle_stock" by (simp add: created_msg_def)
  with order_created_reserves_and_announces [OF demo_quiet keys b d run] run show ?thesis by simp
qed

theorem order_created_is_answered_witness:
  "created_reserved (\<lambda>j. j) (demo_created ''1'' 101 8) (mem_db idle_stock)
    (mem_db (snd (HandleOrderEvent (demo_ext False) ''1'' (snd (created_msg ''1'' 101 8)) idle_stock)))"
proof -
  have ok: "is_uint 101" "in_int64 8" by (simp_all add: is_uint_def in_int64_def)
  obtain b where b: "json_Unmarshal dec_BaseEvent (snd (created_msg ''1'' 101 8)) = Inr b" "ev_EventType b = OrderCreated"
    using demo_base(1) [OF ok] by blast
  have d: "json_Unmarshal dec_OrderCreated (snd (created_msg ''1'' 101 8)) = Inr (demo_created ''1'' 101 8)"
    using marshalled_decodes(1) [OF demo_msgs_ok(1) [OF ok]] by (simp add: created_msg_def)
  show ?thesis
    using order_created_is_answered [OF demo_reliable demo_stock_keys(1) b d surjective_pairing]
    by (simp add: demo_stock_keys(3) demo_created_def reserve_def)
qed


end
