(* ===== verification/Snowflake.thy ===== *)
theory Snowflake
  imports Reference_Store
begin

text \<open>
  \<^verbatim>\<open>pkg/snowflake\<close>: order numbers from a 41-bit timestamp, a 10-bit node and a 12-bit
  sequence. The node's fields are 64-bit words, read as \<^verbatim>\<open>int64\<close> by \<open>sint\<close>. The clock is a
  parameter, \<open>now\<close>: every call of \<^verbatim>\<open>time.Now()\<close> moves the world on and yields an instant in
  nanoseconds since the zero \<^verbatim>\<open>time.Time\<close>. The loop that waits for the next millisecond may
  run forever on a clock that stands still, so \<open>Generate\<close> is a partial function. The mutex makes
  each call atomic.
\<close>

unbundle bit_operations_syntax

section \<open>Constants\<close>

definition epoch :: "64 word" where "epoch = 1704067200000"
definition nodeBits :: nat where "nodeBits = 10"
definition sequenceBits :: nat where "sequenceBits = 12"
definition nodeMax :: "64 word" where "nodeMax = (- 1) XOR (push_bit nodeBits (- 1))"
definition sequenceMask :: "64 word" where "sequenceMask = (- 1) XOR (push_bit sequenceBits (- 1))"
definition nodeShift :: nat where "nodeShift = sequenceBits"
definition timestampShift :: nat where "timestampShift = nodeBits + sequenceBits"

section \<open>The generator\<close>

record Node =
  nd_timestamp :: "64 word"
  nd_node :: "64 word"
  nd_sequence :: "64 word"

definition NewNode :: "64 word \<Rightarrow> go_error + Node" where
  "NewNode node =
     (if node <s 0 \<or> nodeMax <s node then Inl ErrNodeRange
      else Inr \<lparr>nd_timestamp = 0, nd_node = node, nd_sequence = 0\<rparr>)"

text \<open>\<^verbatim>\<open>time.UnixMilli\<close>: milliseconds since 1970, as an \<^verbatim>\<open>int64\<close>.\<close>

definition UnixMilli :: "int \<Rightarrow> 64 word" where
  "UnixMilli t = word_of_int (t div 1000000 - 62135596800000)"

definition clock_read :: "('w \<Rightarrow> int \<times> 'w) \<Rightarrow> 'w \<Rightarrow> 64 word \<times> 'w" where
  "clock_read now w = (case now w of (t, w1) \<Rightarrow> (UnixMilli t - epoch, w1))"

partial_function (option) wait_clock ::
    "('w \<Rightarrow> int \<times> 'w) \<Rightarrow> 64 word \<Rightarrow> 64 word \<Rightarrow> 'w \<Rightarrow> (64 word \<times> 'w) option" where
  "wait_clock now timestamp current w =
     (if current \<le>s timestamp
      then (case clock_read now w of (current', w1) \<Rightarrow> wait_clock now timestamp current' w1)
      else Some (current, w))"

declare wait_clock.simps [code]

definition node_id :: "64 word \<Rightarrow> 64 word \<Rightarrow> 64 word \<Rightarrow> 64 word" where
  "node_id current node sequence = push_bit timestampShift current OR push_bit nodeShift node OR sequence"

definition Generate :: "('w \<Rightarrow> int \<times> 'w) \<Rightarrow> Node \<Rightarrow> 'w \<Rightarrow> (64 word \<times> Node \<times> 'w) option" where
  "Generate now n w =
     (case clock_read now w of
        (current, w1) \<Rightarrow>
          (if current = nd_timestamp n
           then (let sequence = (nd_sequence n + 1) AND sequenceMask in
                 if sequence = 0
                 then (case wait_clock now (nd_timestamp n) current w1 of
                         None \<Rightarrow> None
                       | Some (current', w2) \<Rightarrow>
                           Some (node_id current' (nd_node n) sequence,
                             n\<lparr>nd_sequence := sequence, nd_timestamp := current'\<rparr>, w2))
                 else Some (node_id current (nd_node n) sequence,
                        n\<lparr>nd_sequence := sequence, nd_timestamp := current\<rparr>, w1))
           else Some (node_id current (nd_node n) 0,
                  n\<lparr>nd_sequence := 0, nd_timestamp := current\<rparr>, w1)))"

definition GenerateString :: "('w \<Rightarrow> int \<times> 'w) \<Rightarrow> Node \<Rightarrow> 'w \<Rightarrow> (string \<times> Node \<times> 'w) option" where
  "GenerateString now n w =
     (case Generate now n w of None \<Rightarrow> None | Some (i, n1, w1) \<Rightarrow> Some (show_int (sint i), n1, w1))"

lemmas node_consts = nodeBits_def sequenceBits_def nodeShift_def timestampShift_def

lemma nodeMax_val: "nodeMax = 1023"
  by (simp add: nodeMax_def node_consts mask_eq_exp_minus_1)

lemma sequenceMask_val: "sequenceMask = mask 12"
  by (simp add: sequenceMask_def node_consts mask_eq_exp_minus_1)

section \<open>The fields of an identifier\<close>

text \<open>
  An identifier read as a number: the timestamp, node and sequence side by side. The timestamps
  of the years up to 2093 fit 41 bits.
\<close>

definition in_range :: "64 word \<Rightarrow> bool" where
  "in_range t \<longleftrightarrow> unat t < 2 ^ 41"

definition node_ok :: "Node \<Rightarrow> bool" where
  "node_ok n \<longleftrightarrow> unat (nd_node n) < 2 ^ 10 \<and> unat (nd_sequence n) < 2 ^ 12 \<and> in_range (nd_timestamp n)"

lemma sint_small:
  assumes "unat (x :: 64 word) < 2 ^ 63"
  shows "sint x = int (unat x)"
proof -
  have "uint x < 2 ^ 63" using assms by (metis of_nat_less_iff of_nat_numeral of_nat_power uint_nat)
  moreover have "- (2 ^ 63) \<le> uint x" by (rule order_trans [of _ 0]) simp_all
  ultimately have "signed_take_bit 63 (uint x) = uint x"
    by (intro signed_take_bit_int_eq_self) simp_all
  then have "sint x = uint x" unfolding sint_uint by simp
  then show ?thesis by (rule trans [OF _ uint_nat])
qed

lemma high_bits_clear:
  assumes "unat (x :: 64 word) < 2 ^ k" "k \<le> j"
  shows "\<not> bit x j"
proof -
  have "take_bit k x = x"
    using assms(1) by (intro word_unat_eq_iff [THEN iffD2]) (simp add: unsigned_take_bit_eq take_bit_nat_eq_self)
  then show ?thesis using assms(2) by (metis bit_take_bit_iff not_le)
qed

lemma unat_push_bit_small:
  assumes "unat (x :: 64 word) < 2 ^ k" "k + s \<le> 64"
  shows "unat (push_bit s x) = unat x * 2 ^ s"
proof -
  have "unat x * 2 ^ s < 2 ^ k * 2 ^ s" using assms(1) by simp
  also have "\<dots> \<le> 2 ^ 64" using assms(2) power_increasing [of "k + s" 64 "2 :: nat"] by (simp add: power_add)
  finally show ?thesis unfolding unsigned_push_bit_eq by (simp add: push_bit_eq_mult take_bit_nat_eq_self)
qed

lemma node_id_val:
  assumes t: "unat t < 2 ^ 41" and n: "unat n < 2 ^ 10" and q: "unat q < 2 ^ 12"
  shows "unat (node_id t n q) = unat t * 2 ^ 22 + unat n * 2 ^ 12 + unat q"
proof -
  let ?t = "push_bit 22 t" and ?n = "push_bit 12 n"
  have tn: "?t AND ?n = 0"
    using high_bits_clear [OF n] by (intro bit_word_eqI) (auto simp: bit_and_iff bit_push_bit_iff)
  have tnq: "(?t OR ?n) AND q = 0"
    using high_bits_clear [OF q] by (intro bit_word_eqI) (auto simp: bit_and_iff bit_or_iff bit_push_bit_iff)
  have "unat ?t = unat t * 2 ^ 22" "unat ?n = unat n * 2 ^ 12"
    using unat_push_bit_small [of t 41 22] unat_push_bit_small [of n 10 12] t n by simp_all
  moreover have "node_id t n q = ?t + ?n + q"
    by (simp add: node_id_def node_consts disjunctive_add_eq_or tn tnq or.assoc)
  ultimately show ?thesis using t n q
    by (simp add: unat_word_ariths)
qed

section \<open>Clocks\<close>

text \<open>
  \<open>at w\<close> is the last reading in milliseconds since the generator's epoch: readings never
  decrease.
\<close>

locale monotone_clock =
  fixes at :: "'w \<Rightarrow> int" and now :: "'w \<Rightarrow> int \<times> 'w"
  assumes clock_reading: "clock_read now w = (t, w') \<Longrightarrow> t = word_of_int (at w')"
    and clock_monotone: "clock_read now w = (t, w') \<Longrightarrow> at w \<le> at w'"

text \<open>An identifier read back from the fields the node last used.\<close>

definition last_id :: "Node \<Rightarrow> 64 word" where
  "last_id n = node_id (nd_timestamp n) (nd_node n) (nd_sequence n)"

lemma word_in_range:
  assumes "0 \<le> a" "a < 2 ^ 41"
  shows "unat (word_of_int a :: 64 word) = nat a" "sint (word_of_int a :: 64 word) = a"
proof -
  show u: "unat (word_of_int a :: 64 word) = nat a"
    using assms by (simp add: unat_eq_nat_uint uint_word_of_int)
  then show "sint (word_of_int a :: 64 word) = a"
    using assms sint_small [of "word_of_int a"] by simp
qed

lemma id_order:
  assumes "unat t < 2 ^ 41" "unat t' < 2 ^ 41" "unat n < 2 ^ 10" "unat q < 2 ^ 12" "unat q' < 2 ^ 12"
    and "unat t < unat t' \<or> unat t = unat t' \<and> unat q < unat q'"
  shows "sint (node_id t n q) < sint (node_id t' n q')"
proof -
  have "unat t * 2 ^ 22 + unat n * 2 ^ 12 + unat q < unat t' * 2 ^ 22 + unat n * 2 ^ 12 + unat q'"
    using assms(4,5,6) by (auto simp: Suc_le_eq [symmetric] dest!: Suc_leI)
  then have "int (unat (node_id t n q)) < int (unat (node_id t' n q'))"
    using assms by (simp only: node_id_val of_nat_less_iff)
  moreover have "unat (node_id t n q) < 2 ^ 63" "unat (node_id t' n q') < 2 ^ 63"
    using assms(1-5) by (simp_all add: node_id_val)
  ultimately show ?thesis by (simp only: sint_small)
qed

lemma node_field:
  fixes a b c :: nat
  assumes "a * 2 ^ 22 + b * 2 ^ 12 + c = a' * 2 ^ 22 + b' * 2 ^ 12 + c'"
    and "b < 2 ^ 10" "c < 2 ^ 12" "b' < 2 ^ 10" "c' < 2 ^ 12"
  shows "b = b'"
proof -
  have "(x * 2 ^ 22 + y * 2 ^ 12 + z) div 2 ^ 12 mod 2 ^ 10 = y" if "y < 2 ^ 10" "z < 2 ^ 12" for x y z :: nat
  proof -
    have "x * 2 ^ 22 + y * 2 ^ 12 + z = z + (x * 2 ^ 10 + y) * 2 ^ 12" by simp
    also have "\<dots> div 2 ^ 12 = x * 2 ^ 10 + y" using that(2) by (subst div_mult_self1) simp_all
    finally show ?thesis using that(1) by simp
  qed
  then show ?thesis using assms by metis
qed

lemma sequence_step:
  assumes "unat q < 2 ^ 12"
  shows "unat ((q + 1) AND sequenceMask) = (unat q + 1) mod 2 ^ 12"
  using assms by (simp add: sequenceMask_val flip: take_bit_eq_mask)
    (simp add: unsigned_take_bit_eq take_bit_eq_mod unat_word_ariths)

context monotone_clock
begin

lemma wait_clock_result:
  assumes "wait_clock now ts c w = Some (c', w')" and "c = word_of_int (at w)"
  shows "ts <s c' \<and> c' = word_of_int (at w') \<and> at w \<le> at w'"
proof -
  let ?P = "\<lambda>nw ts c w r. nw = now \<longrightarrow> c = word_of_int (at w) \<longrightarrow>
      ts <s fst r \<and> fst r = word_of_int (at (snd r)) \<and> at w \<le> at (snd r)"
  have "?P now ts c w (c', w')"
  proof (rule wait_clock.raw_induct [OF _ assms(1), where P = ?P], intro impI)
    fix wait nw ts c w r
    assume IH: "\<And>nw ts c w r. wait nw ts c w = Some r \<Longrightarrow> ?P nw ts c w r"
      and step: "(if c \<le>s ts then case clock_read nw w of (c', w1) \<Rightarrow> wait nw ts c' w1 else Some (c, w)) = Some r"
      and nw: "nw = now" and c: "c = word_of_int (at w)"
    obtain d v where read: "clock_read now w = (d, v)" by fastforce
    show "ts <s fst r \<and> fst r = word_of_int (at (snd r)) \<and> at w \<le> at (snd r)"
      using step IH [of now ts d v r] read nw c clock_reading [OF read] clock_monotone [OF read]
      by (auto simp: word_sless_alt word_sle_eq split: if_splits)
  qed
  then have "c = word_of_int (at w) \<longrightarrow> ts <s c' \<and> c' = word_of_int (at w') \<and> at w \<le> at w'"
    by (simp only: fst_conv snd_conv simp_thms)
  then show ?thesis using assms(2) by blast
qed

lemma Generate_result:
  assumes "Generate now n w = Some (i, n', w')"
  shows "i = last_id n' \<and> nd_node n' = nd_node n \<and> at w \<le> at w' \<and> nd_timestamp n' = word_of_int (at w')
    \<and> (nd_sequence n' = 0 \<or> nd_sequence n' = (nd_sequence n + 1) AND sequenceMask)
    \<and> (nd_timestamp n' = nd_timestamp n \<longrightarrow> nd_sequence n' \<noteq> 0)"
proof -
  obtain c v where read: "clock_read now w = (c, v)" by fastforce
  note c = clock_reading [OF read] clock_monotone [OF read]
  show ?thesis
  proof (cases "c = nd_timestamp n \<and> (nd_sequence n + 1) AND sequenceMask = 0")
    case True
    then obtain c' v' where wait: "wait_clock now (nd_timestamp n) c v = Some (c', v')"
      and n': "i = node_id c' (nd_node n) 0" "n' = n\<lparr>nd_sequence := 0, nd_timestamp := c'\<rparr>" "w' = v'"
      using assms read by (auto simp: Generate_def split: option.splits)
    then show ?thesis using wait_clock_result [OF wait c(1)] c
      by (auto simp: last_id_def word_sless_alt)
  next
    case False
    then show ?thesis using assms read c
      by (auto simp: Generate_def last_id_def Let_def split: if_splits)
  qed
qed

lemma Generate_order:
  assumes n: "node_ok n" "int (unat (nd_timestamp n)) \<le> at w"
    and gen: "Generate now n w = Some (i, n', w')" and bound: "at w' < 2 ^ 41"
  shows "sint (last_id n) < sint i" "node_ok n'" "int (unat (nd_timestamp n')) = at w'" "i = last_id n'"
    "nd_node n' = nd_node n" "at w \<le> at w'"
proof -
  note r = Generate_result [OF gen]
  have at: "0 \<le> at w'" using n(2) r by linarith
  have ts: "unat (nd_timestamp n') = nat (at w')" using word_in_range [OF at bound] r by simp
  then show tsi: "int (unat (nd_timestamp n')) = at w'" using at by simp
  have seq: "nd_sequence n' = 0 \<or> unat (nd_sequence n') = (unat (nd_sequence n) + 1) mod 2 ^ 12"
    using r sequence_step n(1) by (auto simp: node_ok_def)
  then show ok: "node_ok n'"
    using n(1) r ts bound at by (auto simp: node_ok_def in_range_def)
  have "unat (nd_timestamp n) < unat (nd_timestamp n') \<or>
      unat (nd_timestamp n) = unat (nd_timestamp n') \<and> unat (nd_sequence n) < unat (nd_sequence n')"
  proof (cases "nd_timestamp n' = nd_timestamp n")
    case True
    then have "nd_sequence n' \<noteq> 0" using r by blast
    then have "unat (nd_sequence n') = (unat (nd_sequence n) + 1) mod 2 ^ 12" "unat (nd_sequence n') \<noteq> 0"
      using seq by (metis, metis unat_eq_zero)
    moreover have "(unat (nd_sequence n) + 1) mod 2 ^ 12 = unat (nd_sequence n) + 1
        \<or> (unat (nd_sequence n) + 1) mod 2 ^ 12 = 0"
      using n(1) by (cases "unat (nd_sequence n) + 1 = 2 ^ 12") (auto simp: node_ok_def)
    ultimately show ?thesis using True by auto
  next
    case False
    then have "unat (nd_timestamp n) \<noteq> unat (nd_timestamp n')" by (metis word_unat_eq_iff)
    then show ?thesis using n(2) tsi r by linarith
  qed
  then show "sint (last_id n) < sint i"
    unfolding r [THEN conjunct1] last_id_def using n(1) ok r
    by (metis id_order in_range_def node_ok_def)
  show "i = last_id n'" "nd_node n' = nd_node n" "at w \<le> at w'" using r by simp_all
qed

end

section \<open>Waiting ends\<close>

definition clock_after :: "('w \<Rightarrow> int \<times> 'w) \<Rightarrow> nat \<Rightarrow> 'w \<Rightarrow> 'w" where
  "clock_after now k w = ((\<lambda>v. snd (clock_read now v)) ^^ k) w"

lemma clock_after_simps [simp]:
  "clock_after now 0 w = w" "clock_after now (Suc k) w = clock_after now k (snd (clock_read now w))"
  by (simp_all add: clock_after_def funpow_Suc_right del: funpow.simps(2))

text \<open>Later readings exceed an early one without jumping out of the 41-bit range.\<close>

locale ticking_clock = monotone_clock +
  assumes clock_ticks: "0 \<le> at w \<Longrightarrow> at w < 2 ^ 41 - 1 \<Longrightarrow>
    \<exists>k. at w < at (clock_after now k w) \<and> at (clock_after now k w) < 2 ^ 41"

begin

lemma wait_clock_returns:
  assumes "0 \<le> a" "a < 2 ^ 41" "a < at (clock_after now k w)" "at (clock_after now k w) < 2 ^ 41" "0 \<le> at w"
  shows "\<exists>r. wait_clock now (word_of_int a) (word_of_int (at w)) w = Some r"
  using assms(3-5)
proof (induction k arbitrary: w)
  case 0
  then show ?case using assms(1,2) word_in_range(2) [of a] word_in_range(2) [of "at w"]
    by (subst wait_clock.simps) (simp add: word_sle_eq)
next
  case (Suc k)
  obtain d v where read: "clock_read now w = (d, v)" by fastforce
  have "at w \<le> at v" "d = word_of_int (at v)"
    using clock_monotone [OF read] clock_reading [OF read] by auto
  then have "\<exists>r. wait_clock now (word_of_int a) d v = Some r"
    using Suc.IH [of v] Suc.prems read by auto
  then show ?case by (subst wait_clock.simps) (simp add: read)
qed

lemma Generate_returns:
  assumes "node_ok n" "0 \<le> at w" "at (snd (clock_read now w)) < 2 ^ 41 - 1"
  shows "\<exists>r. Generate now n w = Some r"
proof -
  obtain c v where read: "clock_read now w = (c, v)" by fastforce
  have v: "0 \<le> at v" "at v < 2 ^ 41 - 1" and c: "c = word_of_int (at v)"
    using clock_monotone [OF read] clock_reading [OF read] assms read by auto
  obtain k where "at v < at (clock_after now k v)" "at (clock_after now k v) < 2 ^ 41"
    using clock_ticks [OF v] by blast
  then have "\<exists>r. wait_clock now c c v = Some r"
    unfolding c using v by (intro wait_clock_returns) auto
  then show ?thesis using read by (auto simp: Generate_def Let_def split: option.split)
qed

end

section \<open>A run of calls\<close>

fun generate_ids :: "('w \<Rightarrow> int \<times> 'w) \<Rightarrow> nat \<Rightarrow> Node \<Rightarrow> 'w \<Rightarrow> (64 word list \<times> Node \<times> 'w) option" where
  "generate_ids now 0 n w = Some ([], n, w)"
| "generate_ids now (Suc k) n w =
     (case Generate now n w of
        None \<Rightarrow> None
      | Some (i, n1, w1) \<Rightarrow>
          (case generate_ids now k n1 w1 of
             None \<Rightarrow> None
           | Some (ids, n2, w2) \<Rightarrow> Some (i # ids, n2, w2)))"

context monotone_clock
begin

lemma generate_ids_clock: "generate_ids now k n w = Some (ids, n', w') \<Longrightarrow> at w \<le> at w'"
proof (induction k arbitrary: n w ids)
  case (Suc k)
  then obtain i n1 w1 js where "Generate now n w = Some (i, n1, w1)"
    and "generate_ids now k n1 w1 = Some (js, n', w')"
    by (auto split: option.splits)
  then show ?case using Suc.IH Generate_result by fastforce
qed simp

lemma generate_ids_order:
  assumes "generate_ids now k n w = Some (ids, n', w')" "node_ok n"
    "int (unat (nd_timestamp n)) \<le> at w" "at w' < 2 ^ 41"
  shows "sorted_wrt (<) (map sint (last_id n # ids))"
  using assms
proof (induction k arbitrary: n w ids)
  case (Suc k)
  obtain i n1 w1 js where gen: "Generate now n w = Some (i, n1, w1)"
    and rest: "generate_ids now k n1 w1 = Some (js, n', w')" and ids: "ids = i # js"
    using Suc.prems(1) by (auto split: option.splits)
  have "at w1 \<le> at w'" by (rule generate_ids_clock [OF rest])
  then have bound: "at w1 < 2 ^ 41" using Suc.prems(4) by linarith
  note g = Generate_order [OF Suc.prems(2,3) gen bound]
  have "sorted_wrt (<) (map sint (i # js))"
    using Suc.IH [OF rest g(2)] g(3,4) Suc.prems(4) by simp
  then show ?case using g(1) ids by (auto intro: less_trans)
qed simp

end

section \<open>The reference store's clock\<close>

definition mem_ms :: "'o mem \<Rightarrow> int" where
  "mem_ms w = (mem_clock w - 1000000) div 1000000 - 62135596800000 - 1704067200000"

lemma mem_clock_read:
  "clock_read (time_Now (mem_ext flaky run num jsonb)) w
    = (word_of_int (mem_ms w + 1), w\<lparr>mem_clock := mem_clock w + 1000000\<rparr>)"
proof -
  have "(mem_clock w - 1000000) div 1000000 = mem_clock w div 1000000 - 1" by simp
  then show ?thesis
    by (simp add: clock_read_def mem_ext_def UnixMilli_def epoch_def mem_ms_def) 
qed

lemma mem_ms_tick: "mem_ms (w\<lparr>mem_clock := mem_clock w + 1000000\<rparr>) = mem_ms w + 1"
proof -
  have "(mem_clock w - 1000000) div 1000000 = mem_clock w div 1000000 - 1" by simp
  then show ?thesis by (simp add: mem_ms_def)
qed

interpretation mem_time: ticking_clock mem_ms "time_Now (mem_ext flaky run num jsonb)"
  for flaky run num jsonb
  by unfold_locales
    (auto simp: mem_clock_read mem_ms_tick intro!: exI [of _ 1])

section \<open>Properties\<close>

text \<open>C20: identifiers grow. As long as the clock does not go back and stays in the 41-bit range, the
  identifiers a node generates are strictly increasing, so no two of them coincide, and each is
  larger than the node's last one.\<close>

theorem ids_strictly_increase:
  assumes "monotone_clock at now" "node_ok n" "int (unat (nd_timestamp n)) \<le> at w"
    and "generate_ids now k n w = Some (ids, n', w')" "at w' < 2 ^ 41"
  shows "sorted_wrt (<) (map sint (last_id n # ids)) \<and> distinct ids"
proof -
  have sorted: "sorted_wrt (<) (map sint (last_id n # ids))"
    by (rule monotone_clock.generate_ids_order [OF assms(1,4,2,3,5)])
  then have "distinct (map sint ids)" by (simp add: strict_sorted_iff)
  with sorted show ?thesis by (simp add: distinct_map)
qed


text \<open>C22: \<^verbatim>\<open>Generate\<close> returns. On a clock that keeps ticking the wait for the next millisecond, when
  a node's 4096 identifiers of one millisecond are used up, comes to an end.\<close>

theorem generate_terminates:
  assumes "ticking_clock at now" "node_ok n" "0 \<le> at w" "at (snd (clock_read now w)) < 2 ^ 41 - 1"
  shows "\<exists>i n' w'. Generate now n w = Some (i, n', w')"
  using ticking_clock.Generate_returns [OF assms] by auto

text \<open>The price of a clock that goes back. A node whose clock reads \<open>c\<close>, then another
  millisecond, then \<open>c\<close> again issues the identifier of the first call a second time.\<close>

theorem clock_step_back_duplicates:
  assumes "clock_read now w = (c, w1)" "c \<noteq> nd_timestamp n"
    and "clock_read now w1 = (d, w2)" "d \<noteq> c"
    and "clock_read now w2 = (c, w3)"
  shows "\<exists>i j n'. generate_ids now 3 n w = Some ([i, j, i], n', w3)"
  using assms by (simp add: eval_nat_numeral Generate_def)

text \<open>An order number identifies the identifier it was made from.\<close>

theorem order_number_injective:
  assumes "GenerateString now n w = Some (s, n', w')" "GenerateString now2 m v = Some (s, m', v')"
  shows "map_option fst (Generate now n w) = map_option fst (Generate now2 m v)"
proof -
  have inj: "show_int (sint i) = show_int (sint j) \<Longrightarrow> i = j" for i j :: "64 word"
    by (metis option.inject parse_show_int signed_word_eqI)
  show ?thesis using assms inj by (auto simp: GenerateString_def split: option.splits)
qed

section \<open>The generator on concrete clocks\<close>

definition demo_node :: Node where
  "demo_node = \<lparr>nd_timestamp = 5, nd_node = 1, nd_sequence = 4094\<rparr>"

text \<open>A world whose next reading is the given millisecond.\<close>

definition demo_clock :: "int \<Rightarrow> unit mem" where
  "demo_clock ms = mem_empty\<lparr>mem_clock := (62135596800000 + 1704067200000 + ms) * 1000000\<rparr>"

text \<open>A clock that shows the listed milliseconds.\<close>

definition script_clock :: "int list \<Rightarrow> int \<times> int list" where
  "script_clock ts = ((hd ts + 1704067200000 + 62135596800000) * 1000000, tl ts)"

lemma script_clock_read: "clock_read script_clock (t # ts) = (word_of_int t, ts)"
  by (simp add: clock_read_def script_clock_def UnixMilli_def epoch_def)

lemma demo_node_ok: "node_ok demo_node" "int (unat (nd_timestamp demo_node)) = 5"
  by (simp_all add: demo_node_def node_ok_def in_range_def)

lemma mem_ms_demo: "mem_ms (demo_clock ms) = ms - 1"
proof -
  have "((62135596800000 + 1704067200000 + ms) * 1000000 - 1000000) div 1000000
      = 62135596800000 + 1704067200000 + ms - 1" by simp
  then show ?thesis by (simp add: mem_ms_def demo_clock_def)
qed

theorem generate_terminates_witness:
  "\<exists>i n' w'. Generate (time_Now (demo_ext False)) demo_node (demo_clock 6) = Some (i, n', w')"
  by (rule generate_terminates [OF mem_time.ticking_clock_axioms demo_node_ok(1)])
    (simp_all add: mem_ms_demo mem_clock_read mem_ms_tick)

lemma demo_run:
  "case generate_ids (time_Now (demo_ext False)) 2 demo_node (demo_clock 6) of
     None \<Rightarrow> False | Some (ids, n', w') \<Rightarrow> map sint ids = [25169920, 29364224] \<and> mem_ms w' < 2 ^ 41"
  by code_simp

theorem ids_strictly_increase_witness:
  "\<exists>ids n' w'. generate_ids (time_Now (demo_ext False)) 2 demo_node (demo_clock 6) = Some (ids, n', w')
    \<and> map sint ids = [25169920, 29364224] \<and> distinct ids"
proof -
  obtain ids n' w' where run: "generate_ids (time_Now (demo_ext False)) 2 demo_node (demo_clock 6) = Some (ids, n', w')"
      "map sint ids = [25169920, 29364224]" "mem_ms w' < 2 ^ 41"
    using demo_run by (auto split: option.splits prod.splits)
  have "int (unat (nd_timestamp demo_node)) \<le> mem_ms (demo_clock 6)"
    using demo_node_ok(2) mem_ms_demo [of 6] by linarith
  from ids_strictly_increase [OF mem_time.monotone_clock_axioms demo_node_ok(1) this run(1,3)]
  show ?thesis using run(1,2) by (intro exI [of _ ids] exI [of _ n'] exI [of _ w']) simp
qed

text \<open>Two nodes read the same millisecond.\<close>

lemma demo_pair:
  "case (Generate (time_Now (demo_ext False)) demo_node (demo_clock 6),
         Generate (time_Now (demo_ext False)) (demo_node\<lparr>nd_node := 2\<rparr>) (demo_clock 6)) of
     (Some (i, n', w'), Some (j, m', v')) \<Rightarrow> mem_ms w' < 2 ^ 41 \<and> mem_ms v' < 2 ^ 41
   | _ \<Rightarrow> False"
  by code_simp


theorem clock_step_back_duplicates_witness:
  "\<exists>i j n'. generate_ids script_clock 3 demo_node [6, 7, 6] = Some ([i, j, i], n', [])"
  by (rule clock_step_back_duplicates [where c = 6 and d = 7 and ?w1.0 = "[7, 6]" and ?w2.0 = "[6]"])
    (simp_all add: script_clock_read demo_node_def)

text \<open>Nodes that differ in the sequence of an earlier millisecond only.\<close>

theorem order_number_injective_witness:
  "map_option fst (Generate script_clock demo_node [6])
    = map_option fst (Generate script_clock (demo_node\<lparr>nd_sequence := 0\<rparr>) [6])"
proof -
  have gen: "GenerateString script_clock (demo_node\<lparr>nd_sequence := q\<rparr>) [6]
      = Some (show_int (sint (node_id 6 1 0)), \<lparr>nd_timestamp = 6, nd_node = 1, nd_sequence = 0\<rparr>, [])" for q
    by (simp add: GenerateString_def Generate_def script_clock_read demo_node_def)
  show ?thesis
    using order_number_injective [OF gen [of 4094] gen [of 0]] by (simp add: demo_node_def)
qed

end
