(* ===== verification/Invariants.thy ===== *)
theory Invariants
  imports Runtime
begin

text \<open>
  Invariants of the tables under the program's operations, while other sessions run: \<open>keeps\<close> says
  that a call never leaves the predicate \<open>P\<close>. It composes along the sequencing of the model, so an
  operation keeps \<open>P\<close> when its statements do. \<open>invariant_runtime\<close> is the runtime with a predicate
  that the other sessions keep.
\<close>

definition keeps :: "('w \<Rightarrow> tables) \<Rightarrow> (tables \<Rightarrow> bool) \<Rightarrow> ('w \<Rightarrow> 'x \<times> 'w) \<Rightarrow> bool" where
  "keeps db P f \<longleftrightarrow> (\<forall>w r w'. f w = (r, w') \<longrightarrow> P (db w) \<longrightarrow> P (db w'))"

named_theorems keeps_intros \<open>a call keeps the invariant when its parts do\<close>

lemma keepsI: "(\<And>w r w'. f w = (r, w') \<Longrightarrow> P (db w) \<Longrightarrow> P (db w')) \<Longrightarrow> keeps db P f"
  by (simp add: keeps_def)

lemma keepsD: "keeps db P f \<Longrightarrow> f w = (r, w') \<Longrightarrow> P (db w) \<Longrightarrow> P (db w')"
  by (simp add: keeps_def)

lemma keeps_return [keeps_intros]: "keeps db P (\<lambda>w. (r, w))"
  by (simp add: keeps_def)

lemma keeps_bind [keeps_intros]:
  assumes "keeps db P f" "\<And>r. keeps db P (g r)"
  shows "keeps db P (\<lambda>w. case f w of (r, w1) \<Rightarrow> g r w1)"
  using assms unfolding keeps_def by (fastforce split: prod.splits)

lemma keeps_sum [keeps_intros]:
  "(\<And>e. keeps db P (f e)) \<Longrightarrow> (\<And>x. keeps db P (g x)) \<Longrightarrow>
    keeps db P (\<lambda>w. case r of Inl e \<Rightarrow> f e w | Inr x \<Rightarrow> g x w)"
  by (cases r) simp_all

lemma keeps_option [keeps_intros]:
  "keeps db P f \<Longrightarrow> (\<And>x. keeps db P (g x)) \<Longrightarrow> keeps db P (\<lambda>w. case r of None \<Rightarrow> f w | Some x \<Rightarrow> g x w)"
  by (cases r) simp_all

lemma keeps_if [keeps_intros]:
  "keeps db P f \<Longrightarrow> keeps db P g \<Longrightarrow> keeps db P (\<lambda>w. if b then f w else g w)"
  by (cases b) simp_all

lemma keeps_if_value [keeps_intros]: "keeps db P (\<lambda>w. (if b then r else s, w))"
  by (simp add: keeps_def)

lemma keeps_no_capture [keeps_intros]: "keeps db P f \<Longrightarrow> keeps db P (\<lambda>w. no_capture (f w))"
  unfolding keeps_def no_capture_def by (metis map_prod_simp prod.collapse prod.inject id_apply)

text \<open>The same for a call that may not return and threads the state of a generator.\<close>

definition keeps_maybe :: "('w \<Rightarrow> tables) \<Rightarrow> (tables \<Rightarrow> bool) \<Rightarrow> ('w \<Rightarrow> ('x \<times> 'n \<times> 'w) option) \<Rightarrow> bool" where
  "keeps_maybe db P f \<longleftrightarrow> (\<forall>w r n w'. f w = Some (r, n, w') \<longrightarrow> P (db w) \<longrightarrow> P (db w'))"

lemma keeps_maybeD: "keeps_maybe db P f \<Longrightarrow> f w = Some (r, n, w') \<Longrightarrow> P (db w) \<Longrightarrow> P (db w')"
  unfolding keeps_maybe_def by blast

lemma keeps_maybe_return [keeps_intros]: "keeps_maybe db P (\<lambda>w. Some (r, n, w))"
  by (simp add: keeps_maybe_def)

lemma keeps_maybe_bind [keeps_intros]:
  assumes "keeps db P f" "\<And>r. keeps_maybe db P (g r)"
  shows "keeps_maybe db P (\<lambda>w. case f w of (r, w1) \<Rightarrow> g r w1)"
  using assms unfolding keeps_def keeps_maybe_def by (fastforce split: prod.splits)

lemma keeps_maybe_generate [keeps_intros]:
  assumes "keeps_maybe db P f" "\<And>r n. keeps_maybe db P (g r n)"
  shows "keeps_maybe db P (\<lambda>w. case f w of None \<Rightarrow> None | Some (r, n, w1) \<Rightarrow> g r n w1)"
  using assms unfolding keeps_maybe_def by (fastforce split: option.splits)

lemma keeps_maybe_sum [keeps_intros]:
  "(\<And>e. keeps_maybe db P (f e)) \<Longrightarrow> (\<And>x. keeps_maybe db P (g x)) \<Longrightarrow>
    keeps_maybe db P (\<lambda>w. case r of Inl e \<Rightarrow> f e w | Inr x \<Rightarrow> g x w)"
  by (cases r) simp_all

lemma keeps_maybe_option [keeps_intros]:
  "keeps_maybe db P f \<Longrightarrow> (\<And>x. keeps_maybe db P (g x)) \<Longrightarrow>
    keeps_maybe db P (\<lambda>w. case r of None \<Rightarrow> f w | Some x \<Rightarrow> g x w)"
  by (cases r) simp_all

lemma keeps_maybe_if [keeps_intros]:
  "keeps_maybe db P f \<Longrightarrow> keeps_maybe db P g \<Longrightarrow> keeps_maybe db P (\<lambda>w. if b then f w else g w)"
  by (cases b) simp_all

locale invariant_runtime = runtime +
  fixes P :: "tables \<Rightarrow> bool"
  assumes stable: "rely d d' \<Longrightarrow> P d \<Longrightarrow> P d'"

begin

lemma keeps_rely: "(\<And>w r w'. f w = (r, w') \<Longrightarrow> rely (db w) (db w')) \<Longrightarrow> keeps db P f"
  unfolding keeps_def using stable by blast

lemma keeps_same: "(\<And>w r w'. f w = (r, w') \<Longrightarrow> db w' = db w) \<Longrightarrow> keeps db P f"
  unfolding keeps_def by metis

lemma keeps_write:
  "(\<And>w r w'. f w = (r, w') \<Longrightarrow> \<exists>d. rely (db w) d \<and> (P d \<longrightarrow> P (db w'))) \<Longrightarrow> keeps db P f"
  unfolding keeps_def using stable by blast

text \<open>Reads, Redis, Kafka and the process inputs keep every invariant.\<close>

lemma keeps_reads [keeps_intros]:
  "keeps db P (db_First (inventories_tbl X) p)" "keeps db P (db_First (orders_tbl X) q)"
  "keeps db P (db_First (products_tbl X) s)" "keeps db P (db_FirstForUpdate (orders_tbl X) q)"
  "keeps db P (db_Count (orders_tbl X) q)"
  by (rule keeps_rely, drule inv.First_law, simp) (rule keeps_rely, drule ord.First_law, simp,
    rule keeps_rely, drule prod.First_law, simp, rule keeps_rely, drule ord.FirstForUpdate_law, simp,
    rule keeps_rely, drule ord.Count_law, simp)

lemma keeps_redis [keeps_intros]:
  "keeps db P (rdb_SetNX X k v ttl)" "keeps db P (rdb_Get X k)" "keeps db P (rdb_Set X k v ttl)"
  "keeps db P (rdb_Del X k)" "keeps db P (rdb_DecrBy X k n)" "keeps db P (rdb_IncrBy X k n)"
  by (rule keeps_same, drule rdb.SetNX_law, simp) (rule keeps_same, drule rdb.Get_law, simp,
    rule keeps_same, drule rdb.Set_law, simp, rule keeps_same, drule rdb.Del_law, simp,
    rule keeps_same, drule rdb.DecrBy_law, simp, rule keeps_same, drule rdb.IncrBy_law, simp)

lemma keeps_inputs [keeps_intros]:
  "keeps db P (time_Now X)" "keeps db P (uuid_New X)" "keeps db P (rand_Float64 X)" "keeps db P (rand_Intn X n)"
  by (rule keeps_same, drule inp.Now_law, simp) (rule keeps_same, drule inp.New_law, simp,
    rule keeps_same, drule inp.Float64_law, simp, rule keeps_same, drule inp.Intn_law, simp)

text \<open>A write keeps an invariant that its effect on the table keeps.\<close>

lemma keeps_inventories:
  assumes "\<And>d rows. P d \<Longrightarrow> P (d\<lparr>t_inventories := rows\<rparr>)"
  shows "keeps db P (db_Updates (inventories_tbl X) p f)"
  by (rule keeps_write, drule inv.Updates_law) (use assms in fastforce)

lemma keeps_outbox:
  assumes "\<And>d rows. P d \<Longrightarrow> P (d\<lparr>t_outbox := rows\<rparr>)"
  shows "keeps db P (db_Create (outbox_tbl X) row)"
  by (rule keeps_write, drule ob.Create_law) (use assms in fastforce)

lemma keeps_order_create:
  assumes "\<And>d rows r. P d \<Longrightarrow> create_result (order_schema num) row (t_orders d) rows r \<Longrightarrow> P (d\<lparr>t_orders := rows\<rparr>)"
  shows "keeps db P (db_Create (orders_tbl X) row)"
  by (rule keeps_write, drule ord.Create_law) (use assms in fastforce)

lemma keeps_order_update:
  assumes "\<And>d rows r. P d \<Longrightarrow> update_result (order_schema num) p f (t_orders d) rows r \<Longrightarrow> P (d\<lparr>t_orders := rows\<rparr>)"
  shows "keeps db P (db_Updates (orders_tbl X) p f)"
  by (rule keeps_write, drule ord.Updates_law) (use assms in fastforce)

lemma keeps_transaction [keeps_intros]:
  assumes "keeps db P f"
  shows "keeps db P (db_Transaction X f)"
proof (rule keepsI)
  fix w r w' assume run: "db_Transaction X f w = (r, w')" and P: "P (db w)"
  show "P (db w')"
  proof (cases r)
    case (Inl e)
    then have "rely (db w) (db w')" using tx.Transaction_law [OF run] by (simp add: tx_result_def)
    then show ?thesis using P by (rule stable)
  next
    case (Inr u)
    then obtain w1 w2 where "rely (db w) (db w1)" "f w1 = (Inr u, w2)" "rely (db w2) (db w')"
      using tx.Transaction_law [OF run] by (auto simp: tx_result_def)
    then show ?thesis using P stable keepsD [OF assms] by blast
  qed
qed

end

end
