(* ===== verification/Order.thy ===== *)
theory Order
  imports Product Inventory_Events Snowflake Invariants
begin

text \<open>
  \<^verbatim>\<open>internal/order\<close>, repository.go, service.go and seckill\_service.go: the statements on the
  orders table, the synchronous order service (\<^verbatim>\<open>CreateOrder\<close>, \<^verbatim>\<open>CancelOrder\<close>), and the
  flash-sale service, which takes stock in Redis and leaves the rest to the saga. The services hold
  the snowflake node, which \<^verbatim>\<open>CreateOrder\<close> and \<^verbatim>\<open>Seckill\<close> thread through; they do not
  return when the order number's clock stands still, hence the option.
\<close>

section \<open>repository.go\<close>

definition OrderRepository_Transaction ::
    "'w ext \<Rightarrow> ('w \<Rightarrow> (go_error + captured) \<times> 'w) \<Rightarrow> 'w \<Rightarrow> (go_error + captured) \<times> 'w" where
  "OrderRepository_Transaction X fn w = db_Transaction X fn w"

definition OrderRepository_Create :: "('w, Order) table_api \<Rightarrow> Order \<Rightarrow> 'w \<Rightarrow> (go_error + Order) \<times> 'w" where
  "OrderRepository_Create db od w = db_Create db od w"

definition CreateTx :: "('w, Order) table_api \<Rightarrow> Order \<Rightarrow> 'w \<Rightarrow> (go_error + Order) \<times> 'w" where
  "CreateTx tx od w = db_Create tx od w"

definition Repository_GetOrderByID :: "('w, Order) table_api \<Rightarrow> nat \<Rightarrow> 'w \<Rightarrow> (go_error + Order) \<times> 'w" where
  "Repository_GetOrderByID db i w = db_First db (\<lambda>x. ord_ID x = i) w"

definition GetOrderByIDForUpdate :: "('w, Order) table_api \<Rightarrow> nat \<Rightarrow> 'w \<Rightarrow> (go_error + Order) \<times> 'w" where
  "GetOrderByIDForUpdate tx i w = db_FirstForUpdate tx (\<lambda>x. ord_ID x = i) w"

definition GetOrderByUserID ::
    "('w, Order) table_api \<Rightarrow> nat \<Rightarrow> int \<Rightarrow> int \<Rightarrow> 'w \<Rightarrow> (go_error + Order list \<times> int) \<times> 'w" where
  "GetOrderByUserID db userID page pageSize w =
     (case db_Count db (\<lambda>x. ord_UserID x = userID) w of
        (counted, w1) \<Rightarrow>
          (let total = (case counted of Inl _ \<Rightarrow> 0 | Inr n \<Rightarrow> int n);
               offset = wrap64 (wrap64 (page - 1) * pageSize) in
           case db_Find db (\<lambda>x. ord_UserID x = userID) (\<lambda>x. - ord_CreatedAt x) offset pageSize w1 of
             (Inl err, w2) \<Rightarrow> (Inl err, w2)
           | (Inr orders, w2) \<Rightarrow> (Inr (orders, total), w2)))"

definition UpdateStatus :: "('w, Order) table_api \<Rightarrow> nat \<Rightarrow> int \<Rightarrow> 'w \<Rightarrow> (go_error + unit) \<times> 'w" where
  "UpdateStatus db orderID status w =
     (case db_Updates db (\<lambda>x. ord_ID x = orderID) (\<lambda>x. x\<lparr>ord_Status := status\<rparr>) w of
        (Inl err, w1) \<Rightarrow> (Inl err, w1) | (Inr _, w1) \<Rightarrow> (Inr (), w1))"

definition UpdateStatusTx :: "('w, Order) table_api \<Rightarrow> nat \<Rightarrow> int \<Rightarrow> 'w \<Rightarrow> (go_error + unit) \<times> 'w" where
  "UpdateStatusTx tx orderID status w =
     (case db_Updates tx (\<lambda>x. ord_ID x = orderID) (\<lambda>x. x\<lparr>ord_Status := status\<rparr>) w of
        (Inl err, w1) \<Rightarrow> (Inl err, w1) | (Inr _, w1) \<Rightarrow> (Inr (), w1))"

definition ExistsByUserAndProduct :: "('w, Order) table_api \<Rightarrow> nat \<Rightarrow> nat \<Rightarrow> 'w \<Rightarrow> (go_error + bool) \<times> 'w" where
  "ExistsByUserAndProduct db userID productID w =
     (case db_Count db (\<lambda>x. ord_UserID x = userID \<and> ord_ProductID x = productID) w of
        (Inl err, w1) \<Rightarrow> (Inl err, w1) | (Inr n, w1) \<Rightarrow> (Inr (0 < n), w1))"

definition GetOrderByOrderNo :: "('w, Order) table_api \<Rightarrow> string \<Rightarrow> 'w \<Rightarrow> (go_error + Order) \<times> 'w" where
  "GetOrderByOrderNo db orderNo w = db_First db (\<lambda>x. ord_OrderNo x = orderNo) w"

definition UpdateStatusByOrderNo :: "('w, Order) table_api \<Rightarrow> string \<Rightarrow> int \<Rightarrow> 'w \<Rightarrow> (go_error + unit) \<times> 'w" where
  "UpdateStatusByOrderNo db orderNo status w =
     (case db_Updates db (\<lambda>x. ord_OrderNo x = orderNo) (\<lambda>x. x\<lparr>ord_Status := status\<rparr>) w of
        (Inl err, w1) \<Rightarrow> (Inl err, w1)
      | (Inr rowsAffected, w1) \<Rightarrow> (if rowsAffected = 0 then Inl ErrRecordNotFound else Inr (), w1))"

definition UpdateStatusByOrderNoTx :: "('w, Order) table_api \<Rightarrow> string \<Rightarrow> int \<Rightarrow> 'w \<Rightarrow> (go_error + unit) \<times> 'w" where
  "UpdateStatusByOrderNoTx tx orderNo status w =
     (case db_Updates tx (\<lambda>x. ord_OrderNo x = orderNo) (\<lambda>x. x\<lparr>ord_Status := status\<rparr>) w of
        (Inl err, w1) \<Rightarrow> (Inl err, w1)
      | (Inr rowsAffected, w1) \<Rightarrow> (if rowsAffected = 0 then Inl ErrRecordNotFound else Inr (), w1))"

section \<open>service.go\<close>

text \<open>
  The check that a user has not bought the product yet, the same code in \<^verbatim>\<open>CreateOrder\<close> and
  \<^verbatim>\<open>Seckill\<close>: the error to return with, or none.
\<close>

definition claim_purchase :: "'w ext \<Rightarrow> nat \<Rightarrow> nat \<Rightarrow> 'w \<Rightarrow> go_error option \<times> 'w" where
  "claim_purchase X userID productID w =
     (case rdb_SetNX X (idempotencyKey userID productID) (Text ''1'') (24 * 3600 * second) w of
        (Inl err, w1) \<Rightarrow>
          (case ExistsByUserAndProduct (orders_tbl X) userID productID w1 of
             (Inl dbErr, w2) \<Rightarrow> (Some dbErr, w2)
           | (Inr found, w2) \<Rightarrow> (if found then Some ErrDuplicateOrder else None, w2))
      | (Inr was_set, w1) \<Rightarrow> (if was_set then None else Some ErrDuplicateOrder, w1))"

definition CreateOrder_tx :: "'w ext \<Rightarrow> CreateOrderRequest \<Rightarrow> Order \<Rightarrow> 'w \<Rightarrow> (go_error + captured) \<times> 'w" where
  "CreateOrder_tx X req od w =
     (case Deduct (inventories_tbl X) (cor_ProductID req) (cor_Quantity req) w of
        (Inl err, w1) \<Rightarrow> (Inl err, w1)
      | (Inr _, w1) \<Rightarrow>
          (case CreateTx (orders_tbl X) od w1 of
             (Inl err, w2) \<Rightarrow> (Inl err, w2)
           | (Inr created, w2) \<Rightarrow> (Inr (Some created), w2)))"

definition CreateOrder ::
    "'w ext \<Rightarrow> Node \<Rightarrow> nat \<Rightarrow> CreateOrderRequest \<Rightarrow> 'w \<Rightarrow> ((go_error + Order) \<times> Node \<times> 'w) option" where
  "CreateOrder X node userID req w =
     (case claim_purchase X userID (cor_ProductID req) w of
        (Some err, w1) \<Rightarrow> Some (Inl err, node, w1)
      | (None, w1) \<Rightarrow>
          (case ProductService_GetProductByID (products_tbl X) (cor_ProductID req) w1 of
             (Inl err, w2) \<Rightarrow>
               Some (Inl (if errors_is err ProdErrProductNotFound then ErrProductNotFound else err), node, w2)
           | (Inr p, w2) \<Rightarrow>
               (if prod_Status p \<noteq> 1 then Some (Inl ErrProductOffSale, node, w2)
                else
                  (case GenerateString (time_Now X) node w2 of
                     None \<Rightarrow> None
                   | Some (orderNo, node1, w3) \<Rightarrow>
                       (let od = \<lparr>ord_ID = 0, ord_OrderNo = orderNo, ord_UserID = userID,
                                 ord_ProductID = cor_ProductID req, ord_Quantity = cor_Quantity req,
                                 ord_TotalPrice = f64_mul (prod_Price p) (f64_of_int (cor_Quantity req)),
                                 ord_Status = 0, ord_CreatedAt = 0, ord_UpdatedAt = 0\<rparr> in
                        (case OrderRepository_Transaction X (CreateOrder_tx X req od) w3 of
                           (Inl err, w4) \<Rightarrow>
                             (case rdb_Del X (idempotencyKey userID (cor_ProductID req)) w4 of
                                (_, w5) \<Rightarrow>
                                  Some (Inl (if errors_is err InvErrInventoryNotFound \<or> errors_is err InvErrStockInsufficient
                                             then ErrStockInsufficient else err), node1, w5))
                         | (Inr assigned, w4) \<Rightarrow>
                             Some (Inr (case assigned of None \<Rightarrow> od | Some created \<Rightarrow> created), node1, w4)))))))"

definition GetOrderByID :: "('w, Order) table_api \<Rightarrow> nat \<Rightarrow> nat \<Rightarrow> 'w \<Rightarrow> (go_error + Order) \<times> 'w" where
  "GetOrderByID db userID orderID w =
     (case Repository_GetOrderByID db orderID w of
        (Inl err, w1) \<Rightarrow>
          (if errors_is err ErrRecordNotFound then (Inl ErrOrderNotFound, w1) else (Inl err, w1))
      | (Inr od, w1) \<Rightarrow> (if ord_UserID od \<noteq> userID then Inl ErrNotOrderOwner else Inr od, w1))"

definition ListOrderByUser ::
    "('w, Order) table_api \<Rightarrow> nat \<Rightarrow> int \<Rightarrow> int \<Rightarrow> 'w \<Rightarrow> (go_error + Order list \<times> int) \<times> 'w" where
  "ListOrderByUser db userID page pageSize w = GetOrderByUserID db userID page pageSize w"

definition CancelOrder_tx :: "'w ext \<Rightarrow> nat \<Rightarrow> nat \<Rightarrow> 'w \<Rightarrow> (go_error + captured) \<times> 'w" where
  "CancelOrder_tx X userID orderID w =
     (case GetOrderByIDForUpdate (orders_tbl X) orderID w of
        (Inl err, w1) \<Rightarrow> (Inl err, w1)
      | (Inr od, w1) \<Rightarrow>
          (if ord_UserID od \<noteq> userID then (Inl ErrNotOrderOwner, w1)
           else if ord_Status od \<noteq> StatusPending then (Inl ErrOrderNotPending, w1)
           else
             (case Return (inventories_tbl X) (ord_ProductID od) (ord_Quantity od) w1 of
                (Inl err, w2) \<Rightarrow> (Inl err, w2)
              | (Inr _, w2) \<Rightarrow>
                  (case UpdateStatusTx (orders_tbl X) orderID StatusCancelled w2 of
                     (Inl err, w3) \<Rightarrow> (Inl err, w3)
                   | (Inr _, w3) \<Rightarrow> (Inr (Some od), w3)))))"

text \<open>An unassigned order would be a nil pointer here.\<close>

definition CancelOrder :: "'w ext \<Rightarrow> nat \<Rightarrow> nat \<Rightarrow> 'w \<Rightarrow> (go_error + Order) \<times> 'w" where
  "CancelOrder X userID orderID w =
     (case OrderRepository_Transaction X (CancelOrder_tx X userID orderID) w of
        (Inl err, w1) \<Rightarrow>
          (if errors_is err ErrRecordNotFound then (Inl ErrOrderNotFound, w1)
           else if errors_is err ErrNotOrderOwner then (Inl ErrNotOrderOwner, w1)
           else if errors_is err ErrOrderNotPending then (Inl ErrOrderNotPending, w1)
           else (Inl err, w1))
      | (Inr None, w1) \<Rightarrow> (Inl (ErrExternal ''nil pointer dereference''), w1)
      | (Inr (Some od), w1) \<Rightarrow> (Inr (od\<lparr>ord_Status := StatusCancelled\<rparr>), w1))"

section \<open>seckill\_service.go\<close>

definition Seckill_tx :: "'w ext \<Rightarrow> Order \<Rightarrow> 'w \<Rightarrow> (go_error + unit) \<times> 'w" where
  "Seckill_tx X od w =
     (case db_Create (orders_tbl X) od w of
        (Inl err, w1) \<Rightarrow> (Inl err, w1)
      | (Inr _, w1) \<Rightarrow>
          (case uuid_New X w1 of (eventID, w2) \<Rightarrow>
             (case time_Now X w2 of (now, w3) \<Rightarrow>
                WriteEvent (outbox_tbl X) ''order'' (ord_OrderNo od) OrderCreated TopicOrderEvents
                  (PayOrderCreated
                     \<lparr>ev_EventID = eventID, ev_EventType = OrderCreated, ev_Timestamp = now,
                      oc_OrderNo = ord_OrderNo od, oc_UserID = ord_UserID od, oc_ProductID = ord_ProductID od,
                      oc_Quantity = ord_Quantity od, oc_TotalPrice = ord_TotalPrice od\<rparr>) w3)))"

definition Seckill ::
    "'w ext \<Rightarrow> Node \<Rightarrow> nat \<Rightarrow> CreateOrderRequest \<Rightarrow> 'w \<Rightarrow> ((go_error + string) \<times> Node \<times> 'w) option" where
  "Seckill X node userID req w =
     (let key = idempotencyKey userID (cor_ProductID req) in
      case claim_purchase X userID (cor_ProductID req) w of
        (Some err, w1) \<Rightarrow> Some (Inl err, node, w1)
      | (None, w1) \<Rightarrow>
          (case ProductService_GetProductByID (products_tbl X) (cor_ProductID req) w1 of
             (Inl err, w2) \<Rightarrow>
               (case rdb_Del X key w2 of (_, w3) \<Rightarrow>
                  Some (Inl (if errors_is err ProdErrProductNotFound then ErrProductNotFound else err), node, w3))
           | (Inr p, w2) \<Rightarrow>
               (if prod_Status p \<noteq> 1
                then (case rdb_Del X key w2 of (_, w3) \<Rightarrow> Some (Inl ErrProductOffSale, node, w3))
                else
                  (case DeductRedis X (cor_ProductID req) (cor_Quantity req) w2 of
                     (Inl _, w3) \<Rightarrow>
                       (case rdb_Del X key w3 of (_, w4) \<Rightarrow> Some (Inl ErrStockInsufficient, node, w4))
                   | (Inr _, w3) \<Rightarrow>
                       (case GenerateString (time_Now X) node w3 of
                          None \<Rightarrow> None
                        | Some (orderNo, node1, w4) \<Rightarrow>
                            (let od = \<lparr>ord_ID = 0, ord_OrderNo = orderNo, ord_UserID = userID,
                                      ord_ProductID = cor_ProductID req, ord_Quantity = cor_Quantity req,
                                      ord_TotalPrice = f64_mul (prod_Price p) (f64_of_int (cor_Quantity req)),
                                      ord_Status = StatusPending, ord_CreatedAt = 0, ord_UpdatedAt = 0\<rparr> in
                             (case db_Transaction X (\<lambda>v. no_capture (Seckill_tx X od v)) w4 of
                                (Inl err, w5) \<Rightarrow>
                                  (let w6 = RollbackRedis X (cor_ProductID req) (cor_Quantity req) w5 in
                                   (case rdb_Del X key w6 of (_, w7) \<Rightarrow>
                                      Some (Inl (Errorf ''failed to create order'' err), node1, w7)))
                              | (Inr _, w5) \<Rightarrow>
                                  (case rdb_Set X (resultKey orderNo) (Text ''PENDING'') (1800 * second) w5 of
                                     (_, w6) \<Rightarrow> Some (Inr orderNo, node1, w6)))))))))"

definition GetSeckillResult :: "'w ext \<Rightarrow> string \<Rightarrow> 'w \<Rightarrow> (go_error + bytes) \<times> 'w" where
  "GetSeckillResult X orderNo w =
     (case rdb_Get X (resultKey orderNo) w of
        (Inr status, w1) \<Rightarrow> (Inr status, w1)
      | (Inl _, w1) \<Rightarrow>
          (case db_First (orders_tbl X) (\<lambda>x. ord_OrderNo x = orderNo) w1 of
             (Inl err, w2) \<Rightarrow>
               (if errors_is err ErrRecordNotFound then (Inr (Text ''PENDING''), w2) else (Inl err, w2))
           | (Inr od, w2) \<Rightarrow>
               (if ord_Status od = StatusPaid then Inr (Text ''SUCCESS'')
                else if ord_Status od = StatusCancelled then Inr (Text ''FAILED'')
                else Inr (Text ''PENDING''), w2)))"

section \<open>Order numbers\<close>

text \<open>Waiting for the clock changes nothing the clock does not change.\<close>

lemma GenerateString_world:
  assumes now: "\<And>w t w'. now w = (t, w') \<Longrightarrow> f w' = f w"
    and gen: "GenerateString now n w = Some (no, n', w')"
  shows "f w' = f w"
proof -
  have read: "clock_read now v = (t, v') \<Longrightarrow> f v' = f v" for v t v'
    using now by (auto simp: clock_read_def split: prod.splits)
  let ?P = "\<lambda>nw (ts :: 64 word) (c :: 64 word) w r. nw = now \<longrightarrow> f (snd r) = f w"
  have wait: "f v' = f v" if some: "wait_clock now ts cur v = Some (c, v')" for ts cur v c v'
  proof -
    have "?P now ts cur v (c, v')"
    proof (rule wait_clock.raw_induct [OF _ some, where P = ?P], intro impI)
      fix wait nw ts c w r
      assume IH: "\<And>nw ts c w r. wait nw ts c w = Some r \<Longrightarrow> ?P nw ts c w r"
        and step: "(if c \<le>s ts then case clock_read nw w of (c', w1) \<Rightarrow> wait nw ts c' w1 else Some (c, w)) = Some r"
        and nw: "nw = now"
      obtain d v where "clock_read now w = (d, v)" by fastforce
      then show "f (snd r) = f w" using step IH [of now ts d v r] nw read by (auto split: if_splits)
    qed
    then show ?thesis by simp
  qed
  obtain c v where "clock_read now w = (c, v)" by fastforce
  then show ?thesis
    using gen read wait by (auto simp: GenerateString_def Generate_def Let_def split: option.splits if_splits)
qed

section \<open>The orders table\<close>

text \<open>
  What the unique indexes promise, and that every status is one of the four constants.
\<close>

definition known_status :: "int \<Rightarrow> bool" where
  "known_status s \<longleftrightarrow> s \<in> {StatusPending, StatusAwaitingPayment, StatusPaid, StatusCancelled}"

definition orders_ok :: "tables \<Rightarrow> bool" where
  "orders_ok d \<longleftrightarrow>
     distinct (map ord_ID (t_orders d)) \<and> distinct (map ord_OrderNo (t_orders d)) \<and>
     distinct (map (\<lambda>x. (ord_UserID x, ord_ProductID x)) (t_orders d)) \<and>
     (\<forall>x\<in>set (t_orders d). known_status (ord_Status x))"

lemma orders_ok_create:
  assumes "orders_ok d" "known_status (ord_Status row)"
    and "create_result (order_schema num) row (t_orders d) rows r"
  shows "orders_ok (d\<lparr>t_orders := rows\<rparr>)"
  using assms by (cases r) (auto simp: orders_ok_def create_result_def order_schema_def clashes_def)

lemma orders_ok_status:
  assumes "orders_ok d" "known_status s"
    and "update_result (order_schema num) p (\<lambda>x. x\<lparr>ord_Status := s\<rparr>) (t_orders d) rows r"
  shows "orders_ok (d\<lparr>t_orders := rows\<rparr>)"
proof (cases r)
  case (Inr n)
  then obtain t where rows: "rows = map (\<lambda>x. if p x then sch_touch (order_schema num) t (x\<lparr>ord_Status := s\<rparr>) else x) (t_orders d)"
    using assms(3) by (auto simp: update_result_def)
  have "map ord_ID rows = map ord_ID (t_orders d)" "map ord_OrderNo rows = map ord_OrderNo (t_orders d)"
    "map (\<lambda>x. (ord_UserID x, ord_ProductID x)) rows = map (\<lambda>x. (ord_UserID x, ord_ProductID x)) (t_orders d)"
    by (simp_all add: rows order_schema_def)
  moreover have "\<forall>x\<in>set rows. known_status (ord_Status x)"
    using assms(1,2) by (auto simp: rows order_schema_def orders_ok_def)
  ultimately show ?thesis using assms(1) by (simp add: orders_ok_def)
qed (use assms in \<open>simp add: update_result_def\<close>)

lemma known_statuses [simp]:
  "known_status StatusPending" "known_status StatusAwaitingPayment" "known_status StatusPaid"
  "known_status StatusCancelled" "known_status 0"
  by (simp_all add: known_status_def status_defs)

context runtime
begin

text \<open>The order number's clock is read outside the services.\<close>

lemma GenerateString_outside:
  assumes "GenerateString (time_Now X) n w = Some (no, n', w')"
  shows "db w' = db w \<and> kv w' = kv w \<and> log w' = log w"
proof -
  have "(db w', kv w', log w') = (db w, kv w, log w)"
    by (rule GenerateString_world [where f = "\<lambda>w. (db w, kv w, log w)", OF inp.Now_law assms])
  then show ?thesis by simp
qed

end

text \<open>An invariant that reservations, outbox rows, new pending orders and changes of status keep.\<close>

locale order_invariant = invariant_runtime +
  assumes keep_inventories: "P d \<Longrightarrow> P (d\<lparr>t_inventories := invs\<rparr>)"
    and keep_outbox: "P d \<Longrightarrow> P (d\<lparr>t_outbox := obs\<rparr>)"
    and keep_create: "P d \<Longrightarrow> ord_Status row = StatusPending \<Longrightarrow>
      create_result (order_schema num) row (t_orders d) ords cr \<Longrightarrow> P (d\<lparr>t_orders := ords\<rparr>)"
    and keep_status: "P d \<Longrightarrow> known_status s \<Longrightarrow>
      update_result (order_schema num) p (\<lambda>x. x\<lparr>ord_Status := s\<rparr>) (t_orders d) ords nr \<Longrightarrow> P (d\<lparr>t_orders := ords\<rparr>)"

begin

lemma keeps_statements [keeps_intros]:
  "keeps db P (db_Updates (inventories_tbl X) ip f)" "keeps db P (db_Create (outbox_tbl X) orow)"
  "ord_Status row = StatusPending \<Longrightarrow> keeps db P (db_Create (orders_tbl X) row)"
  "known_status s \<Longrightarrow> keeps db P (db_Updates (orders_tbl X) p (\<lambda>x. x\<lparr>ord_Status := s\<rparr>))"
  by (rule keeps_inventories keeps_outbox keeps_order_create keeps_order_update;
      erule keep_inventories keep_outbox keep_create keep_status; assumption)+

lemma keeps_WriteEvent [keeps_intros]: "keeps db P (WriteEvent (outbox_tbl X) agg no typ topic p)"
  unfolding WriteEvent_def by (intro keeps_intros)

lemma keeps_Deduct_loop: "keeps db P (Deduct_loop (inventories_tbl X) p q n)"
proof (induction n)
  case (Suc n)
  then show ?case
    unfolding Deduct_loop.simps Repository_GetByProductID_def DeductWithLock_def by (intro keeps_intros)
qed (auto intro: keeps_intros)

lemma keeps_inventory [keeps_intros]:
  "keeps db P (Deduct (inventories_tbl X) p q)" "keeps db P (Return (inventories_tbl X) p q)"
  "keeps db P (DeductRedis X p q)"
  unfolding Deduct_def Return_def ReturnStock_def DeductRedis_def Let_def
  by (intro keeps_intros keeps_Deduct_loop)+

end
context order_invariant
begin

lemma keeps_order_parts [keeps_intros]:
  "keeps db P (claim_purchase X userID productID)"
  "keeps db P (ProductService_GetProductByID (products_tbl X) productID)"
  "ord_Status od = StatusPending \<Longrightarrow> keeps db P (CreateOrder_tx X req od)"
  "ord_Status od = StatusPending \<Longrightarrow> keeps db P (Seckill_tx X od)"
  "keeps db P (CancelOrder_tx X userID orderID)"
  unfolding claim_purchase_def ExistsByUserAndProduct_def ProductService_GetProductByID_def FindProductByID_def
    CreateOrder_tx_def CreateTx_def Seckill_tx_def CancelOrder_tx_def GetOrderByIDForUpdate_def UpdateStatusTx_def
  by (intro keeps_intros known_statuses; assumption?)+

lemma keeps_CancelOrder: "keeps db P (CancelOrder X userID orderID)"
  unfolding CancelOrder_def OrderRepository_Transaction_def by (intro keeps_intros)

text \<open>The order number's clock is read outside the database.\<close>

lemma keeps_GenerateString [keeps_intros]: "keeps_maybe db P (GenerateString (time_Now X) n)"
  unfolding keeps_maybe_def by (metis GenerateString_outside)

lemma keeps_Rollback [keeps_intros]:
  assumes "keeps db P f"
  shows "keeps db P (\<lambda>w. f (RollbackRedis X p q w))"
proof (rule keepsI)
  fix w r w' assume run: "f (RollbackRedis X p q w) = (r, w')" "P (db w)"
  obtain i v where "rdb_IncrBy X (stockKey p) q w = (i, v)" by fastforce
  then have "db (RollbackRedis X p q w) = db w"
    using rdb.IncrBy_law by (fastforce simp: RollbackRedis_def)
  then show "P (db w')" using keepsD [OF assms run(1)] run(2) by simp
qed

lemma keeps_maybe_Rollback [keeps_intros]:
  assumes "keeps_maybe db P f"
  shows "keeps_maybe db P (\<lambda>w. f (RollbackRedis X p q w))"
  unfolding keeps_maybe_def
proof (intro allI impI)
  fix w r n w' assume run: "f (RollbackRedis X p q w) = Some (r, n, w')" "P (db w)"
  obtain i v where "rdb_IncrBy X (stockKey p) q w = (i, v)" by fastforce
  then have "db (RollbackRedis X p q w) = db w"
    using rdb.IncrBy_law by (fastforce simp: RollbackRedis_def)
  then show "P (db w')" using keeps_maybeD [OF assms run(1)] run(2) by simp
qed

lemma keeps_CreateOrder: "keeps_maybe db P (CreateOrder X n userID req)"
  unfolding CreateOrder_def OrderRepository_Transaction_def Let_def
  by (intro keeps_intros) (simp add: status_defs)

lemma keeps_Seckill: "keeps_maybe db P (Seckill X n userID req)"
  unfolding Seckill_def Let_def
  by (intro keeps_intros) simp

end

section \<open>What a request leads to\<close>

lemma stock_of_products [simp]: "stock_of (d\<lparr>t_products := ps\<rparr>) = stock_of d"
  by (simp add: stock_of_def)

text \<open>An order is in the table with its stock reserved.\<close>

definition order_placed ::
    "(float64 \<Rightarrow> float64) \<Rightarrow> nat \<Rightarrow> CreateOrderRequest \<Rightarrow> tables \<Rightarrow> tables \<Rightarrow> Order \<Rightarrow> bool" where
  "order_placed num userID req d d' od \<longleftrightarrow>
     reserve (cor_ProductID req) (cor_Quantity req) (stock_of d) = Some (stock_of d') \<and>
     (\<exists>p\<in>set (t_products d). prod_ID p = cor_ProductID req \<and> prod_Status p = 1 \<and>
        ord_TotalPrice od = f64_mul (prod_Price p) (f64_of_int (cor_Quantity req))) \<and>
     ord_UserID od = userID \<and> ord_ProductID od = cor_ProductID req \<and> ord_Quantity od = cor_Quantity req \<and>
     ord_Status od = StatusPending \<and>
     (\<exists>rows. d' = d\<lparr>t_inventories := rows,
        t_orders := t_orders d @ [od\<lparr>ord_TotalPrice := num (ord_TotalPrice od)\<rparr>]\<rparr>)"

text \<open>Why a request is refused, by the tables and the user's idempotency key.\<close>

definition already_bought :: "tables \<Rightarrow> redis_kv \<Rightarrow> nat \<Rightarrow> nat \<Rightarrow> bool" where
  "already_bought d m userID productID \<longleftrightarrow>
     m (idempotencyKey userID productID) \<noteq> None
     \<or> (\<exists>x\<in>set (t_orders d). ord_UserID x = userID \<and> ord_ProductID x = productID)"

definition request_refused :: "tables \<Rightarrow> redis_kv \<Rightarrow> nat \<Rightarrow> nat \<Rightarrow> go_error \<Rightarrow> bool" where
  "request_refused d m userID productID e \<longleftrightarrow>
     e = ErrDuplicateOrder \<and> already_bought d m userID productID
     \<or> e = ErrProductNotFound \<and> (\<forall>x\<in>set (t_products d). prod_ID x \<noteq> productID)
     \<or> e = ErrProductOffSale \<and> (\<exists>x\<in>set (t_products d). prod_ID x = productID \<and> prod_Status x \<noteq> 1)"

context quiet_runtime
begin

lemma claim_purchase_result:
  assumes "claim_purchase X userID productID w = (r, w')"
  shows "db w' = db w \<and> log w' = log w \<and>
    (case r of
       None \<Rightarrow> kv w' = kv w \<or> kv w (idempotencyKey userID productID) = None
         \<and> kv w' = (kv w)(idempotencyKey userID productID \<mapsto> Text ''1'')
     | Some e \<Rightarrow> kv w' = kv w \<and> (e = ErrDuplicateOrder \<and> already_bought (db w) (kv w) userID productID \<or> is_external e))"
proof -
  let ?p = "\<lambda>x. ord_UserID x = userID \<and> ord_ProductID x = productID"
  obtain s u where setnx: "rdb_SetNX X (idempotencyKey userID productID) (Text ''1'') (24 * 3600 * second) w = (s, u)"
    by fastforce
  obtain c v where count: "db_Count (orders_tbl X) ?p u = (c, v)" by fastforce
  note law = rdb.SetNX_law [OF setnx] and counted = ord.Count_law [OF count]
  show ?thesis
  proof (cases s)
    case (Inl e)
    have "(\<exists>x\<in>set (t_orders (db w)). ?p x)" if "c = Inr n" "0 < n" for n
      using counted law that by (auto simp: count_result_def filter_empty_conv)
    then show ?thesis using assms setnx Inl count law counted
      by (cases c) (auto simp: claim_purchase_def ExistsByUserAndProduct_def already_bought_def setnx_result_def
          count_result_def split: if_splits)
  next
    case (Inr b)
    then show ?thesis using assms setnx law
      by (auto simp: claim_purchase_def already_bought_def setnx_result_def split: if_splits)
  qed
qed

lemma CreateOrder_tx_result:
  assumes "CreateOrder_tx X req od w = (r, w')" "inv_keys (db w)" "ord_ID od = 0"
  shows "kv w' = kv w \<and> log w' = log w \<and>
    (case r of
       Inr c \<Rightarrow> \<exists>i t. c = Some (od\<lparr>ord_ID := i, ord_CreatedAt := t, ord_UpdatedAt := t\<rparr>) \<and>
         reserve (cor_ProductID req) (cor_Quantity req) (stock_of (db w)) = Some (stock_of (db w')) \<and>
         (\<exists>rows. db w' = (db w)\<lparr>t_inventories := rows, t_orders := t_orders (db w) @
            [od\<lparr>ord_ID := i, ord_CreatedAt := t, ord_UpdatedAt := t, ord_TotalPrice := num (ord_TotalPrice od)\<rparr>]\<rparr>)
     | Inl e \<Rightarrow> is_external e \<or> (e = InvErrInventoryNotFound \<or> e = InvErrStockInsufficient) \<and>
         reserve (cor_ProductID req) (cor_Quantity req) (stock_of (db w)) = None)"
proof -
  obtain d u where deduct: "Deduct (inventories_tbl X) (cor_ProductID req) (cor_Quantity req) w = (d, u)" by fastforce
  note took = Deduct_quiet [OF deduct assms(2)]
  show ?thesis
  proof (cases d)
    case (Inl e)
    then show ?thesis using assms(1) deduct took by (auto simp: CreateOrder_tx_def reserve_def)
  next
    case (Inr one)
    obtain c v where create: "db_Create (orders_tbl X) od u = (c, v)" by fastforce
    show ?thesis using assms(1,3) deduct took Inr create ord_Create [OF create]
      by (cases c; auto simp: CreateOrder_tx_def CreateTx_def create_result_def order_schema_def guarded_step_def; blast)
  qed
qed


lemma CreateOrder_result:
  assumes run: "CreateOrder X n userID req w = Some (r, n', w')" and keys: "inv_keys (db w)"
  shows "log w' = log w \<and>
    (case r of
       Inr od \<Rightarrow> order_placed num userID req (db w) (db w') od
     | Inl e \<Rightarrow> db w' = db w \<and>
         (request_refused (db w) (kv w) userID (cor_ProductID req) e \<or> is_external e
          \<or> e = ErrStockInsufficient \<and> reserve (cor_ProductID req) (cor_Quantity req) (stock_of (db w)) = None))"
proof -
  let ?pid = "cor_ProductID req" and ?q = "cor_Quantity req"
  obtain c u where claim: "claim_purchase X userID ?pid w = (c, u)" by fastforce
  note claimed = claim_purchase_result [OF claim]
  obtain g v where get: "ProductService_GetProductByID (products_tbl X) ?pid u = (g, v)" by fastforce
  note got = GetProductByID_result [OF get]
  show ?thesis
  proof (cases "\<exists>p. c = None \<and> g = Inr p \<and> prod_Status p = 1")
    case False
    then show ?thesis using run claim claimed get got
      by (cases c; cases g) (auto simp: CreateOrder_def request_refused_def product_read_def split: if_splits)
  next
    case True
    then obtain p where p: "c = None" "g = Inr p" "prod_Status p = 1" by blast
    then obtain no x where gen: "GenerateString (time_Now X) n v = Some (no, n', x)"
      using run claim get by (auto simp: CreateOrder_def Let_def split: option.splits prod.splits sum.splits)
    have x: "db x = db w" "kv x = kv u" "log x = log w"
      using GenerateString_outside [OF gen] got claimed p(1) by simp_all
    let ?od = "\<lparr>ord_ID = 0, ord_OrderNo = no, ord_UserID = userID, ord_ProductID = ?pid, ord_Quantity = ?q,
      ord_TotalPrice = f64_mul (prod_Price p) (f64_of_int ?q), ord_Status = 0, ord_CreatedAt = 0, ord_UpdatedAt = 0\<rparr>"
    obtain t y where tx: "db_Transaction X (CreateOrder_tx X req ?od) x = (t, y)" by fastforce
    have eff: "kv y = kv x \<and> log y = log x \<and>
      (case t of
         Inr c \<Rightarrow> \<exists>od. c = Some od \<and> order_placed num userID req (db w) (db y) od
       | Inl e \<Rightarrow> db y = db x \<and> ((is_external e \<or> (e = InvErrInventoryNotFound \<or> e = InvErrStockInsufficient) \<and>
           reserve ?pid ?q (stock_of (db w)) = None) \<or> is_external e))"
    proof (rule Transaction_quiet [OF tx])
      fix a s a' assume body: "CreateOrder_tx X req ?od a = (s, a')" and "db a = db x"
      then have a: "db a = db w" using x by simp
      have "p \<in> set (t_products (db w))" "prod_ID p = ?pid" using got p claimed by (auto simp: product_read_def)
      then show "kv a' = kv a \<and> log a' = log a \<and>
        (case s of
           Inr c \<Rightarrow> \<exists>od. c = Some od \<and> order_placed num userID req (db w) (db a') od
         | Inl e \<Rightarrow> is_external e \<or> (e = InvErrInventoryNotFound \<or> e = InvErrStockInsufficient) \<and>
             reserve ?pid ?q (stock_of (db w)) = None)"
        using CreateOrder_tx_result [OF body] keys a p(3)
        by (cases s) (auto simp: order_placed_def status_defs)
    qed
    show ?thesis
    proof (cases t)
      case (Inr c)
      then show ?thesis using run claim get gen tx p eff x
        by (auto simp: CreateOrder_def OrderRepository_Transaction_def Let_def)
    next
      case (Inl e)
      obtain d z where del: "rdb_Del X (idempotencyKey userID ?pid) y = (d, z)" by fastforce
      show ?thesis using run claim get gen tx p eff x Inl del rdb.Del_law [OF del]
        by (auto simp: CreateOrder_def OrderRepository_Transaction_def Let_def split: if_splits)
    qed
  qed
qed

end

section \<open>What a flash-sale request leads to\<close>

text \<open>A pending order is in the table, and the event that announces it in the outbox.\<close>

definition created_payload :: "Order \<Rightarrow> payload \<Rightarrow> bool" where
  "created_payload od pl \<longleftrightarrow> (\<exists>i t. pl = PayOrderCreated
     \<lparr>ev_EventID = i, ev_EventType = OrderCreated, ev_Timestamp = t, oc_OrderNo = ord_OrderNo od,
      oc_UserID = ord_UserID od, oc_ProductID = ord_ProductID od, oc_Quantity = ord_Quantity od,
      oc_TotalPrice = ord_TotalPrice od\<rparr>)"

definition order_recorded ::
    "(float64 \<Rightarrow> float64) \<Rightarrow> (json \<Rightarrow> json) \<Rightarrow> tables \<Rightarrow> tables \<Rightarrow> Order \<Rightarrow> bool" where
  "order_recorded num jsonb d d' od \<longleftrightarrow>
     (\<exists>i t x pl. created_payload od pl
        \<and> is_event_row jsonb ''order'' (ord_OrderNo od) OrderCreated TopicOrderEvents pl x
        \<and> d' = d\<lparr>t_orders := t_orders d @ [od\<lparr>ord_ID := i, ord_CreatedAt := t, ord_UpdatedAt := t,
                    ord_TotalPrice := num (ord_TotalPrice od)\<rparr>], t_outbox := t_outbox d @ [x]\<rparr>)"

definition seckill_order :: "tables \<Rightarrow> nat \<Rightarrow> CreateOrderRequest \<Rightarrow> string \<Rightarrow> Order \<Rightarrow> bool" where
  "seckill_order d userID req no od \<longleftrightarrow>
     (\<exists>p\<in>set (t_products d). prod_ID p = cor_ProductID req \<and> prod_Status p = 1 \<and>
        od = \<lparr>ord_ID = 0, ord_OrderNo = no, ord_UserID = userID, ord_ProductID = cor_ProductID req,
              ord_Quantity = cor_Quantity req,
              ord_TotalPrice = f64_mul (prod_Price p) (f64_of_int (cor_Quantity req)),
              ord_Status = StatusPending, ord_CreatedAt = 0, ord_UpdatedAt = 0\<rparr>)"

context quiet_runtime
begin

lemma Seckill_tx_result:
  assumes "Seckill_tx X od w = (r, w')" "ord_ID od = 0"
  shows "kv w' = kv w \<and> log w' = log w \<and>
    (case r of Inr _ \<Rightarrow> order_recorded num jsonb (db w) (db w') od | Inl e \<Rightarrow> True)"
proof -
  obtain c u where create: "db_Create (orders_tbl X) od w = (c, u)" by fastforce
  note created = ord_Create [OF create]
  show ?thesis
  proof (cases c)
    case (Inl e)
    then show ?thesis using assms(1) create created by (auto simp: Seckill_tx_def)
  next
    case (Inr od')
    obtain i v where i: "uuid_New X u = (i, v)" by fastforce
    obtain t s where t: "time_Now X v = (t, s)" by fastforce
    let ?p = "PayOrderCreated \<lparr>ev_EventID = i, ev_EventType = OrderCreated, ev_Timestamp = t,
      oc_OrderNo = ord_OrderNo od, oc_UserID = ord_UserID od, oc_ProductID = ord_ProductID od,
      oc_Quantity = ord_Quantity od, oc_TotalPrice = ord_TotalPrice od\<rparr>"
    have wrote: "WriteEvent (outbox_tbl X) ''order'' (ord_OrderNo od) OrderCreated TopicOrderEvents ?p s = (r, w')"
      using assms(1) create Inr i t by (simp add: Seckill_tx_def)
    have pl: "created_payload od ?p" by (auto simp: created_payload_def)
    obtain j tt where u: "kv u = kv w" "log u = log w" "db u = (db w)\<lparr>t_orders := t_orders (db w) @
        [od\<lparr>ord_ID := j, ord_CreatedAt := tt, ord_UpdatedAt := tt, ord_TotalPrice := num (ord_TotalPrice od)\<rparr>]\<rparr>"
      using created assms(2) Inr by (auto simp: create_result_def order_schema_def)
    note out = announce [OF i t wrote]
    show ?thesis
    proof (cases r)
      case (Inr one)
      then obtain x where "db w' = (db u)\<lparr>t_outbox := t_outbox (db u) @ [x]\<rparr>"
        "is_event_row jsonb ''order'' (ord_OrderNo od) OrderCreated TopicOrderEvents ?p x"
        using out by auto
      then show ?thesis using out u pl Inr unfolding order_recorded_def by auto
    qed (use out u in simp)
  qed
qed

end

context reliable_runtime
begin

lemma claim_purchase_reliable:
  assumes "claim_purchase X userID productID w = (r, w')"
  shows "db w' = db w \<and> log w' = log w \<and>
    (if kv w (idempotencyKey userID productID) = None
     then r = None \<and> kv w' = (kv w)(idempotencyKey userID productID \<mapsto> Text ''1'')
     else r = Some ErrDuplicateOrder \<and> kv w' = kv w)"
proof -
  obtain s u where setnx: "rdb_SetNX X (idempotencyKey userID productID) (Text ''1'') (24 * 3600 * second) w = (s, u)"
    by fastforce
  obtain b where "s = Inr b" using rdb.SetNX_reliable [OF setnx] by blast
  then show ?thesis using assms setnx rdb.SetNX_law [OF setnx]
    by (auto simp: claim_purchase_def setnx_result_def split: if_splits)
qed

lemma Del_ok: "rdb_Del X k w = (r, w') \<Longrightarrow> db w' = db w \<and> log w' = log w \<and> kv w' = (kv w)(k := None)"
  using rdb.Del_law rdb.Del_reliable by (fastforce simp: write_result_def)

lemma Set_ok: "rdb_Set X k v ttl w = (r, w') \<Longrightarrow> db w' = db w \<and> log w' = log w \<and> kv w' = (kv w)(k \<mapsto> v)"
  using rdb.Set_law rdb.Set_reliable by (fastforce simp: write_result_def)

text \<open>The counter of a product after a deduction that was refused or taken back.\<close>

lemma DeductRedis_reliable:
  assumes "DeductRedis X p q w = (r, w')"
  shows "db w' = db w \<and> log w' = log w \<and>
    (case r of
       Inr _ \<Rightarrow> \<exists>c. counter_value (kv w (stockKey p)) = Some c \<and> q \<le> c
         \<and> kv w' = (kv w)(stockKey p \<mapsto> Text (show_int (c - q)))
     | Inl e \<Rightarrow> kv w' = kv w \<or> (\<exists>c. counter_value (kv w (stockKey p)) = Some c
         \<and> kv w' = (kv w)(stockKey p \<mapsto> Text (show_int c))))"
proof -
  obtain i u where decr: "rdb_DecrBy X (stockKey p) q w = (i, u)" by fastforce
  note took = rdb.DecrBy_law [OF decr]
  obtain j v where incr: "rdb_IncrBy X (stockKey p) q u = (j, v)" by fastforce
  note restored = rdb.IncrBy_law [OF incr]
  have "\<exists>x. j = Inr x" if "i = Inr y" for y
    using rdb.IncrBy_reliable [of "stockKey p" q u _ v] incr took that
    by (cases j) (auto simp: incr_result_def counter_value_def)
  then show ?thesis using assms decr incr took restored
    by (cases i; cases j)
      (auto simp: DeductRedis_def Let_def incr_result_def counter_value_def split: if_splits)
qed

lemma RollbackRedis_reliable:
  assumes "counter_value (kv w (stockKey p)) = Some c"
  shows "db (RollbackRedis X p q w) = db w \<and> log (RollbackRedis X p q w) = log w
    \<and> kv (RollbackRedis X p q w) = (kv w)(stockKey p \<mapsto> Text (show_int (c + q)))"
proof -
  obtain i u where incr: "rdb_IncrBy X (stockKey p) q w = (i, u)" by fastforce
  obtain v where "i = Inr v" using rdb.IncrBy_reliable [of "stockKey p" q w _ u] incr assms by (cases i) auto
  then show ?thesis using incr rdb.IncrBy_law [OF incr] assms by (simp add: RollbackRedis_def incr_result_def)
qed

end

text \<open>Redis as it was, up to a counter that is written out.\<close>

definition redis_restored :: "nat \<Rightarrow> redis_kv \<Rightarrow> redis_kv \<Rightarrow> bool" where
  "redis_restored p m m' \<longleftrightarrow>
     counter_value (m' (stockKey p)) = counter_value (m (stockKey p)) \<and> (\<forall>k. k \<noteq> stockKey p \<longrightarrow> m' k = m k)"

lemma counter_value_show [simp]: "counter_value (Some (Text (show_int i))) = Some i"
  by (simp add: counter_value_def)

context reliable_runtime
begin

text \<open>The transaction of an accepted request.\<close>

lemma Seckill_tx_reliable:
  assumes "db_Transaction X (\<lambda>v. no_capture (Seckill_tx X od v)) w = (r, w')" "ord_ID od = 0"
  shows "kv w' = kv w \<and> log w' = log w \<and>
    (case r of Inr _ \<Rightarrow> order_recorded num jsonb (db w) (db w') od | Inl e \<Rightarrow> db w' = db w)"
proof -
  have "kv w' = kv w \<and> log w' = log w \<and>
    (case r of Inr _ \<Rightarrow> order_recorded num jsonb (db w) (db w') od | Inl e \<Rightarrow> db w' = db w \<and> True)"
  proof (rule Transaction_reliable_unit [OF assms(1)])
    fix v s v' assume "Seckill_tx X od v = (s, v')" "db v = db w"
    then show "kv v' = kv v \<and> log v' = log v \<and>
        (case s of Inr _ \<Rightarrow> order_recorded num jsonb (db w) (db v') od | Inl e \<Rightarrow> True)"
      using Seckill_tx_result [of od v s v'] assms(2) by (cases s) simp_all
  qed
  then show ?thesis by (simp split: sum.splits)
qed

lemma Seckill_result:
  assumes run: "Seckill X n userID req w = Some (r, n', w')"
  shows "log w' = log w \<and>
    (case r of
       Inr no \<Rightarrow> \<exists>od c. seckill_order (db w) userID req no od \<and> order_recorded num jsonb (db w) (db w') od
         \<and> kv w (idempotencyKey userID (cor_ProductID req)) = None
         \<and> counter_value (kv w (stockKey (cor_ProductID req))) = Some c \<and> cor_Quantity req \<le> c
         \<and> kv w' = (kv w)(idempotencyKey userID (cor_ProductID req) \<mapsto> Text ''1'',
             stockKey (cor_ProductID req) \<mapsto> Text (show_int (c - cor_Quantity req)),
             resultKey no \<mapsto> Text ''PENDING'')
     | Inl e \<Rightarrow> db w' = db w \<and> redis_restored (cor_ProductID req) (kv w) (kv w'))"
proof -
  let ?pid = "cor_ProductID req" and ?q = "cor_Quantity req"
  let ?key = "idempotencyKey userID ?pid" and ?sk = "stockKey (cor_ProductID req)"
  obtain c u where claim: "claim_purchase X userID ?pid w = (c, u)" by fastforce
  note claimed = claim_purchase_reliable [OF claim]
  show ?thesis
  proof (cases "kv w ?key")
    case (Some s)
    then show ?thesis using run claim claimed by (auto simp: Seckill_def redis_restored_def)
  next
    case None
    then have u: "c = None" "db u = db w" "log u = log w" "kv u = (kv w)(?key \<mapsto> Text ''1'')"
      using claimed by simp_all
    obtain g v where get: "ProductService_GetProductByID (products_tbl X) ?pid u = (g, v)" by fastforce
    note got = GetProductByID_result [OF get]
    obtain x v' where del1: "rdb_Del X ?key v = (x, v')" by fastforce
    note del1' = Del_ok [OF del1]
    show ?thesis
    proof (cases "\<exists>p. g = Inr p \<and> prod_Status p = 1")
      case False
      then have "\<exists>e. r = Inl e" "w' = v'"
        using run claim u(1) get del1 by (cases g; auto simp: Seckill_def split: if_splits)+
      then show ?thesis using u got del1' None by (auto simp: redis_restored_def)
    next
      case True
      then obtain p where p: "g = Inr p" "prod_Status p = 1" by blast
      then have on_sale: "p \<in> set (t_products (db w))" "prod_ID p = ?pid"
        using got u by (auto simp: product_read_def)
      obtain d y where deduct: "DeductRedis X ?pid ?q v = (d, y)" by fastforce
      note took = DeductRedis_reliable [OF deduct]
      obtain x2 y2 where del2: "rdb_Del X ?key y = (x2, y2)" by fastforce
      note del2' = Del_ok [OF del2]
      show ?thesis
      proof (cases d)
        case (Inl e)
        then have "r = Inl ErrStockInsufficient" "w' = y2"
          using run claim u(1) get p deduct del2 by (auto simp: Seckill_def)
        then show ?thesis using u got took Inl del2' None by (auto simp: redis_restored_def)
      next
        case (Inr one)
        then obtain cnt where cnt: "counter_value (kv w ?sk) = Some cnt" "?q \<le> cnt"
          and y: "kv y = (kv w)(?key \<mapsto> Text ''1'', ?sk \<mapsto> Text (show_int (cnt - ?q)))" "db y = db w" "log y = log w"
          using took u got by auto
        obtain no z where gen: "GenerateString (time_Now X) n y = Some (no, n', z)"
          using run claim u(1) get p deduct Inr
          by (auto simp: Seckill_def Let_def split: option.splits prod.splits sum.splits)
        have z: "db z = db w" "kv z = kv y" "log z = log w" using GenerateString_outside [OF gen] y by simp_all
        let ?od = "\<lparr>ord_ID = 0, ord_OrderNo = no, ord_UserID = userID, ord_ProductID = ?pid, ord_Quantity = ?q,
          ord_TotalPrice = f64_mul (prod_Price p) (f64_of_int ?q), ord_Status = StatusPending,
          ord_CreatedAt = 0, ord_UpdatedAt = 0\<rparr>"
        have od: "seckill_order (db w) userID req no ?od" using on_sale p by (auto simp: seckill_order_def)
        obtain t a where tx: "db_Transaction X (\<lambda>v. no_capture (Seckill_tx X ?od v)) z = (t, a)" by fastforce
        have eff: "kv a = kv y" "log a = log w"
          "case t of Inr _ \<Rightarrow> order_recorded num jsonb (db w) (db a) ?od | Inl e \<Rightarrow> db a = db w"
          using Seckill_tx_reliable [OF tx] z by (auto split: sum.splits)
        show ?thesis
        proof (cases t)
          case (Inr none)
          obtain x3 b where set: "rdb_Set X (resultKey no) (Text ''PENDING'') (1800 * second) a = (x3, b)" by fastforce
          have "r = Inr no" "w' = b"
            using run claim u(1) get p deduct \<open>d = Inr one\<close> gen tx Inr set by (auto simp: Seckill_def Let_def)
          then show ?thesis using Set_ok [OF set] eff y od cnt None Inr by auto
        next
          case (Inl e)
          let ?b = "RollbackRedis X ?pid ?q a"
          obtain x3 b where del3: "rdb_Del X ?key ?b = (x3, b)" by fastforce
          have "counter_value (kv a ?sk) = Some (cnt - ?q)" using eff(1) y(1) by simp
          from RollbackRedis_reliable [OF this, of ?q]
          have "db ?b = db w" "log ?b = log w"
            "kv ?b = (kv w)(?key \<mapsto> Text ''1'', ?sk \<mapsto> Text (show_int cnt))"
            using eff y Inl by auto
          moreover have "r = Inl (Errorf ''failed to create order'' e)" "w' = b"
            using run claim u(1) get p deduct \<open>d = Inr one\<close> gen tx Inl del3 by (auto simp: Seckill_def Let_def)
          ultimately show ?thesis using Del_ok [OF del3] cnt(1) None by (auto simp: redis_restored_def)
        qed
      qed
    qed
  qed
qed

end
section \<open>Cancelling\<close>

lemma set_status_one:
  assumes "distinct (map ord_ID os)" "x \<in> set os" "ord_ID x = i"
  shows "\<exists>xs ys. os = xs @ x # ys \<and>
    map (\<lambda>y. if ord_ID y = i then f y else y) os = xs @ f x # ys"
proof -
  obtain xs ys where os: "os = xs @ x # ys" using assms(2) by (meson split_list)
  then have "\<forall>y\<in>set (xs @ ys). ord_ID y \<noteq> i" using assms(1,3) by (force simp: image_iff)
  then have "map (\<lambda>y. if ord_ID y = i then f y else y) xs = xs" "map (\<lambda>y. if ord_ID y = i then f y else y) ys = ys"
    by (auto intro: map_if_none)
  then show ?thesis using os assms(3) by auto
qed

text \<open>The order of the user, pending until now, is cancelled, and its stock released.\<close>

definition order_withdrawn :: "nat \<Rightarrow> nat \<Rightarrow> tables \<Rightarrow> tables \<Rightarrow> Order \<Rightarrow> bool" where
  "order_withdrawn userID orderID d d' od \<longleftrightarrow>
     od \<in> set (t_orders d) \<and> ord_ID od = orderID \<and> ord_UserID od = userID \<and> ord_Status od = StatusPending \<and>
     release (ord_ProductID od) (ord_Quantity od) (stock_of d) = Some (stock_of d') \<and>
     (\<exists>rows xs ys t. t_orders d = xs @ od # ys \<and>
        d' = d\<lparr>t_inventories := rows, t_orders := xs @ od\<lparr>ord_Status := StatusCancelled, ord_UpdatedAt := t\<rparr> # ys\<rparr>)"

definition cancel_refused :: "nat \<Rightarrow> nat \<Rightarrow> tables \<Rightarrow> go_error \<Rightarrow> bool" where
  "cancel_refused userID orderID d e \<longleftrightarrow>
     e = ErrOrderNotFound \<and> (\<forall>x\<in>set (t_orders d). ord_ID x \<noteq> orderID)
     \<or> e = ErrNotOrderOwner \<and> (\<exists>x\<in>set (t_orders d). ord_ID x = orderID \<and> ord_UserID x \<noteq> userID)
     \<or> e = ErrOrderNotPending \<and> (\<exists>x\<in>set (t_orders d). ord_ID x = orderID \<and> ord_Status x \<noteq> StatusPending)
     \<or> e = ErrNoLockedToReturn \<and> (\<exists>x\<in>set (t_orders d). ord_ID x = orderID \<and>
         release (ord_ProductID x) (ord_Quantity x) (stock_of d) = None)"

context quiet_runtime
begin

lemma UpdateStatusTx_result:
  assumes "UpdateStatusTx (orders_tbl X) i s w = (r, w')"
  shows "kv w' = kv w \<and> log w' = log w \<and>
    (case r of
       Inr _ \<Rightarrow> \<exists>t. db w' = (db w)\<lparr>t_orders :=
         map (\<lambda>x. if ord_ID x = i then x\<lparr>ord_Status := s, ord_UpdatedAt := t\<rparr> else x) (t_orders (db w))\<rparr>
     | Inl e \<Rightarrow> is_external e \<and> db w' = db w)"
proof -
  obtain n where "db_Updates (orders_tbl X) (\<lambda>x. ord_ID x = i) (\<lambda>x. x\<lparr>ord_Status := s\<rparr>) w = (n, w')"
    "r = (case n of Inl e \<Rightarrow> Inl e | Inr _ \<Rightarrow> Inr ())"
    using assms by (auto simp: UpdateStatusTx_def split: prod.splits sum.splits)
  with ord_Updates [OF this(1)] show ?thesis
    by (cases n) (auto simp: update_result_def order_schema_def cong del: if_weak_cong)
qed

lemma CancelOrder_tx_result:
  assumes "CancelOrder_tx X userID orderID w = (r, w')" "inv_keys (db w)" "orders_ok (db w)"
  shows "kv w' = kv w \<and> log w' = log w \<and>
    (case r of
       Inr c \<Rightarrow> \<exists>od. c = Some od \<and> order_withdrawn userID orderID (db w) (db w') od
     | Inl e \<Rightarrow> is_external e \<or> cancel_refused userID orderID (db w) (if e = ErrRecordNotFound then ErrOrderNotFound else e))"
proof -
  obtain f u where find: "GetOrderByIDForUpdate (orders_tbl X) orderID w = (f, u)" by fastforce
  have found: "db u = db w" "kv u = kv w" "log u = log w"
    "case f of Inr x \<Rightarrow> x \<in> set (t_orders (db w)) \<and> ord_ID x = orderID
     | Inl e \<Rightarrow> e = ErrRecordNotFound \<and> (\<forall>x\<in>set (t_orders (db w)). ord_ID x \<noteq> orderID) \<or> is_external e"
    using ord.FirstForUpdate_law [OF find [unfolded GetOrderByIDForUpdate_def]]
    by (auto simp: first_result_def split: sum.splits)
  show ?thesis
  proof (cases "\<exists>od. f = Inr od \<and> ord_UserID od = userID \<and> ord_Status od = StatusPending")
    case False
    then show ?thesis using assms(1) find found
      by (cases f) (auto simp: CancelOrder_tx_def cancel_refused_def split: if_splits)
  next
    case True
    then obtain od where f: "f = Inr od" "ord_UserID od = userID" "ord_Status od = StatusPending" by blast
    then have od: "od \<in> set (t_orders (db w))" "ord_ID od = orderID" using found(4) by simp_all
    obtain s v where ret: "ReturnStock (inventories_tbl X) (ord_ProductID od) (ord_Quantity od) u = (s, v)" by fastforce
    have step: "guarded_step (release (ord_ProductID od) (ord_Quantity od)) ErrNoLockedToReturn (db w) (db v) s"
      "kv v = kv w" "log v = log w"
      using ReturnStock_result [OF ret] assms(2) found(1-3) by (auto simp: guarded_statement_def)
    show ?thesis
    proof (cases s)
      case (Inl e)
      then have "r = Inl e" "w' = v" using assms(1) find f ret by (auto simp: CancelOrder_tx_def Return_def)
      then show ?thesis using step od Inl by (auto simp: guarded_step_def cancel_refused_def)
    next
      case (Inr one)
      obtain rows where v: "db v = (db w)\<lparr>t_inventories := rows\<rparr>"
        and rel: "release (ord_ProductID od) (ord_Quantity od) (stock_of (db w)) = Some (stock_of (db v))"
        using step Inr by (auto simp: guarded_step_def)
      obtain m x where upd: "UpdateStatusTx (orders_tbl X) orderID StatusCancelled v = (m, x)" by fastforce
      note updated = UpdateStatusTx_result [OF upd]
      show ?thesis
      proof (cases m)
        case (Inl e)
        then have "r = Inl e" "w' = x" using assms(1) find f ret \<open>s = Inr one\<close> upd
          by (auto simp: CancelOrder_tx_def Return_def)
        then show ?thesis using updated step Inl by auto
      next
        case (Inr none)
        then have r: "r = Inr (Some od)" "w' = x" using assms(1) find f ret \<open>s = Inr one\<close> upd
          by (auto simp: CancelOrder_tx_def Return_def)
        obtain t where "db x = (db v)\<lparr>t_orders := map (\<lambda>y. if ord_ID y = orderID
            then y\<lparr>ord_Status := StatusCancelled, ord_UpdatedAt := t\<rparr> else y) (t_orders (db v))\<rparr>"
          using updated Inr by auto
        moreover obtain xs ys where "t_orders (db w) = xs @ od # ys"
          "map (\<lambda>y. if ord_ID y = orderID then y\<lparr>ord_Status := StatusCancelled, ord_UpdatedAt := t\<rparr> else y) (t_orders (db w))
            = xs @ od\<lparr>ord_Status := StatusCancelled, ord_UpdatedAt := t\<rparr> # ys"
          using set_status_one [of "t_orders (db w)" od orderID "\<lambda>y. y\<lparr>ord_Status := StatusCancelled, ord_UpdatedAt := t\<rparr>"] od assms(3) unfolding orders_ok_def by blast
        ultimately have x: "t_orders (db w) = xs @ od # ys"
          "db x = (db w)\<lparr>t_inventories := rows, t_orders := xs @ od\<lparr>ord_Status := StatusCancelled, ord_UpdatedAt := t\<rparr> # ys\<rparr>"
          by (simp_all add: v)
        then have "stock_of (db x) = stock_of (db v)" by (simp add: v stock_of_def)
        then have "order_withdrawn userID orderID (db w) (db x) od"
          unfolding order_withdrawn_def using od f rel x by auto
        then show ?thesis using r updated step by simp
      qed
    qed
  qed
qed

lemma CancelOrder_result:
  assumes "CancelOrder X userID orderID w = (r, w')" "inv_keys (db w)" "orders_ok (db w)"
  shows "kv w' = kv w \<and> log w' = log w \<and>
    (case r of
       Inr od \<Rightarrow> \<exists>od0. od = od0\<lparr>ord_Status := StatusCancelled\<rparr> \<and> order_withdrawn userID orderID (db w) (db w') od0
     | Inl e \<Rightarrow> db w' = db w \<and> (cancel_refused userID orderID (db w) e \<or> is_external e))"
proof -
  obtain t u where tx: "db_Transaction X (CancelOrder_tx X userID orderID) w = (t, u)" by fastforce
  have eff: "kv u = kv w \<and> log u = log w \<and>
    (case t of Inr c \<Rightarrow> \<exists>od. c = Some od \<and> order_withdrawn userID orderID (db w) (db u) od
     | Inl e \<Rightarrow> db u = db w \<and> ((is_external e \<or> cancel_refused userID orderID (db w)
         (if e = ErrRecordNotFound then ErrOrderNotFound else e)) \<or> is_external e))"
  proof (rule Transaction_quiet [OF tx])
    fix v s v' assume "CancelOrder_tx X userID orderID v = (s, v')" "db v = db w"
    then show "kv v' = kv v \<and> log v' = log v \<and>
      (case s of Inr c \<Rightarrow> \<exists>od. c = Some od \<and> order_withdrawn userID orderID (db w) (db v') od
       | Inl e \<Rightarrow> is_external e \<or> cancel_refused userID orderID (db w)
           (if e = ErrRecordNotFound then ErrOrderNotFound else e))"
      using CancelOrder_tx_result [of userID orderID v s v'] assms(2,3) by (cases s) simp_all
  qed
  show ?thesis
  proof (cases t)
    case (Inl e)
    then have "w' = u" "r = Inl (if e = ErrRecordNotFound then ErrOrderNotFound else e) \<or> r = Inl e"
      using assms(1) tx eff
      by (auto simp: CancelOrder_def OrderRepository_Transaction_def cancel_refused_def split: if_splits)
    then show ?thesis using eff Inl assms(1) tx
      by (auto simp: CancelOrder_def OrderRepository_Transaction_def cancel_refused_def split: if_splits)
  next
    case (Inr c)
    then show ?thesis using assms(1) tx eff
      by (auto simp: CancelOrder_def OrderRepository_Transaction_def; blast)
  qed
qed

end

section \<open>Properties\<close>

text \<open>C3: ordering is all or nothing. When \<^verbatim>\<open>CreateOrder\<close> returns an order, the product was on sale,
  the stock is reserved, and exactly this pending order, with price times quantity, is added; when it
  returns an error, no table has changed, and the error names the reason unless a service failed.\<close>

theorem create_order_all_or_nothing:
  assumes "quiet_runtime db kv log num jsonb X" "inv_keys (db w)"
    and "CreateOrder X n userID req w = Some (r, n', w')"
  shows "log w' = log w \<and>
    (case r of
       Inr od \<Rightarrow> order_placed num userID req (db w) (db w') od
     | Inl e \<Rightarrow> db w' = db w \<and>
         (request_refused (db w) (kv w) userID (cor_ProductID req) e \<or> is_external e
          \<or> e = ErrStockInsufficient \<and> reserve (cor_ProductID req) (cor_Quantity req) (stock_of (db w)) = None))"
  by (rule quiet_runtime.CreateOrder_result [OF assms(1,3,2)])


text \<open>C19: cancelling takes back an order of one's own. \<^verbatim>\<open>CancelOrder\<close> succeeds only for a pending
  order of the user, releases exactly its stock and marks exactly this order; otherwise no table
  changes, and the error names the reason unless a service failed.\<close>

theorem cancel_order_takes_back:
  assumes "quiet_runtime db kv log num jsonb X" "inv_keys (db w)" "orders_ok (db w)"
    and "CancelOrder X userID orderID w = (r, w')"
  shows "kv w' = kv w \<and> log w' = log w \<and>
    (case r of
       Inr od \<Rightarrow> \<exists>od0. od = od0\<lparr>ord_Status := StatusCancelled\<rparr> \<and> order_withdrawn userID orderID (db w) (db w') od0
     | Inl e \<Rightarrow> db w' = db w \<and> (cancel_refused userID orderID (db w) e \<or> is_external e))"
  by (rule quiet_runtime.CancelOrder_result [OF assms(1,4,2,3)])

section \<open>Scenarios and witnesses\<close>

definition demo_mall :: "int \<Rightarrow> unit mem" where
  "demo_mall status = (demo_clock 5)\<lparr>mem_db := (mem_db (mem_empty :: unit mem))
     \<lparr>t_products := [(demo_product 1 ''phone'')\<lparr>prod_Status := status\<rparr>], t_inventories := [demo_row]\<rparr>,
     mem_kv := [stockKey 1 \<mapsto> Text ''10'']\<rparr>"

definition demo_request :: "int \<Rightarrow> CreateOrderRequest" where
  "demo_request q = \<lparr>cor_ProductID = 1, cor_Quantity = q\<rparr>"

definition demo_put_on_sale :: UpdateProductRequest where
  "demo_put_on_sale = demo_update\<lparr>upr_Name := '''', upr_Status := Some 1\<rparr>"

text \<open>A request for a product that is off sale locks the user out. \<^verbatim>\<open>CreateOrder\<close> keeps the
  idempotency key when it answers that the product is off sale; once the product is on sale, the same
  user's next order is refused as a duplicate, although there is no order.\<close>

theorem off_sale_request_locks_out:
  "\<exists>n1 w1 p w2 n3 w3. CreateOrder (demo_ext False) demo_node 101 (demo_request 2) (demo_mall 0)
       = Some (Inl ErrProductOffSale, n1, w1)
     \<and> ProductService_Update (products_tbl (demo_ext False)) 1 demo_put_on_sale w1 = (Inr p, w2) \<and> prod_Status p = 1
     \<and> CreateOrder (demo_ext False) n1 101 (demo_request 2) w2 = Some (Inl ErrDuplicateOrder, n3, w3)
     \<and> t_orders (mem_db w3) = []"
proof -
  let ?create = "\<lambda>n w. CreateOrder (demo_ext False) n 101 (demo_request 2) w"
  let ?update = "ProductService_Update (products_tbl (demo_ext False)) 1 demo_put_on_sale"
  have run: "case ?create demo_node (demo_mall 0) of None \<Rightarrow> False
    | Some (r1, n1, w1) \<Rightarrow> r1 = Inl ErrProductOffSale \<and>
        (case ?update w1 of (r2, w2) \<Rightarrow>
          (case r2 of Inl _ \<Rightarrow> False | Inr p \<Rightarrow> prod_Status p = 1) \<and>
          (case ?create n1 w2 of None \<Rightarrow> False
           | Some (r3, n3, w3) \<Rightarrow> r3 = Inl ErrDuplicateOrder \<and> t_orders (mem_db w3) = []))"
    by code_simp
  obtain n1 w1 where one: "?create demo_node (demo_mall 0) = Some (Inl ErrProductOffSale, n1, w1)"
    using run by (auto split: option.splits prod.splits)
  obtain p w2 where two: "?update w1 = (Inr p, w2)" "prod_Status p = 1"
    using run one by (auto split: sum.splits prod.splits)
  show ?thesis using run one two by (auto split: option.splits prod.splits)
qed

lemma demo_mall_keys: "inv_keys (mem_db (demo_mall s))" "stock_of (mem_db (demo_mall s)) = [1 \<mapsto> (10, 0)]"
  by (simp_all add: demo_mall_def mem_empty_def inv_keys_def stock_of_def demo_row_def)

theorem create_order_all_or_nothing_witness:
  "\<exists>od n' w'. CreateOrder (demo_ext False) demo_node 101 (demo_request 2) (demo_mall 1) = Some (Inr od, n', w')
     \<and> stock_of (mem_db w') = [1 \<mapsto> (8, 2)] \<and> ord_Quantity od = 2"
proof -
  let ?create = "CreateOrder (demo_ext False) demo_node 101 (demo_request 2) (demo_mall 1)"
  have "case ?create of None \<Rightarrow> False | Some (r, n, w) \<Rightarrow> (case r of Inl _ \<Rightarrow> False | Inr od \<Rightarrow> ord_Quantity od = 2)"
    by code_simp
  then obtain od n' w' where run: "?create = Some (Inr od, n', w')"
    by (auto split: option.splits prod.splits sum.splits)
  from create_order_all_or_nothing [OF demo_quiet demo_mall_keys(1) run] run show ?thesis
    by (auto simp: order_placed_def demo_mall_keys demo_request_def reserve_def)
qed


definition demo_order :: Order where
  "demo_order = \<lparr>ord_ID = 1, ord_OrderNo = ''42'', ord_UserID = 101, ord_ProductID = 1, ord_Quantity = 2,
     ord_TotalPrice = f64_one, ord_Status = StatusPending, ord_CreatedAt = 0, ord_UpdatedAt = 0\<rparr>"

definition demo_ordered :: "unit mem" where
  "demo_ordered = mem_empty\<lparr>mem_db := (mem_db (mem_empty :: unit mem))
     \<lparr>t_inventories := [demo_row\<lparr>inv_Available := 8, inv_Locked := 2\<rparr>], t_orders := [demo_order]\<rparr>\<rparr>"

lemma demo_ordered_ok: "inv_keys (mem_db demo_ordered)" "orders_ok (mem_db demo_ordered)"
  "stock_of (mem_db demo_ordered) = [1 \<mapsto> (8, 2)]"
  by (simp_all add: demo_ordered_def mem_empty_def inv_keys_def orders_ok_def stock_of_def demo_row_def demo_order_def)

theorem cancel_order_takes_back_witness:
  "\<exists>od w'. CancelOrder (demo_ext False) 101 1 demo_ordered = (Inr od, w')
     \<and> stock_of (mem_db w') = [1 \<mapsto> (10, 0)] \<and> ord_Status od = StatusCancelled"
proof -
  let ?run = "CancelOrder (demo_ext False) 101 1 demo_ordered"
  have "case fst ?run of Inl _ \<Rightarrow> False | Inr od \<Rightarrow> ord_Quantity od = 2" by code_simp
  then obtain od w' where run: "?run = (Inr od, w')"
    by (cases ?run) (auto split: sum.splits)
  from cancel_order_takes_back [OF demo_quiet demo_ordered_ok(1,2) run]
  have "order_withdrawn 101 1 (mem_db demo_ordered) (mem_db w') demo_order"
    "od = demo_order\<lparr>ord_Status := StatusCancelled\<rparr>"
    by (auto simp: order_withdrawn_def demo_ordered_def mem_empty_def)
  then show ?thesis using run demo_ordered_ok(3)
    by (auto simp: order_withdrawn_def demo_order_def release_def)
qed

end
