(* ===== verification/Order_Events.thy ===== *)
theory Order_Events
  imports Order
begin

text \<open>
  \<^verbatim>\<open>internal/order/event_handler.go\<close>: how the order service advances an order on the answers
  of the inventory and the payment service. Each handler reads the order, and in one transaction
  sets its status and writes the next event of the saga into the outbox; that transaction is
  \<open>advance_tx\<close>, given the new status, the event's type and its payload. Log lines are left out;
  every path returns nil.
\<close>

section \<open>event\_handler.go\<close>

definition advance_tx ::
    "'w ext \<Rightarrow> string \<Rightarrow> int \<Rightarrow> string \<Rightarrow> (BaseEvent \<Rightarrow> payload) \<Rightarrow> 'w \<Rightarrow> (go_error + unit) \<times> 'w" where
  "advance_tx X orderNo status typ payload w =
     (case UpdateStatusByOrderNoTx (orders_tbl X) orderNo status w of
        (Inl err, w1) \<Rightarrow> (Inl err, w1)
      | (Inr _, w1) \<Rightarrow>
          (case uuid_New X w1 of (eventID, w2) \<Rightarrow>
             (case time_Now X w2 of (now, w3) \<Rightarrow>
                WriteEvent (outbox_tbl X) ''order'' orderNo typ TopicOrderEvents
                  (payload \<lparr>ev_EventID = eventID, ev_EventType = typ, ev_Timestamp = now\<rparr>) w3)))"

text \<open>The payloads, with the embedded base event given.\<close>

definition payment_requested :: "Order \<Rightarrow> string \<Rightarrow> BaseEvent \<Rightarrow> payload" where
  "payment_requested od orderNo b =
     PayPaymentRequested (BaseEvent.extend b (PaymentRequestedEvent.fields orderNo (ord_UserID od) (ord_TotalPrice od)))"

definition order_completed :: "Order \<Rightarrow> string \<Rightarrow> BaseEvent \<Rightarrow> payload" where
  "order_completed od orderNo b =
     PayOrderCompleted (BaseEvent.extend b (OrderCompletedEvent.fields orderNo (ord_ProductID od) (ord_Quantity od)))"

definition order_cancelled :: "Order \<Rightarrow> string \<Rightarrow> nat \<Rightarrow> string \<Rightarrow> BaseEvent \<Rightarrow> payload" where
  "order_cancelled od orderNo productID reason b =
     PayOrderCancelled (BaseEvent.extend b
       (OrderCancelledEvent.fields orderNo (ord_UserID od) productID (ord_Quantity od) reason))"

definition handleStockDeducted :: "'w ext \<Rightarrow> json \<Rightarrow> 'w \<Rightarrow> (go_error + unit) \<times> 'w" where
  "handleStockDeducted X data w =
     (case json_Unmarshal dec_StockDeducted data of
        Inl _ \<Rightarrow> (Inr (), w)
      | Inr evt \<Rightarrow>
          (case GetOrderByOrderNo (orders_tbl X) (sd_OrderNo evt) w of
             (Inl _, w1) \<Rightarrow> (Inr (), w1)
           | (Inr od, w1) \<Rightarrow>
               (case db_Transaction X (\<lambda>v. no_capture (advance_tx X (sd_OrderNo evt) StatusAwaitingPayment
                        PaymentRequested (payment_requested od (sd_OrderNo evt)) v)) w1 of
                  (_, w2) \<Rightarrow> (Inr (), w2))))"

definition handleStockDeductFailed :: "'w ext \<Rightarrow> json \<Rightarrow> 'w \<Rightarrow> (go_error + unit) \<times> 'w" where
  "handleStockDeductFailed X data w =
     (case json_Unmarshal dec_StockDeductFailed data of
        Inl _ \<Rightarrow> (Inr (), w)
      | Inr evt \<Rightarrow>
          (case GetOrderByOrderNo (orders_tbl X) (sf_OrderNo evt) w of
             (Inl _, w1) \<Rightarrow> (Inr (), w1)
           | (Inr od, w1) \<Rightarrow>
               (case db_Transaction X (\<lambda>v. no_capture (advance_tx X (sf_OrderNo evt) StatusCancelled OrderCancelled
                        (order_cancelled od (sf_OrderNo evt) (sf_ProductID evt) ''stock_deduction_failed'') v)) w1 of
                  (Inl _, w2) \<Rightarrow> (Inr (), w2)
                | (Inr _, w2) \<Rightarrow>
                    (case rdb_Set X (resultKey (sf_OrderNo evt)) (Text ''FAILED'') 0 w2 of (_, w3) \<Rightarrow> (Inr (), w3)))))"

definition handlePaymentSuccess :: "'w ext \<Rightarrow> json \<Rightarrow> 'w \<Rightarrow> (go_error + unit) \<times> 'w" where
  "handlePaymentSuccess X data w =
     (case json_Unmarshal dec_PaymentResult data of
        Inl _ \<Rightarrow> (Inr (), w)
      | Inr evt \<Rightarrow>
          (case GetOrderByOrderNo (orders_tbl X) (ps_OrderNo evt) w of
             (Inl _, w1) \<Rightarrow> (Inr (), w1)
           | (Inr od, w1) \<Rightarrow>
               (case db_Transaction X (\<lambda>v. no_capture (advance_tx X (ps_OrderNo evt) StatusPaid OrderCompleted
                        (order_completed od (ps_OrderNo evt)) v)) w1 of
                  (Inl _, w2) \<Rightarrow> (Inr (), w2)
                | (Inr _, w2) \<Rightarrow>
                    (case rdb_Set X (resultKey (ps_OrderNo evt)) (Text ''SUCCESS'') 0 w2 of (_, w3) \<Rightarrow> (Inr (), w3)))))"

definition handlePaymentFailed :: "'w ext \<Rightarrow> json \<Rightarrow> 'w \<Rightarrow> (go_error + unit) \<times> 'w" where
  "handlePaymentFailed X data w =
     (case json_Unmarshal dec_PaymentResult data of
        Inl _ \<Rightarrow> (Inr (), w)
      | Inr evt \<Rightarrow>
          (case GetOrderByOrderNo (orders_tbl X) (ps_OrderNo evt) w of
             (Inl _, w1) \<Rightarrow> (Inr (), w1)
           | (Inr od, w1) \<Rightarrow>
               (case db_Transaction X (\<lambda>v. no_capture (advance_tx X (ps_OrderNo evt) StatusCancelled OrderCancelled
                        (order_cancelled od (ps_OrderNo evt) (ord_ProductID od) ''payment_failed'') v)) w1 of
                  (Inl _, w2) \<Rightarrow> (Inr (), w2)
                | (Inr _, w2) \<Rightarrow>
                    (case rdb_Set X (resultKey (ps_OrderNo evt)) (Text ''FAILED'') 0 w2 of (_, w3) \<Rightarrow> (Inr (), w3)))))"

definition HandleInventoryEvent :: "'w ext \<Rightarrow> string \<Rightarrow> json \<Rightarrow> 'w \<Rightarrow> (go_error + unit) \<times> 'w" where
  "HandleInventoryEvent X key val w =
     (case json_Unmarshal dec_BaseEvent val of
        Inl _ \<Rightarrow> (Inr (), w)
      | Inr base \<Rightarrow>
          (if ev_EventType base = StockDeducted then handleStockDeducted X val w
           else if ev_EventType base = StockDeductFailed then handleStockDeductFailed X val w
           else (Inr (), w)))"

definition HandlePaymentEvent :: "'w ext \<Rightarrow> string \<Rightarrow> json \<Rightarrow> 'w \<Rightarrow> (go_error + unit) \<times> 'w" where
  "HandlePaymentEvent X key val w =
     (case json_Unmarshal dec_BaseEvent val of
        Inl _ \<Rightarrow> (Inr (), w)
      | Inr base \<Rightarrow>
          (if ev_EventType base = PaymentSuccess then handlePaymentSuccess X val w
           else if ev_EventType base = PaymentFailed then handlePaymentFailed X val w
           else (Inr (), w)))"

section \<open>What every step of the order service keeps\<close>

context order_invariant
begin

lemma keeps_advance: "known_status s \<Longrightarrow> keeps db P (advance_tx X no s typ p)"
  unfolding advance_tx_def UpdateStatusByOrderNoTx_def by (intro keeps_intros)

lemma keeps_order_events [keeps_intros]:
  "keeps db P (handleStockDeducted X data)" "keeps db P (handleStockDeductFailed X data)"
  "keeps db P (handlePaymentSuccess X data)" "keeps db P (handlePaymentFailed X data)"
  unfolding handleStockDeducted_def handleStockDeductFailed_def handlePaymentSuccess_def handlePaymentFailed_def
    GetOrderByOrderNo_def
  by (intro keeps_intros keeps_advance known_statuses)+

lemma keeps_order_consumers:
  "keeps db P (HandleInventoryEvent X key val)" "keeps db P (HandlePaymentEvent X key val)"
  unfolding HandleInventoryEvent_def HandlePaymentEvent_def by (intro keeps_intros)+

lemma keeps_GetSeckillResult: "keeps db P (GetSeckillResult X orderNo)"
  unfolding GetSeckillResult_def by (intro keeps_intros)

end

text \<open>One request or one message, in any order and with any arguments.\<close>

inductive order_step :: "'w ext \<Rightarrow> 'w \<Rightarrow> 'w \<Rightarrow> bool" for X where
  step_create: "CreateOrder X n userID req w = Some (cr, n', w') \<Longrightarrow> order_step X w w'"
| step_seckill: "Seckill X n userID req w = Some (sr, n', w') \<Longrightarrow> order_step X w w'"
| step_cancel: "CancelOrder X userID orderID w = (xr, w') \<Longrightarrow> order_step X w w'"
| step_result: "GetSeckillResult X orderNo w = (br, w') \<Longrightarrow> order_step X w w'"
| step_inventory_event: "HandleInventoryEvent X key val w = (ur, w') \<Longrightarrow> order_step X w w'"
| step_payment_event: "HandlePaymentEvent X key val w = (ur, w') \<Longrightarrow> order_step X w w'"

inductive_cases order_stepE: "order_step X w w'"

context order_invariant
begin

lemma order_step_keeps: "order_step X w w' \<Longrightarrow> P (db w) \<Longrightarrow> P (db w')"
  by (erule order_stepE;
      (erule (1) keeps_maybeD [OF keeps_CreateOrder] keeps_maybeD [OF keeps_Seckill] keepsD [OF keeps_CancelOrder]
         keepsD [OF keeps_GetSeckillResult] keepsD [OF keeps_order_consumers(1)] keepsD [OF keeps_order_consumers(2)]))

lemma order_steps_keep: "(order_step X)\<^sup>*\<^sup>* w w' \<Longrightarrow> P (db w) \<Longrightarrow> P (db w')"
  by (induction rule: rtranclp_induct) (auto intro: order_step_keeps)

end

lemma orders_ok_others [simp]:
  "orders_ok (d\<lparr>t_inventories := is\<rparr>) = orders_ok d" "orders_ok (d\<lparr>t_outbox := os\<rparr>) = orders_ok d"
  "orders_ok (d\<lparr>t_payments := ps\<rparr>) = orders_ok d"
  by (simp_all add: orders_ok_def)

lemma orders_ok_invariant:
  assumes "runtime db kv log rely num jsonb X" "\<And>d d'. rely d d' \<Longrightarrow> orders_ok d \<Longrightarrow> orders_ok d'"
  shows "order_invariant db kv log rely num jsonb X orders_ok"
  unfolding order_invariant_def invariant_runtime_def order_invariant_axioms_def invariant_runtime_axioms_def
proof (intro conjI allI impI)
  fix d ords cr and row :: Order
  assume "orders_ok d" "ord_Status row = StatusPending" "create_result (order_schema num) row (t_orders d) ords cr"
  then show "orders_ok (d\<lparr>t_orders := ords\<rparr>)" by (intro orders_ok_create) simp_all
qed (use assms in \<open>auto intro: orders_ok_status\<close>)

section \<open>What an answer does to the order\<close>

text \<open>The orders with this number get the status, and the next event is in the outbox.\<close>

definition order_advanced ::
    "(json \<Rightarrow> json) \<Rightarrow> string \<Rightarrow> int \<Rightarrow> string \<Rightarrow> (BaseEvent \<Rightarrow> payload) \<Rightarrow> tables \<Rightarrow> tables \<Rightarrow> bool" where
  "order_advanced jsonb no s typ mk d d' \<longleftrightarrow>
     (\<exists>t b x. ev_EventType b = typ \<and> is_event_row jsonb ''order'' no typ TopicOrderEvents (mk b) x \<and>
        d' = d\<lparr>t_orders := map (\<lambda>y. if ord_OrderNo y = no then y\<lparr>ord_Status := s, ord_UpdatedAt := t\<rparr> else y) (t_orders d),
               t_outbox := t_outbox d @ [x]\<rparr>)"

context quiet_runtime
begin

lemma UpdateStatusByOrderNoTx_result:
  assumes "UpdateStatusByOrderNoTx (orders_tbl X) no s w = (r, w')"
  shows "kv w' = kv w \<and> log w' = log w \<and>
    (case r of
       Inr _ \<Rightarrow> (\<exists>x\<in>set (t_orders (db w)). ord_OrderNo x = no) \<and> (\<exists>t. db w' = (db w)\<lparr>t_orders :=
         map (\<lambda>x. if ord_OrderNo x = no then x\<lparr>ord_Status := s, ord_UpdatedAt := t\<rparr> else x) (t_orders (db w))\<rparr>)
     | Inl e \<Rightarrow> is_external e \<or> e = ErrRecordNotFound \<and> (\<forall>x\<in>set (t_orders (db w)). ord_OrderNo x \<noteq> no))"
proof -
  obtain n where upd: "db_Updates (orders_tbl X) (\<lambda>x. ord_OrderNo x = no) (\<lambda>x. x\<lparr>ord_Status := s\<rparr>) w = (n, w')"
    and r: "r = (case n of Inl e \<Rightarrow> Inl e | Inr k \<Rightarrow> if k = 0 then Inl ErrRecordNotFound else Inr ())"
    using assms by (auto simp: UpdateStatusByOrderNoTx_def split: prod.splits sum.splits)
  show ?thesis
  proof (cases n)
    case (Inr k)
    then have "k = length (filter (\<lambda>x. ord_OrderNo x = no) (t_orders (db w)))"
      "\<exists>t. db w' = (db w)\<lparr>t_orders :=
         map (\<lambda>x. if ord_OrderNo x = no then x\<lparr>ord_Status := s, ord_UpdatedAt := t\<rparr> else x) (t_orders (db w))\<rparr>"
      using ord_Updates [OF upd] by (auto simp: update_result_def order_schema_def cong del: if_weak_cong)
    then show ?thesis using r Inr ord_Updates [OF upd] by (auto simp: filter_empty_conv)
  qed (use r ord_Updates [OF upd] in \<open>simp add: update_result_def\<close>)
qed

lemma advance_tx_result:
  assumes "advance_tx X no s typ mk w = (r, w')"
  shows "kv w' = kv w \<and> log w' = log w \<and>
    (case r of Inr _ \<Rightarrow> order_advanced jsonb no s typ mk (db w) (db w') | Inl e \<Rightarrow> True)"
proof -
  obtain m u where upd: "UpdateStatusByOrderNoTx (orders_tbl X) no s w = (m, u)" by fastforce
  note updated = UpdateStatusByOrderNoTx_result [OF upd]
  obtain i v where i: "uuid_New X u = (i, v)" by fastforce
  obtain t x where t: "time_Now X v = (t, x)" by fastforce
  show ?thesis
  proof (cases m)
    case (Inl e)
    then show ?thesis using assms upd updated by (auto simp: advance_tx_def)
  next
    case (Inr one)
    let ?b = "\<lparr>ev_EventID = i, ev_EventType = typ, ev_Timestamp = t\<rparr>"
    have wrote: "WriteEvent (outbox_tbl X) ''order'' no typ TopicOrderEvents (mk ?b) x = (r, w')"
      using assms upd i t Inr by (simp add: advance_tx_def)
    note out = announce [OF i t wrote]
    obtain tt where u: "db u = (db w)\<lparr>t_orders :=
        map (\<lambda>x. if ord_OrderNo x = no then x\<lparr>ord_Status := s, ord_UpdatedAt := tt\<rparr> else x) (t_orders (db w))\<rparr>"
      using updated Inr by auto
    show ?thesis
    proof (cases r)
      case (Inr one)
      then obtain y where "db w' = (db u)\<lparr>t_outbox := t_outbox (db u) @ [y]\<rparr>"
        "is_event_row jsonb ''order'' no typ TopicOrderEvents (mk ?b) y" using out by auto
      moreover have "ev_EventType ?b = typ" by simp
      ultimately have "order_advanced jsonb no s typ mk (db w) (db w')"
        unfolding order_advanced_def u by (intro exI [of _ tt] exI [of _ ?b] exI [of _ y]) simp
      then show ?thesis using out updated Inr by simp
    qed (use out updated in simp)
  qed
qed

lemma GetOrderByOrderNo_result:
  assumes "GetOrderByOrderNo (orders_tbl X) no w = (r, w')"
  shows "kv w' = kv w \<and> log w' = log w \<and> db w' = db w \<and>
    (case r of Inr x \<Rightarrow> x \<in> set (t_orders (db w)) \<and> ord_OrderNo x = no
     | Inl e \<Rightarrow> e = ErrRecordNotFound \<and> (\<forall>x\<in>set (t_orders (db w)). ord_OrderNo x \<noteq> no) \<or> is_external e)"
  using ord_First [OF assms [unfolded GetOrderByOrderNo_def]]
  by (auto simp: first_result_def split: sum.splits)

end

text \<open>The four answers: the new status, the event that follows, and the result for the user, if any.\<close>

definition answered ::
    "(json \<Rightarrow> json) \<Rightarrow> string \<Rightarrow> int \<Rightarrow> string \<Rightarrow> (BaseEvent \<Rightarrow> payload) \<Rightarrow> string option \<Rightarrow>
      tables \<times> redis_kv \<Rightarrow> tables \<times> redis_kv \<Rightarrow> bool" where
  "answered jsonb no s kind mk result before after \<longleftrightarrow>
     order_advanced jsonb no s kind mk (fst before) (fst after) \<and>
     snd after = (case result of None \<Rightarrow> snd before | Some res \<Rightarrow> (snd before)(resultKey no \<mapsto> Text res))"

lemma find_order:
  assumes "orders_ok d" "od \<in> set (t_orders d)" "x \<in> set (t_orders d)" "ord_OrderNo x = ord_OrderNo od"
  shows "x = od"
  using assms by (auto simp: orders_ok_def distinct_map inj_on_def)

context quiet_runtime
begin

lemma advance_quiet:
  assumes "db_Transaction X (\<lambda>v. no_capture (advance_tx X no s kind mk v)) w = (r, w')"
  shows "kv w' = kv w \<and> log w' = log w \<and>
    (case r of Inr _ \<Rightarrow> order_advanced jsonb no s kind mk (db w) (db w') | Inl e \<Rightarrow> db w' = db w)"
proof -
  have "kv w' = kv w \<and> log w' = log w \<and>
    (case r of Inr _ \<Rightarrow> order_advanced jsonb no s kind mk (db w) (db w') | Inl e \<Rightarrow> db w' = db w \<and> (True \<or> is_external e))"
  proof (rule Transaction_quiet_unit [OF assms])
    fix v r v' assume "advance_tx X no s kind mk v = (r, v')" "db v = db w"
    then show "kv v' = kv v \<and> log v' = log v \<and>
        (case r of Inr _ \<Rightarrow> order_advanced jsonb no s kind mk (db w) (db v') | Inl e \<Rightarrow> True)"
      using advance_tx_result [of no s kind mk v r v'] by (cases r) simp_all
  qed
  then show ?thesis by (cases r) simp_all
qed

end

context reliable_runtime
begin

lemma advance_tx_reliable:
  assumes "advance_tx X no s kind mk w = (r, w')" "\<exists>x\<in>set (t_orders (db w)). ord_OrderNo x = no"
    and "\<And>b. \<exists>j. json_Marshal (mk b) = Inr j"
  shows "r = Inr ()"
proof -
  obtain m u where upd: "UpdateStatusByOrderNoTx (orders_tbl X) no s w = (m, u)" by fastforce
  obtain n where "db_Updates (orders_tbl X) (\<lambda>x. ord_OrderNo x = no) (\<lambda>x. x\<lparr>ord_Status := s\<rparr>) w = (n, u)"
    and m: "m = (case n of Inl e \<Rightarrow> Inl e | Inr k \<Rightarrow> if k = 0 then Inl ErrRecordNotFound else Inr ())"
    using upd by (auto simp: UpdateStatusByOrderNoTx_def split: prod.splits sum.splits)
  then obtain k where "n = Inr k" using ord.Updates_reliable by blast
  then have "m = Inr ()"
    using UpdateStatusByOrderNoTx_result [OF upd] assms(2) m by (cases "k = 0") auto
  obtain i v where i: "uuid_New X u = (i, v)" by fastforce
  obtain t x where t: "time_Now X v = (t, x)" by fastforce
  obtain j where j: "json_Marshal (mk \<lparr>ev_EventID = i, ev_EventType = kind, ev_Timestamp = t\<rparr>) = Inr j"
    using assms(3) by blast
  show ?thesis
    by (rule WriteEvent_reliable [OF _ j])
      (use assms(1) upd \<open>m = Inr ()\<close> i t in \<open>simp add: advance_tx_def\<close>)
qed

lemma advance_reliable:
  assumes "db_Transaction X (\<lambda>v. no_capture (advance_tx X no s kind mk v)) w = (r, w')"
    and "\<exists>x\<in>set (t_orders (db w)). ord_OrderNo x = no" "\<And>b. \<exists>j. json_Marshal (mk b) = Inr j"
  shows "\<exists>u. r = Inr u \<and> kv w' = kv w \<and> log w' = log w \<and> order_advanced jsonb no s kind mk (db w) (db w')"
proof -
  have "kv w' = kv w \<and> log w' = log w \<and>
    (case r of Inr _ \<Rightarrow> order_advanced jsonb no s kind mk (db w) (db w') | Inl e \<Rightarrow> db w' = db w \<and> False)"
  proof (rule Transaction_reliable_unit [OF assms(1)])
    fix v r v' assume body: "advance_tx X no s kind mk v = (r, v')" and "db v = db w"
    then show "kv v' = kv v \<and> log v' = log v \<and>
        (case r of Inr _ \<Rightarrow> order_advanced jsonb no s kind mk (db w) (db v') | Inl e \<Rightarrow> False)"
      using advance_tx_result [OF body] advance_tx_reliable [OF body _ assms(3)] assms(2) by simp
  qed
  then show ?thesis by (cases r) auto
qed

lemma GetOrder_reliable:
  assumes "GetOrderByOrderNo (orders_tbl X) no w = (r, w')" "orders_ok (db w)" "od \<in> set (t_orders (db w))"
    and "ord_OrderNo od = no"
  shows "r = Inr od \<and> db w' = db w \<and> kv w' = kv w \<and> log w' = log w"
proof (cases r)
  case (Inl e)
  then have "e = ErrRecordNotFound" using ord.First_reliable assms(1) unfolding GetOrderByOrderNo_def by blast
  then show ?thesis using GetOrderByOrderNo_result [OF assms(1)] Inl assms(3,4) by auto
next
  case (Inr x)
  then show ?thesis using GetOrderByOrderNo_result [OF assms(1)] find_order [OF assms(2,3)] assms(4) by auto
qed

lemma marshals:
  "f64_is_finite (ord_TotalPrice od) \<Longrightarrow> \<exists>j. json_Marshal (payment_requested od no b) = Inr j"
  "\<exists>j. json_Marshal (order_completed od no b) = Inr j" "\<exists>j. json_Marshal (order_cancelled od no p re b) = Inr j"
  by (simp_all add: payment_requested_def order_completed_def order_cancelled_def marshal_float_def
      BaseEvent.extend_def PaymentRequestedEvent.fields_def)

text \<open>With a known order, every answer has its effect.\<close>

lemma HandleInventoryEvent_reliable:
  assumes "HandleInventoryEvent X key val w = (r, w')" "orders_ok (db w)" "od \<in> set (t_orders (db w))"
  shows "carries val (PayStockDeducted e) \<Longrightarrow> ev_EventType e = StockDeducted \<Longrightarrow> sd_OrderNo e = ord_OrderNo od \<Longrightarrow>
      f64_is_finite (ord_TotalPrice od) \<Longrightarrow>
      answered jsonb (ord_OrderNo od) StatusAwaitingPayment PaymentRequested
        (payment_requested od (ord_OrderNo od)) None (db w, kv w) (db w', kv w')"
    and "carries val (PayStockDeductFailed f) \<Longrightarrow> ev_EventType f = StockDeductFailed \<Longrightarrow> sf_OrderNo f = ord_OrderNo od \<Longrightarrow>
      answered jsonb (ord_OrderNo od) StatusCancelled OrderCancelled
        (order_cancelled od (ord_OrderNo od) (sf_ProductID f) ''stock_deduction_failed'') (Some ''FAILED'')
        (db w, kv w) (db w', kv w')"
proof -
  obtain g u where get: "GetOrderByOrderNo (orders_tbl X) (ord_OrderNo od) w = (g, u)" by fastforce
  note got = GetOrder_reliable [OF get assms(2,3) refl]
  have here: "\<exists>x\<in>set (t_orders (db u)). ord_OrderNo x = ord_OrderNo od" using got assms(3) by auto
  show "answered jsonb (ord_OrderNo od) StatusAwaitingPayment PaymentRequested
        (payment_requested od (ord_OrderNo od)) None (db w, kv w) (db w', kv w')"
    if c: "carries val (PayStockDeducted e)" "ev_EventType e = StockDeducted" "sd_OrderNo e = ord_OrderNo od"
      "f64_is_finite (ord_TotalPrice od)"
  proof -
    obtain t v where tx: "db_Transaction X (\<lambda>v. no_capture (advance_tx X (ord_OrderNo od) StatusAwaitingPayment
        PaymentRequested (payment_requested od (ord_OrderNo od)) v)) u = (t, v)" by fastforce
    have "w' = v" using assms(1) carries_base [OF c(1)] carries_decode(5) [OF c(1)] c(2,3) get got tx
      by (simp add: HandleInventoryEvent_def handleStockDeducted_def BaseEvent.truncate_def)
    then show ?thesis using advance_reliable [OF tx here marshals(1) [OF c(4)]] got by (auto simp: answered_def)
  qed
  show "answered jsonb (ord_OrderNo od) StatusCancelled OrderCancelled
        (order_cancelled od (ord_OrderNo od) (sf_ProductID f) ''stock_deduction_failed'') (Some ''FAILED'')
        (db w, kv w) (db w', kv w')"
    if c: "carries val (PayStockDeductFailed f)" "ev_EventType f = StockDeductFailed" "sf_OrderNo f = ord_OrderNo od"
  proof -
    obtain t v where tx: "db_Transaction X (\<lambda>v. no_capture (advance_tx X (ord_OrderNo od) StatusCancelled OrderCancelled
        (order_cancelled od (ord_OrderNo od) (sf_ProductID f) ''stock_deduction_failed'') v)) u = (t, v)" by fastforce
    obtain s x where set: "rdb_Set X (resultKey (ord_OrderNo od)) (Text ''FAILED'') 0 v = (s, x)" by fastforce
    note eff = advance_reliable [OF tx here marshals(3)]
    then have "w' = x" using assms(1) carries_base [OF c(1)] carries_decode(6) [OF c(1)] c(2,3) get got tx set
      by (auto simp: HandleInventoryEvent_def handleStockDeductFailed_def BaseEvent.truncate_def event_type_defs)
    then show ?thesis using eff got Set_ok [OF set] by (auto simp: answered_def)
  qed
qed

lemma HandlePaymentEvent_reliable:
  assumes "HandlePaymentEvent X key val w = (r, w')" "orders_ok (db w)" "od \<in> set (t_orders (db w))"
    and c: "carries val (PayPaymentResult e)" "ps_OrderNo e = ord_OrderNo od"
  shows "ev_EventType e = PaymentSuccess \<Longrightarrow> answered jsonb (ord_OrderNo od) StatusPaid OrderCompleted
      (order_completed od (ord_OrderNo od)) (Some ''SUCCESS'') (db w, kv w) (db w', kv w')"
    and "ev_EventType e = PaymentFailed \<Longrightarrow> answered jsonb (ord_OrderNo od) StatusCancelled OrderCancelled
      (order_cancelled od (ord_OrderNo od) (ord_ProductID od) ''payment_failed'') (Some ''FAILED'')
      (db w, kv w) (db w', kv w')"
proof -
  obtain g u where get: "GetOrderByOrderNo (orders_tbl X) (ord_OrderNo od) w = (g, u)" by fastforce
  note got = GetOrder_reliable [OF get assms(2,3) refl]
  have here: "\<exists>x\<in>set (t_orders (db u)). ord_OrderNo x = ord_OrderNo od" using got assms(3) by auto
  show "answered jsonb (ord_OrderNo od) StatusPaid OrderCompleted
      (order_completed od (ord_OrderNo od)) (Some ''SUCCESS'') (db w, kv w) (db w', kv w')"
    if kind: "ev_EventType e = PaymentSuccess"
  proof -
    obtain t v where tx: "db_Transaction X (\<lambda>v. no_capture (advance_tx X (ord_OrderNo od) StatusPaid
        OrderCompleted (order_completed od (ord_OrderNo od)) v)) u = (t, v)" by fastforce
    obtain s x where set: "rdb_Set X (resultKey (ord_OrderNo od)) (Text ''SUCCESS'') 0 v = (s, x)" by fastforce
    note eff = advance_reliable [OF tx here marshals(2)]
    then have "w' = x" using assms(1) carries_base [OF c(1)] carries_decode(7) [OF c(1)] c(2) kind get got tx set
      by (auto simp: HandlePaymentEvent_def handlePaymentSuccess_def BaseEvent.truncate_def)
    then show ?thesis using eff got Set_ok [OF set] by (auto simp: answered_def)
  qed
  show "answered jsonb (ord_OrderNo od) StatusCancelled OrderCancelled
      (order_cancelled od (ord_OrderNo od) (ord_ProductID od) ''payment_failed'') (Some ''FAILED'')
      (db w, kv w) (db w', kv w')"
    if kind: "ev_EventType e = PaymentFailed"
  proof -
    obtain t v where tx: "db_Transaction X (\<lambda>v. no_capture (advance_tx X (ord_OrderNo od) StatusCancelled OrderCancelled
        (order_cancelled od (ord_OrderNo od) (ord_ProductID od) ''payment_failed'') v)) u = (t, v)" by fastforce
    obtain s x where set: "rdb_Set X (resultKey (ord_OrderNo od)) (Text ''FAILED'') 0 v = (s, x)" by fastforce
    note eff = advance_reliable [OF tx here marshals(3)]
    then have "w' = x" using assms(1) carries_base [OF c(1)] carries_decode(7) [OF c(1)] c(2) kind get got tx set
      by (auto simp: HandlePaymentEvent_def handlePaymentFailed_def BaseEvent.truncate_def event_type_defs)
    then show ?thesis using eff got Set_ok [OF set] by (auto simp: answered_def)
  qed
qed

end

section \<open>Properties\<close>

text \<open>C7: the orders table stays well formed. Whatever requests are served and messages handled, in any
  order, with any contents, and among other sessions that keep it so, no two orders share an order
  number or a user and product, and every status is one of the four constants.\<close>

theorem orders_stay_well_formed:
  assumes "runtime db kv log rely num jsonb X"
    and "\<And>d d'. rely d d' \<Longrightarrow> orders_ok d \<Longrightarrow> orders_ok d'"
    and "orders_ok (db w)" "(order_step X)\<^sup>*\<^sup>* w w'"
  shows "orders_ok (db w')"
  by (rule order_invariant.order_steps_keep [OF orders_ok_invariant [OF assms(1,2)] assms(4,3)])


text \<open>A late answer reopens a paid order. The handlers do not look at the order's status: a
  STOCK_DEDUCTED event that arrives once more for a paid order puts it back to awaiting payment and
  requests the payment again.\<close>

theorem redelivered_deduction_reopens_paid_order:
  assumes "reliable_runtime db kv log num jsonb X" "orders_ok (db w)" "od \<in> set (t_orders (db w))"
    and "ord_Status od = StatusPaid" "f64_is_finite (ord_TotalPrice od)"
    and "carries val (PayStockDeducted e)" "ev_EventType e = StockDeducted" "sd_OrderNo e = ord_OrderNo od"
    and "HandleInventoryEvent X key val w = (r, w')"
  shows "\<exists>t x b. od\<lparr>ord_Status := StatusAwaitingPayment, ord_UpdatedAt := t\<rparr> \<in> set (t_orders (db w'))
    \<and> x \<in> set (t_outbox (db w'))
    \<and> is_event_row jsonb ''order'' (ord_OrderNo od) PaymentRequested TopicOrderEvents
        (payment_requested od (ord_OrderNo od) b) x"
proof -
  have "order_advanced jsonb (ord_OrderNo od) StatusAwaitingPayment PaymentRequested
      (payment_requested od (ord_OrderNo od)) (db w) (db w')"
    using reliable_runtime.HandleInventoryEvent_reliable(1) [OF assms(1,9,2,3,6,7,8,5)] by (simp add: answered_def)
  then obtain t b x where x: "is_event_row jsonb ''order'' (ord_OrderNo od) PaymentRequested TopicOrderEvents
        (payment_requested od (ord_OrderNo od) b) x"
    and d: "db w' = (db w)\<lparr>t_orders := map (\<lambda>y. if ord_OrderNo y = ord_OrderNo od
          then y\<lparr>ord_Status := StatusAwaitingPayment, ord_UpdatedAt := t\<rparr> else y) (t_orders (db w)),
        t_outbox := t_outbox (db w) @ [x]\<rparr>"
    unfolding order_advanced_def by blast
  have "od\<lparr>ord_Status := StatusAwaitingPayment, ord_UpdatedAt := t\<rparr> \<in> set (t_orders (db w'))"
    using assms(3) by (simp add: d image_iff) (intro bexI [of _ od], simp_all)
  moreover have "x \<in> set (t_outbox (db w'))" by (simp add: d)
  ultimately show ?thesis using x by blast
qed

section \<open>Witnesses\<close>

text \<open>Sessions that buy stock leave the orders alone.\<close>

lemma other_deducts_orders_ok: "rely_of other_deduct d d' \<Longrightarrow> orders_ok d \<Longrightarrow> orders_ok d'"
proof -
  have one: "t_orders (other_deduct a e) = t_orders e" for a e
    by (cases a) (simp add: other_deduct_def)
  have "t_orders (fold other_deduct acts e) = t_orders e" for acts e
    by (induction acts arbitrary: e) (simp_all add: one)
  then show "rely_of other_deduct d d' \<Longrightarrow> orders_ok d \<Longrightarrow> orders_ok d'"
    by (auto simp: rely_of_def orders_ok_def)
qed

interpretation busy_orders: order_invariant mem_db mem_kv mem_log "rely_of other_deduct" num jsonb
    "mem_ext flaky other_deduct num jsonb" orders_ok
  for flaky num jsonb
  by (rule orders_ok_invariant [OF mem_runtime other_deducts_orders_ok])

definition busy_mall :: "(nat \<times> nat) mem" where
  "busy_mall = mem_empty\<lparr>mem_db := (mem_db (mem_empty :: unit mem))
     \<lparr>t_products := [demo_product 1 ''phone''], t_inventories := [demo_row]\<rparr>,
     mem_clock := (62135596800000 + 1704067200000 + 6) * 1000000, mem_others := [[(1, 1)], [], [(1, 2)]]\<rparr>"

text \<open>An order placed and cancelled while others buy.\<close>

theorem orders_stay_well_formed_witness:
  "\<exists>w'. (order_step (busy_ext False))\<^sup>*\<^sup>* busy_mall w' \<and> orders_ok (mem_db w')
     \<and> map ord_Status (t_orders (mem_db w')) = [StatusCancelled]"
proof -
  let ?create = "CreateOrder (busy_ext False) demo_node 101 (demo_request 2) busy_mall"
  have "case ?create of None \<Rightarrow> False
    | Some (r, n, w) \<Rightarrow> map ord_Status (t_orders (mem_db (snd (CancelOrder (busy_ext False) 101 1 w)))) = [3]"
    by code_simp
  then obtain r n w where create: "?create = Some (r, n, w)"
    and st: "map ord_Status (t_orders (mem_db (snd (CancelOrder (busy_ext False) 101 1 w)))) = [StatusCancelled]"
    by (auto simp: status_defs split: option.splits)
  let ?w = "snd (CancelOrder (busy_ext False) 101 1 w)"
  have steps: "(order_step (busy_ext False))\<^sup>*\<^sup>* busy_mall ?w"
    using step_create [OF create] step_cancel [of "busy_ext False" 101 1 w "fst (CancelOrder (busy_ext False) 101 1 w)" ?w]
    by simp
  have "orders_ok (mem_db ?w)"
  proof (rule orders_stay_well_formed [OF mem_runtime _ _ steps])
    show "orders_ok d'" if "rely_of other_deduct d d'" "orders_ok d" for d d'
      using other_deducts_orders_ok that .
    show "orders_ok (mem_db busy_mall)" by (simp add: busy_mall_def mem_empty_def orders_ok_def)
  qed
  with steps st show ?thesis by (intro exI [of _ ?w] conjI)
qed

definition demo_sale :: "int \<Rightarrow> unit mem" where
  "demo_sale s = mem_empty\<lparr>mem_db := (mem_db (mem_empty :: unit mem))\<lparr>t_orders := [demo_order\<lparr>ord_Status := s\<rparr>]\<rparr>\<rparr>"

lemma demo_sale_ok: "known_status s \<Longrightarrow> orders_ok (mem_db (demo_sale s))"
  "t_orders (mem_db (demo_sale s)) = [demo_order\<lparr>ord_Status := s\<rparr>]"
  by (simp_all add: demo_sale_def mem_empty_def orders_ok_def)

definition demo_paid :: PaymentResultEvent where
  "demo_paid = \<lparr>ev_EventID = ''p'', ev_EventType = PaymentSuccess, ev_Timestamp = 0, ps_OrderNo = ''42'',
     ps_PaymentID = ''pay-1'', ps_Amount = f64_one\<rparr>"

definition demo_deducted :: StockDeductedEvent where
  "demo_deducted = \<lparr>ev_EventID = ''d'', ev_EventType = StockDeducted, ev_Timestamp = 0, sd_OrderNo = ''42'',
     sd_ProductID = 1, sd_Quantity = 2\<rparr>"


theorem redelivered_deduction_reopens_paid_order_witness:
  "\<exists>w'. snd (HandleInventoryEvent (demo_ext False) ''42'' (marshalled (PayStockDeducted demo_deducted))
        (demo_sale StatusPaid)) = w'
     \<and> (\<exists>x. x \<in> set (t_orders (mem_db w')) \<and> ord_Status x = StatusAwaitingPayment)"
proof -
  let ?od = "demo_order\<lparr>ord_Status := StatusPaid\<rparr>"
  have c: "carries (marshalled (PayStockDeducted demo_deducted)) (PayStockDeducted demo_deducted)"
    by (rule carries_marshalled) (simp add: demo_deducted_def is_uint_def in_int64_def)
  have od: "?od \<in> set (t_orders (mem_db (demo_sale StatusPaid)))" by (simp add: demo_sale_ok)
  have "ord_Status ?od = StatusPaid" "f64_is_finite (ord_TotalPrice ?od)"
    "ev_EventType demo_deducted = StockDeducted" "sd_OrderNo demo_deducted = ord_OrderNo ?od"
    by (simp_all add: demo_order_def demo_deducted_def f64_one_parts)
  note facts = this
  obtain r w' where run: "HandleInventoryEvent (demo_ext False) ''42'' (marshalled (PayStockDeducted demo_deducted))
      (demo_sale StatusPaid) = (r, w')" by fastforce
  from redelivered_deduction_reopens_paid_order [OF demo_reliable demo_sale_ok(1) od facts(1,2) c facts(3,4) run]
  obtain t where "?od\<lparr>ord_Status := StatusAwaitingPayment, ord_UpdatedAt := t\<rparr> \<in> set (t_orders (mem_db w'))"
    by auto
  then show ?thesis using run by (intro exI [of _ w']) force
qed

end
