(* ===== verification/Payment.thy ===== *)
theory Payment
  imports Inventory_Events
begin

text \<open>
  \<^verbatim>\<open>internal/payment/service.go\<close>: the simulated payment. The success rate is kept as the bits
  of a \<^verbatim>\<open>float64\<close>, which is what \<open>float64\<close> is here; a configuration listener may replace it
  between two messages. The delay before a payment touches nothing but the random source.
\<close>

section \<open>service.go\<close>

record Service =
  successRateBits :: float64

definition SetSuccessRate :: "float64 \<Rightarrow> Service \<Rightarrow> Service" where
  "SetSuccessRate rate s =
     (let rate' = (if f64_lt rate f64_zero \<or> f64_lt f64_one rate then f64_one else rate) in
      s\<lparr>successRateBits := rate'\<rparr>)"

definition NewPaymentService :: "float64 \<Rightarrow> Service" where
  "NewPaymentService rate = SetSuccessRate rate \<lparr>successRateBits = f64_zero\<rparr>"

definition successRate :: "Service \<Rightarrow> float64" where
  "successRate s = successRateBits s"

definition processPayment_tx ::
    "'w ext \<Rightarrow> Payment \<Rightarrow> string \<Rightarrow> PaymentRequestedEvent \<Rightarrow> 'w \<Rightarrow> (go_error + unit) \<times> 'w" where
  "processPayment_tx X p eventType evt w =
     (case db_Create (payments_tbl X) p w of
        (Inl err, w1) \<Rightarrow> (Inl err, w1)
      | (Inr _, w1) \<Rightarrow>
          (case uuid_New X w1 of (eventID, w2) \<Rightarrow>
             (case time_Now X w2 of (now, w3) \<Rightarrow>
                WriteEvent (outbox_tbl X) ''payment'' (pr_OrderNo evt) eventType TopicPaymentEvents
                  (PayPaymentResult
                     \<lparr>ev_EventID = eventID, ev_EventType = eventType, ev_Timestamp = now,
                      ps_OrderNo = pr_OrderNo evt, ps_PaymentID = pay_PaymentID p, ps_Amount = pr_Amount evt\<rparr>) w3)))"

definition processPayment :: "'w ext \<Rightarrow> Service \<Rightarrow> PaymentRequestedEvent \<Rightarrow> 'w \<Rightarrow> (go_error + unit) \<times> 'w" where
  "processPayment X s evt w =
     (case rand_Intn X 400 w of (_, w1) \<Rightarrow>
        (case uuid_New X w1 of (paymentID, w2) \<Rightarrow>
           (case rand_Float64 X w2 of (draw, w3) \<Rightarrow>
              (let success = f64_lt draw (successRate s);
                   status = (if success then 1 else 2);
                   eventType = (if success then PaymentSuccess else PaymentFailed);
                   p = \<lparr>pay_ID = 0, pay_PaymentID = paymentID, pay_OrderNo = pr_OrderNo evt,
                        pay_UserID = pr_UserID evt, pay_Amount = pr_Amount evt, pay_Status = status,
                        pay_CreatedAt = 0, pay_UpdatedAt = 0\<rparr> in
               (case db_Transaction X (\<lambda>v. no_capture (processPayment_tx X p eventType evt v)) w3 of
                  (_, w4) \<Rightarrow> (Inr (), w4))))))"

definition PaymentService_HandleOrderEvent ::
    "'w ext \<Rightarrow> Service \<Rightarrow> string \<Rightarrow> json \<Rightarrow> 'w \<Rightarrow> (go_error + unit) \<times> 'w" where
  "PaymentService_HandleOrderEvent X s key val w =
     (case json_Unmarshal dec_BaseEvent val of
        Inl _ \<Rightarrow> (Inr (), w)
      | Inr base \<Rightarrow>
          (if ev_EventType base \<noteq> PaymentRequested then (Inr (), w)
           else (case json_Unmarshal dec_PaymentRequested val of
                   Inl _ \<Rightarrow> (Inr (), w)
                 | Inr evt \<Rightarrow> processPayment X s evt w)))"

section \<open>cmd/payment-service\<close>

text \<open>The rate the service starts with, and what the configuration listener makes
  of a new content, after \<^verbatim>\<open>strconv.ParseFloat\<close> has read it.\<close>

definition startup_rate :: "float64 \<Rightarrow> float64" where
  "startup_rate configured = (if f64_eq configured f64_zero then f64_one else configured)"

definition on_config_change :: "go_error + float64 \<Rightarrow> Service \<Rightarrow> Service" where
  "on_config_change parsed s = (case parsed of Inl _ \<Rightarrow> s | Inr rate \<Rightarrow> SetSuccessRate rate s)"

section \<open>What a payment leaves behind\<close>

text \<open>The payment row and the event announcing its outcome.\<close>

definition payment_made ::
    "(float64 \<Rightarrow> float64) \<Rightarrow> (json \<Rightarrow> json) \<Rightarrow> PaymentRequestedEvent \<Rightarrow> bool \<Rightarrow> tables \<Rightarrow> tables \<Rightarrow> bool" where
  "payment_made num jsonb evt ok d d' \<longleftrightarrow>
     (let kind = (if ok then PaymentSuccess else PaymentFailed) in
      \<exists>p x b. d' = d\<lparr>t_payments := t_payments d @ [p], t_outbox := t_outbox d @ [x]\<rparr>
        \<and> pay_OrderNo p = pr_OrderNo evt \<and> pay_UserID p = pr_UserID evt \<and> pay_Amount p = num (pr_Amount evt)
        \<and> pay_Status p = (if ok then 1 else 2) \<and> pay_PaymentID p \<notin> pay_PaymentID ` set (t_payments d)
        \<and> ev_EventType b = kind
        \<and> is_event_row jsonb ''payment'' (pr_OrderNo evt) kind TopicPaymentEvents
            (PayPaymentResult (BaseEvent.extend b
              (PaymentResultEvent.fields (pr_OrderNo evt) (pay_PaymentID p) (pr_Amount evt)))) x)"

context quiet_runtime
begin

lemma processPayment_tx_result:
  assumes "processPayment_tx X p (if ok then PaymentSuccess else PaymentFailed) evt w = (r, w')"
    and "pay_OrderNo p = pr_OrderNo evt" "pay_UserID p = pr_UserID evt" "pay_Amount p = pr_Amount evt"
    and "pay_Status p = (if ok then 1 else 2)"
  shows "kv w' = kv w \<and> log w' = log w \<and>
    (case r of Inr _ \<Rightarrow> payment_made num jsonb evt ok (db w) (db w') | Inl e \<Rightarrow> True)"
proof -
  let ?kind = "if ok then PaymentSuccess else PaymentFailed"
  obtain c u where create: "db_Create (payments_tbl X) p w = (c, u)" by fastforce
  note made = pay_Create [OF create]
  show ?thesis
  proof (cases c)
    case (Inl e)
    then show ?thesis using assms(1) create made by (auto simp: processPayment_tx_def)
  next
    case (Inr row)
    obtain i v where i: "uuid_New X u = (i, v)" by fastforce
    obtain t s where t: "time_Now X v = (t, s)" by fastforce
    let ?b = "\<lparr>ev_EventID = i, ev_EventType = ?kind, ev_Timestamp = t\<rparr>"
    let ?e = "PayPaymentResult (BaseEvent.extend ?b
      (PaymentResultEvent.fields (pr_OrderNo evt) (pay_PaymentID p) (pr_Amount evt)))"
    have wrote: "WriteEvent (outbox_tbl X) ''payment'' (pr_OrderNo evt) ?kind TopicPaymentEvents ?e s = (r, w')"
      using assms(1) create Inr i t
      by (simp add: processPayment_tx_def BaseEvent.extend_def PaymentResultEvent.fields_def)
    note out = announce [OF i t wrote]
    obtain q where q: "db u = (db w)\<lparr>t_payments := t_payments (db w) @ [q]\<rparr>" "pay_PaymentID q = pay_PaymentID p"
      "pay_OrderNo q = pr_OrderNo evt" "pay_UserID q = pr_UserID evt" "pay_Amount q = num (pr_Amount evt)"
      "pay_Status q = (if ok then 1 else 2)" "pay_PaymentID q \<notin> pay_PaymentID ` set (t_payments (db w))"
      using made Inr assms(2-5) by (fastforce simp: create_result_def payment_schema_def clashes_def)
    show ?thesis
    proof (cases r)
      case (Inr one)
      then obtain x where "db w' = (db u)\<lparr>t_outbox := t_outbox (db u) @ [x]\<rparr>"
        "is_event_row jsonb ''payment'' (pr_OrderNo evt) ?kind TopicPaymentEvents ?e x" using out by auto
      moreover have "ev_EventType ?b = ?kind" by simp
      ultimately have "payment_made num jsonb evt ok (db w) (db w')"
        unfolding payment_made_def Let_def
        by (intro exI [of _ q] exI [of _ x] exI [of _ ?b] conjI) (use q in simp_all)
      then show ?thesis using out made Inr \<open>c = Inr row\<close> by simp
    qed (use out made Inr in simp)
  qed
qed

text \<open>The draw decides the outcome; the transaction records it, or nothing.\<close>

lemma processPayment_result:
  assumes "processPayment X s evt w = (r, w')"
  obtains draw where "\<not> f64_lt draw f64_zero" "f64_lt draw f64_one" "r = Inr ()" "kv w' = kv w" "log w' = log w"
    "db w' = db w \<or> payment_made num jsonb evt (f64_lt draw (successRate s)) (db w) (db w')"
proof -
  obtain n w1 where n: "rand_Intn X 400 w = (n, w1)" by fastforce
  obtain pid w2 where pid: "uuid_New X w1 = (pid, w2)" by fastforce
  obtain draw w3 where draw: "rand_Float64 X w2 = (draw, w3)" by fastforce
  let ?ok = "f64_lt draw (successRate s)"
  let ?p = "\<lparr>pay_ID = 0, pay_PaymentID = pid, pay_OrderNo = pr_OrderNo evt, pay_UserID = pr_UserID evt,
    pay_Amount = pr_Amount evt, pay_Status = (if ?ok then 1 else 2), pay_CreatedAt = 0, pay_UpdatedAt = 0\<rparr>"
  obtain c w4 where tx: "db_Transaction X (\<lambda>v. no_capture
      (processPayment_tx X ?p (if ?ok then PaymentSuccess else PaymentFailed) evt v)) w3 = (c, w4)" by fastforce
  have w: "r = Inr ()" "w' = w4" using assms n pid draw tx by (simp_all add: processPayment_def Let_def)
  have same: "db w3 = db w" "kv w3 = kv w" "log w3 = log w"
    using inp.Intn_law [OF n] inp.New_law [OF pid] inp.Float64_law [OF draw] by auto
  have "kv w4 = kv w3 \<and> log w4 = log w3 \<and> (case c of Inr _ \<Rightarrow> payment_made num jsonb evt ?ok (db w3) (db w4)
      | Inl e \<Rightarrow> db w4 = db w3 \<and> (True \<or> is_external e))"
  proof (rule Transaction_quiet_unit [OF tx])
    fix v t v' assume body: "processPayment_tx X ?p (if ?ok then PaymentSuccess else PaymentFailed) evt v = (t, v')"
      and "db v = db w3"
    then show "kv v' = kv v \<and> log v' = log v \<and>
        (case t of Inr _ \<Rightarrow> payment_made num jsonb evt ?ok (db w3) (db v') | Inl e \<Rightarrow> True)"
      using processPayment_tx_result [OF body] by (cases t) simp_all
  qed
  then have "db w4 = db w \<or> payment_made num jsonb evt ?ok (db w) (db w4)" "kv w4 = kv w" "log w4 = log w"
    using same by (cases c; simp)+
  then show ?thesis using that inp.Float64_law [OF draw] w by blast
qed

end

context quiet_runtime
begin

lemma payment_handler_cases:
  assumes "PaymentService_HandleOrderEvent X s key val w = (r, w')"
  shows "w' = w \<and> r = Inr () \<or> (\<exists>evt. json_Unmarshal dec_PaymentRequested val = Inr evt
    \<and> processPayment X s evt w = (r, w'))"
  using assms by (auto simp: PaymentService_HandleOrderEvent_def split: sum.splits if_splits)

end

lemma payment_handler_request:
  assumes "carries val (PayPaymentRequested evt)" "ev_EventType evt = PaymentRequested"
  shows "PaymentService_HandleOrderEvent X s key val w = processPayment X s evt w"
  using carries_base [OF assms(1)] carries_decode(4) [OF assms(1)] assms(2)
  by (simp add: PaymentService_HandleOrderEvent_def BaseEvent.truncate_def)

lemma default_rate: "successRate (NewPaymentService (startup_rate f64_zero)) = f64_one"
  by (simp add: NewPaymentService_def startup_rate_def SetSuccessRate_def successRate_def f64_eq_def f64_lt_def
      f64_zero_def f64_is_nan_def f64_exp_def Let_def)

context reliable_runtime
begin

text \<open>With a payment identifier not used before, the request is answered.\<close>

lemma processPayment_reliable:
  assumes "processPayment X s evt w = (r, w')" "f64_is_finite (pr_Amount evt)"
    and fresh: "\<And>v i v'. uuid_New X v = (i, v') \<Longrightarrow> db v = db w \<Longrightarrow> i \<notin> pay_PaymentID ` set (t_payments (db w))"
  obtains draw where "\<not> f64_lt draw f64_zero" "f64_lt draw f64_one" "r = Inr ()" "kv w' = kv w" "log w' = log w"
    "payment_made num jsonb evt (f64_lt draw (successRate s)) (db w) (db w')"
proof -
  obtain n w1 where n: "rand_Intn X 400 w = (n, w1)" by fastforce
  obtain pid w2 where pid: "uuid_New X w1 = (pid, w2)" by fastforce
  obtain draw w3 where draw: "rand_Float64 X w2 = (draw, w3)" by fastforce
  let ?ok = "f64_lt draw (successRate s)" and ?kind = "if f64_lt draw (successRate s) then PaymentSuccess else PaymentFailed"
  let ?p = "\<lparr>pay_ID = 0, pay_PaymentID = pid, pay_OrderNo = pr_OrderNo evt, pay_UserID = pr_UserID evt,
    pay_Amount = pr_Amount evt, pay_Status = (if ?ok then 1 else 2), pay_CreatedAt = 0, pay_UpdatedAt = 0\<rparr>"
  obtain c w4 where tx: "db_Transaction X (\<lambda>v. no_capture (processPayment_tx X ?p ?kind evt v)) w3 = (c, w4)" by fastforce
  have w: "r = Inr ()" "w' = w4" using assms(1) n pid draw tx by (simp_all add: processPayment_def Let_def)
  have same: "db w3 = db w" "kv w3 = kv w" "log w3 = log w" "db w1 = db w"
    using inp.Intn_law [OF n] inp.New_law [OF pid] inp.Float64_law [OF draw] by auto
  have "kv w4 = kv w3 \<and> log w4 = log w3 \<and> (case c of Inr _ \<Rightarrow> payment_made num jsonb evt ?ok (db w3) (db w4)
      | Inl e \<Rightarrow> db w4 = db w3 \<and> False)"
  proof (rule Transaction_reliable_unit [OF tx])
    fix v t v' assume body: "processPayment_tx X ?p ?kind evt v = (t, v')" and v: "db v = db w3"
    obtain cr u where create: "db_Create (payments_tbl X) ?p v = (cr, u)" by fastforce
    have "\<exists>x. cr = Inr x"
    proof (rule ccontr)
      assume "\<not> ?thesis"
      then obtain e where cr: "cr = Inl e" by (cases cr) auto
      then have "db u = db v" using pay_Create [OF create] by (auto simp: create_result_def)
      moreover obtain y where "y \<in> set (t_payments (db u))" "pay_PaymentID y = pid"
        using pay.Create_reliable create cr by (fastforce simp: payment_schema_def)
      ultimately show False using fresh [OF pid] same v by auto
    qed
    then obtain x where x: "cr = Inr x" by blast
    obtain j v2 where j: "uuid_New X u = (j, v2)" by fastforce
    obtain tm v3 where tm: "time_Now X v2 = (tm, v3)" by fastforce
    have "t = Inr ()"
      by (rule WriteEvent_reliable [where p = "PayPaymentResult \<lparr>ev_EventID = j, ev_EventType = ?kind, ev_Timestamp = tm,
            ps_OrderNo = pr_OrderNo evt, ps_PaymentID = pid, ps_Amount = pr_Amount evt\<rparr>"])
        (use body create x j tm assms(2) in \<open>simp_all add: processPayment_tx_def marshal_float_def\<close>)
    then show "kv v' = kv v \<and> log v' = log v \<and>
        (case t of Inr _ \<Rightarrow> payment_made num jsonb evt ?ok (db w3) (db v') | Inl e \<Rightarrow> False)"
      using processPayment_tx_result [OF body] v by simp
  qed
  then have "payment_made num jsonb evt ?ok (db w) (db w4)" "kv w4 = kv w" "log w4 = log w"
    using same by (cases c; simp)+
  then show ?thesis using that inp.Float64_law [OF draw] w by blast
qed

end

section \<open>Properties\<close>


text \<open>C8: a payment and its announcement are one step. A PAYMENT_REQUESTED message adds one payment row and
  one event with the same outcome and payment identifier, or changes nothing when the transaction
  fails; with the default rate 1.0 the payment succeeds, with a rate of 0 or NaN it fails.\<close>

theorem payment_request_is_recorded:
  assumes "quiet_runtime db kv log num jsonb X"
    and "carries val (PayPaymentRequested evt)" "ev_EventType evt = PaymentRequested"
    and "PaymentService_HandleOrderEvent X s key val w = (r, w')"
  shows "r = Inr () \<and> kv w' = kv w \<and> log w' = log w \<and>
    (db w' = db w \<or> (\<exists>ok. payment_made num jsonb evt ok (db w) (db w')
       \<and> (successRate s = f64_one \<longrightarrow> ok) \<and> (ok \<longrightarrow> f64_lt f64_zero (successRate s))))"
proof -
  have run: "processPayment X s evt w = (r, w')" using assms(4) by (simp add: payment_handler_request [OF assms(2,3)])
  have pos: "\<not> f64_lt draw f64_zero \<Longrightarrow> f64_lt draw f64_one \<Longrightarrow> f64_lt draw q \<Longrightarrow> f64_lt f64_zero q" for draw q
    using zero_below_one(2) by (auto simp: f64_lt_def)
  show ?thesis by (rule quiet_runtime.processPayment_result [OF assms(1) run]) (use pos in auto)
qed

definition demo_payment :: PaymentRequestedEvent where
  "demo_payment = \<lparr>ev_EventID = ''q'', ev_EventType = PaymentRequested, ev_Timestamp = 0, pr_OrderNo = ''42'',
     pr_UserID = 101, pr_Amount = f64_one\<rparr>"

text \<open>A redelivered request is paid twice. The handler looks for no earlier payment of the order, and
  only the payment's own identifier is unique: the same message handled twice leaves two successful
  payments and two PAYMENT_SUCCESS events for one order.\<close>

theorem redelivered_request_pays_twice:
  "let pay = (\<lambda>w. snd (PaymentService_HandleOrderEvent (demo_ext False) (NewPaymentService f64_one) ''42''
                        (marshalled (PayPaymentRequested demo_payment)) w));
       w' = pay (pay (mem_empty :: unit mem)) in
   map (\<lambda>p. (pay_OrderNo p, pay_Status p)) (t_payments (mem_db w')) = [(''42'', 1), (''42'', 1)]
   \<and> map ob_EventType (t_outbox (mem_db w')) = [PaymentSuccess, PaymentSuccess]"
  by code_simp

section \<open>Witness\<close>

lemma demo_payment_carried:
  "carries (marshalled (PayPaymentRequested demo_payment)) (PayPaymentRequested demo_payment)"
  "ev_EventType demo_payment = PaymentRequested"
  by (rule carries_marshalled, simp add: demo_payment_def is_uint_def f64_one_parts) (simp add: demo_payment_def)

text \<open>The rate has become NaN: the payment fails, although the draw is 0.\<close>

theorem payment_request_is_recorded_witness:
  "\<exists>w'. snd (PaymentService_HandleOrderEvent (demo_ext False) (SetSuccessRate f64_nan (NewPaymentService f64_one)) ''42''
        (marshalled (PayPaymentRequested demo_payment)) (mem_empty :: unit mem)) = w'
     \<and> payment_made (\<lambda>x. x) (\<lambda>j. j) demo_payment False (mem_db (mem_empty :: unit mem)) (mem_db w')"
proof -
  let ?run = "PaymentService_HandleOrderEvent (demo_ext False) (SetSuccessRate f64_nan (NewPaymentService f64_one)) ''42''
        (marshalled (PayPaymentRequested demo_payment)) (mem_empty :: unit mem)"
  have "length (t_payments (mem_db (snd ?run))) = 1" by code_simp
  then have "mem_db (snd ?run) \<noteq> mem_db mem_empty" by (auto simp: mem_empty_def)
  moreover have "\<not> f64_lt f64_zero (successRate (SetSuccessRate f64_nan (NewPaymentService f64_one)))" by code_simp
  moreover obtain r w' where "?run = (r, w')" by fastforce
  ultimately show ?thesis using payment_request_is_recorded [OF demo_quiet demo_payment_carried] by force
qed

end
