(* ===== verification/Consumers.thy ===== *)
theory Consumers
  imports Registry Order_Events Payment
begin

text \<open>
  What the main functions of the three services make of the configured consumer groups: which
  handler a group's messages are given to (\<open>deliver\<close>), how often the relay runs, and how the payment
  program starts. A group whose
  client cannot be constructed is skipped; \<open>connected\<close> says for which ones it can.
\<close>

type_synonym 'w consumer = "string \<times> (string \<Rightarrow> json \<Rightarrow> 'w \<Rightarrow> (go_error + unit) \<times> 'w)"

definition order_consumers :: "(ConsumerGroupConfig \<Rightarrow> bool) \<Rightarrow> 'w ext \<Rightarrow> Config \<Rightarrow> 'w consumer list" where
  "order_consumers connected X cfg =
     concat (map (\<lambda>cg.
       if cg_Topic cg = ''inventory-events'' then (if connected cg then [(cg_Topic cg, HandleInventoryEvent X)] else [])
       else if cg_Topic cg = ''payment-events'' then (if connected cg then [(cg_Topic cg, HandlePaymentEvent X)] else [])
       else []) (kc_ConsumerGroups (cfg_Kafka cfg)))"

definition inventory_consumers :: "(ConsumerGroupConfig \<Rightarrow> bool) \<Rightarrow> 'w ext \<Rightarrow> Config \<Rightarrow> 'w consumer list" where
  "inventory_consumers connected X cfg =
     concat (map (\<lambda>cg. if connected cg then [(cg_Topic cg, HandleOrderEvent X)] else []) (kc_ConsumerGroups (cfg_Kafka cfg)))"

definition payment_consumers :: "(ConsumerGroupConfig \<Rightarrow> bool) \<Rightarrow> 'w ext \<Rightarrow> Service \<Rightarrow> Config \<Rightarrow> 'w consumer list" where
  "payment_consumers connected X s cfg =
     concat (map (\<lambda>cg. if connected cg then [(cg_Topic cg, PaymentService_HandleOrderEvent X s)] else [])
       (kc_ConsumerGroups (cfg_Kafka cfg)))"

text \<open>The interval of the relay, 500 ms unless a positive one is configured.\<close>

definition outbox_interval :: "Config \<Rightarrow> int" where
  "outbox_interval cfg =
     (if obc_IntervalMs (cfg_Outbox cfg) > 0 then wrap64 (obc_IntervalMs (cfg_Outbox cfg) * 1000000) else 500 * 1000000)"

text \<open>
  The payment program's service, its registration, and the item of Nacos whose changes \<open>on_config_change\<close>
  is called with, if listening to it succeeds.
\<close>

definition payment_startup :: "'w nacos_sdk \<Rightarrow> Config \<Rightarrow> 'w \<Rightarrow> (Service \<times> (Client option \<times> bool) \<times> string option) \<times> 'w" where
  "payment_startup N cfg w =
     (let s = NewPaymentService (startup_rate (pc_SuccessRate (cfg_Payment cfg))) in
      case BootstrapService N cfg w of
        (boot, w1) \<Rightarrow>
          (case fst boot of
             None \<Rightarrow> ((s, boot, None), w1)
           | Some c \<Rightarrow>
               (let dataID = (if nc_DataID (cfg_Nacos cfg) = '''' then ''payment-service.yaml'' else nc_DataID (cfg_Nacos cfg)) in
                case ListenConfig N c dataID w1 of
                  (Inl _, w2) \<Rightarrow> ((s, boot, None), w2)
                | (Inr _, w2) \<Rightarrow> ((s, boot, Some dataID), w2))))"

text \<open>Without Nacos there is no item whose changes could set the rate.\<close>

lemma payment_startup_result:
  assumes "payment_startup N cfg w = ((s, boot, item), w')"
  shows "s = NewPaymentService (startup_rate (pc_SuccessRate (cfg_Payment cfg))) \<and> item \<noteq> Some ''''
    \<and> (fst boot = None \<longrightarrow> item = None) \<and> (\<not> nc_Enabled (cfg_Nacos cfg) \<longrightarrow> boot = (None, False) \<and> w' = w)"
  using assms
  by (auto simp: payment_startup_def Let_def BootstrapService_def split: prod.splits sum.splits option.splits if_splits)

text \<open>A message on its topic, claimed by every group that subscribes to it.\<close>

definition deliver :: "'w consumer list \<Rightarrow> message \<Rightarrow> 'w \<Rightarrow> 'w" where
  "deliver consumers = (\<lambda>(topic, key, val).
     fold (\<lambda>(t, handler) w. if t = topic then snd (ConsumeClaim handler [(key, val)] w) else w) consumers)"

lemma claim_one: "snd (ConsumeClaim handler [(key, val)] w) = snd (handler key val w)"
  by (simp split: prod.split)

lemma deliver_simps [simp]:
  "deliver [] m w = w"
  "deliver ((t, handler) # cs) (topic, key, val) w =
     deliver cs (topic, key, val) (if t = topic then snd (handler key val w) else w)"
  by (simp_all add: deliver_def split: prod.split)

text \<open>The topics the services are deployed with.\<close>

definition subscribes :: "Config \<Rightarrow> string list \<Rightarrow> bool" where
  "subscribes cfg topics \<longleftrightarrow> map cg_Topic (kc_ConsumerGroups (cfg_Kafka cfg)) = topics"

lemma deployed_consumers:
  "subscribes cfg [TopicInventoryEvents, TopicPaymentEvents] \<Longrightarrow> order_consumers (\<lambda>_. True) X cfg =
     [(TopicInventoryEvents, HandleInventoryEvent X), (TopicPaymentEvents, HandlePaymentEvent X)]"
  "subscribes cfg [TopicOrderEvents] \<Longrightarrow> inventory_consumers (\<lambda>_. True) Y cfg = [(TopicOrderEvents, HandleOrderEvent Y)]"
  "subscribes cfg [TopicOrderEvents] \<Longrightarrow> payment_consumers (\<lambda>_. True) Z s cfg =
     [(TopicOrderEvents, PaymentService_HandleOrderEvent Z s)]"
  by (auto simp: subscribes_def order_consumers_def inventory_consumers_def payment_consumers_def topic_defs map_eq_Cons_conv)

lemma topics_differ [simp]:
  "TopicOrderEvents \<noteq> TopicInventoryEvents" "TopicOrderEvents \<noteq> TopicPaymentEvents" "TopicInventoryEvents \<noteq> TopicPaymentEvents"
  "TopicInventoryEvents \<noteq> TopicOrderEvents" "TopicPaymentEvents \<noteq> TopicOrderEvents" "TopicPaymentEvents \<noteq> TopicInventoryEvents"
  by (simp_all add: topic_defs)

section \<open>Events a service ignores\<close>

lemma payment_ignores:
  "carries val p \<Longrightarrow> ev_EventType (payload_base p) \<noteq> PaymentRequested \<Longrightarrow>
     PaymentService_HandleOrderEvent X s key val w = (Inr (), w)"
  by (simp add: PaymentService_HandleOrderEvent_def carries_base)

lemma inventory_ignores:
  "carries val p \<Longrightarrow> ev_EventType (payload_base p) \<notin> {OrderCreated, OrderCompleted, OrderCancelled} \<Longrightarrow>
     HandleOrderEvent X key val w = (Inr (), w)"
  by (rule HandleOrderEvent_dispatch(4) [OF carries_base])

end
