(* ===== verification/Saga.thy ===== *)
theory Saga
  imports Consumers Registry
begin

text \<open>
  The purchase as a whole, across the three services. Each has its own database
  (\<^verbatim>\<open>order_db\<close>, \<^verbatim>\<open>inventory_db\<close>, \<^verbatim>\<open>payment_db\<close>) and its own runtime; they
  interact only by the events of their outboxes, which the relays carry to Kafka and the consumer
  groups to the handlers. \<open>settle\<close> is that exchange for one order: five times the event stored last
  is delivered to all three services. The properties say how every purchase ends.
\<close>

section \<open>The exchange\<close>

text \<open>The message the relay makes of the newest row of an outbox.\<close>

definition newest :: "tables \<Rightarrow> message" where
  "newest d = event_message (last (t_outbox d))"

definition exchange ::
    "'a consumer list \<Rightarrow> 'b consumer list \<Rightarrow> 'c consumer list \<Rightarrow> message \<Rightarrow> 'a \<times> 'b \<times> 'c \<Rightarrow> 'a \<times> 'b \<times> 'c" where
  "exchange oc ic pc m = (\<lambda>(w, v, u). (deliver oc m w, deliver ic m v, deliver pc m u))"

text \<open>ORDER_CREATED, STOCK_DEDUCTED, PAYMENT_REQUESTED, the payment's result, and what follows from it.\<close>

definition settle ::
    "'a consumer list \<Rightarrow> 'b consumer list \<Rightarrow> 'c consumer list \<Rightarrow> ('a \<Rightarrow> tables) \<Rightarrow> ('b \<Rightarrow> tables) \<Rightarrow> ('c \<Rightarrow> tables) \<Rightarrow>
      'a \<times> 'b \<times> 'c \<Rightarrow> 'a \<times> 'b \<times> 'c" where
  "settle oc ic pc dbo dbi dbp s0 =
     (let s1 = exchange oc ic pc (newest (dbo (fst s0))) s0;
          s2 = exchange oc ic pc (newest (dbi (fst (snd s1)))) s1;
          s3 = exchange oc ic pc (newest (dbo (fst s2))) s2;
          s4 = exchange oc ic pc (newest (dbp (snd (snd s3)))) s3
      in exchange oc ic pc (newest (dbo (fst s4))) s4)"

text \<open>A message on a topic that decodes to a payload.\<close>

definition brings :: "message \<Rightarrow> string \<Rightarrow> string \<Rightarrow> payload \<Rightarrow> bool" where
  "brings m topic key p \<longleftrightarrow> (\<exists>val. m = (topic, key, val) \<and> carries val p)"

definition msg_value :: "message \<Rightarrow> json" where
  "msg_value m = snd (snd m)"

lemma bringsD: "brings m topic key p \<Longrightarrow> m = (topic, key, msg_value m) \<and> carries (msg_value m) p"
  by (auto simp: brings_def msg_value_def)

section \<open>The inventory's side\<close>

context reliable_runtime
begin

lemma handleOrderCompleted_reliable:
  assumes "handleOrderCompleted X data w = (r, w')" "json_Unmarshal dec_OrderCompleted data = Inr evt"
    and "inv_keys (db w)" "confirm (of_ProductID evt) (of_Quantity evt) (stock_of (db w)) = Some m"
  shows "stock_of (db w') = m"
proof -
  obtain s where run: "Repository_ConfirmDeduction (inventories_tbl X) (of_ProductID evt) (of_Quantity evt) w = (s, w')"
    using assms(1,2)
    by (auto simp: handleOrderCompleted_def InventoryService_ConfirmDeduction_def split: prod.splits)
  then show ?thesis
    using ConfirmDeduction_result [OF run] statements_reliable(3) assms(3,4)
    by (cases s) (fastforce simp: guarded_statement_def guarded_step_def)+
qed

lemma handleOrderCancelled_reliable:
  assumes "handleOrderCancelled X data w = (r, w')" "json_Unmarshal dec_OrderCancelled data = Inr evt"
    and "inv_keys (db w)" "release (ox_ProductID evt) (ox_Quantity evt) (stock_of (db w)) = Some m"
  shows "stock_of (db w') = m"
proof -
  obtain s u where ret: "ReturnStock (inventories_tbl X) (ox_ProductID evt) (ox_Quantity evt) w = (s, u)" by fastforce
  let ?v = "RollbackRedis X (ox_ProductID evt) (ox_Quantity evt) u"
  obtain d where del: "rdb_Del X (idempotencyKey (ox_UserID evt) (ox_ProductID evt)) ?v = (d, w')"
    using assms(1,2) ret by (auto simp: handleOrderCancelled_def Return_def Let_def split: prod.splits)
  have "db w' = db u"
    using RollbackRedis_result [where w = u and p = "ox_ProductID evt" and q = "ox_Quantity evt"] rdb.Del_law [OF del]
    by auto
  moreover have "stock_of (db u) = m"
    using ReturnStock_result [OF ret] statements_reliable(2) ret assms(3,4)
    by (cases s) (fastforce simp: guarded_statement_def guarded_step_def)+
  ultimately show ?thesis by simp
qed

end

text \<open>What a stored event brings, once it is the newest.\<close>

lemma newest_brings:
  assumes "is_event_row jsonb agg no typ topic p x" "payload_ok p" "jsonb_faithful jsonb" "t_outbox d = xs @ [x]"
  shows "brings (newest d) topic no p"
  using carries_stored [OF assms(1-3)] assms(1,4) by (simp add: newest_def brings_def event_message_def is_event_row_def)

section \<open>One hop after another\<close>

lemma advanced_member:
  fixes od :: Order
  shows "od \<in> A \<Longrightarrow> od\<lparr>ord_Status := s, ord_UpdatedAt := t\<rparr>
     \<in> (\<lambda>y. if ord_OrderNo y = ord_OrderNo od then y\<lparr>ord_Status := s, ord_UpdatedAt := t\<rparr> else y) ` A"
  by (auto simp: image_iff intro!: bexI [of _ od])

context reliable_runtime
begin

text \<open>The inventory reserves and answers.\<close>

lemma reservation_hop:
  assumes "HandleOrderEvent X key msg w = (r, w')" "jsonb_faithful jsonb" "inv_keys (db w)"
    and c: "carries msg (PayOrderCreated e)" "ev_EventType e = OrderCreated"
    and fits: "is_uint (oc_ProductID e)" "in_int64 (oc_Quantity e)"
    and m: "reserve (oc_ProductID e) (oc_Quantity e) (stock_of (db w)) = Some m"
  obtains d where "stock_of (db w') = m" "inv_keys (db w')" "brings (newest (db w')) TopicInventoryEvents (oc_OrderNo e) (PayStockDeducted d)"
    "ev_EventType d = StockDeducted" "sd_OrderNo d = oc_OrderNo e"
proof -
  have "HandleOrderEvent X key msg w = handleOrderCreated X msg w"
    by (rule HandleOrderEvent_dispatch(1) [OF carries_base [OF c(1)]]) (simp add: c(2) BaseEvent.truncate_def)
  then have "handleOrderCreated X msg w = (r, w')" using assms(1) by simp
  from handleOrderCreated_reliable [OF carries_decode(1) [OF c(1)] assms(3) this] m
  have res: "created_reserved jsonb e (db w) (db w')" by simp
  then have stock: "stock_of (db w') = m" using m by (simp add: created_reserved_def)
  from res obtain rows x p where p: "map inv_ProductID rows = map inv_ProductID (t_inventories (db w))"
    "db w' = (db w)\<lparr>t_inventories := rows, t_outbox := t_outbox (db w) @ [x]\<rparr>"
    "deducted_payload e p" "is_event_row jsonb ''inventory'' (oc_OrderNo e) StockDeducted TopicInventoryEvents p x"
    unfolding created_reserved_def by blast
  then obtain d where d: "p = PayStockDeducted d" "ev_EventType d = StockDeducted" "sd_OrderNo d = oc_OrderNo e"
    "payload_ok p" using fits by (auto simp: deducted_payload_def)
  have "brings (newest (db w')) TopicInventoryEvents (oc_OrderNo e) p" by (rule newest_brings [OF p(4) d(4) assms(2)]) (simp add: p(2))
  moreover have "inv_keys (db w')" using assms(3) p(1,2) by (simp add: inv_keys_def)
  ultimately show ?thesis using that stock d by simp
qed

text \<open>The order service awaits the payment and requests it.\<close>

lemma request_hop:
  assumes "HandleInventoryEvent X key msg w = (r, w')" "jsonb_faithful jsonb" "orders_ok (db w)"
    and "od \<in> set (t_orders (db w))"
    and c: "carries msg (PayStockDeducted d)" "ev_EventType d = StockDeducted" "sd_OrderNo d = ord_OrderNo od"
    and fits: "is_uint (ord_UserID od)" "f64_is_finite (ord_TotalPrice od)"
  obtains t q where "od\<lparr>ord_Status := StatusAwaitingPayment, ord_UpdatedAt := t\<rparr> \<in> set (t_orders (db w'))"
    "orders_ok (db w')" "brings (newest (db w')) TopicOrderEvents (ord_OrderNo od) (PayPaymentRequested q)" "ev_EventType q = PaymentRequested"
    "pr_OrderNo q = ord_OrderNo od" "pr_Amount q = ord_TotalPrice od"
proof -
  have "order_advanced jsonb (ord_OrderNo od) StatusAwaitingPayment PaymentRequested
      (payment_requested od (ord_OrderNo od)) (db w) (db w')"
    using HandleInventoryEvent_reliable(1) [OF assms(1,3,4) c fits(2)] by (simp add: answered_def)
  then obtain t b x where x: "ev_EventType b = PaymentRequested" "is_event_row jsonb ''order'' (ord_OrderNo od)
        PaymentRequested TopicOrderEvents (payment_requested od (ord_OrderNo od) b) x"
    and d: "db w' = (db w)\<lparr>t_orders := map (\<lambda>y. if ord_OrderNo y = ord_OrderNo od
          then y\<lparr>ord_Status := StatusAwaitingPayment, ord_UpdatedAt := t\<rparr> else y) (t_orders (db w)),
        t_outbox := t_outbox (db w) @ [x]\<rparr>"
    unfolding order_advanced_def by blast
  let ?q = "BaseEvent.extend b (PaymentRequestedEvent.fields (ord_OrderNo od) (ord_UserID od) (ord_TotalPrice od))"
  have "brings (newest (db w')) TopicOrderEvents (ord_OrderNo od) (PayPaymentRequested ?q)"
    using newest_brings [OF x(2) _ assms(2), of "db w'" "t_outbox (db w)"] fits d
    by (simp add: payment_requested_def BaseEvent.extend_def PaymentRequestedEvent.fields_def)
  moreover have "od\<lparr>ord_Status := StatusAwaitingPayment, ord_UpdatedAt := t\<rparr> \<in> set (t_orders (db w'))"
    using advanced_member [OF assms(4)] by (simp add: d)
  moreover have "orders_ok (db w')"
    by (rule order_invariant.order_step_keeps [OF orders_ok_invariant [OF runtime_axioms]
        step_inventory_event [OF assms(1)] assms(3)]) simp
  ultimately show ?thesis using that [of t ?q] x(1)
    by (simp add: BaseEvent.extend_def PaymentRequestedEvent.fields_def)
qed

text \<open>The payment service decides.\<close>

lemma payment_hop:
  assumes "PaymentService_HandleOrderEvent X s key msg w = (r, w')" "jsonb_faithful jsonb"
    and c: "carries msg (PayPaymentRequested q)" "ev_EventType q = PaymentRequested" "f64_is_finite (pr_Amount q)"
    and fresh: "\<And>z i z'. uuid_New X z = (i, z') \<Longrightarrow> db z = db w \<Longrightarrow> i \<notin> pay_PaymentID ` set (t_payments (db w))"
  obtains ok e p where "p \<in> set (t_payments (db w'))" "pay_OrderNo p = pr_OrderNo q" "pay_Status p = (if ok then 1 else 2)"
    "brings (newest (db w')) TopicPaymentEvents (pr_OrderNo q) (PayPaymentResult e)" "ev_EventType e = (if ok then PaymentSuccess else PaymentFailed)"
    "ps_OrderNo e = pr_OrderNo q" "successRate s = f64_one \<longrightarrow> ok" "ok \<longrightarrow> f64_lt f64_zero (successRate s)"
proof -
  have run: "processPayment X s q w = (r, w')" using assms(1) by (simp add: payment_handler_request [OF c(1,2)])
  obtain draw where draw: "\<not> f64_lt draw f64_zero" "f64_lt draw f64_one"
    and made: "payment_made num jsonb q (f64_lt draw (successRate s)) (db w) (db w')"
    by (rule processPayment_reliable [OF run c(3) fresh])
  let ?ok = "f64_lt draw (successRate s)"
  from made obtain p x b where p: "db w' = (db w)\<lparr>t_payments := t_payments (db w) @ [p], t_outbox := t_outbox (db w) @ [x]\<rparr>"
    "pay_OrderNo p = pr_OrderNo q" "pay_Status p = (if ?ok then 1 else 2)"
    "ev_EventType b = (if ?ok then PaymentSuccess else PaymentFailed)"
    "is_event_row jsonb ''payment'' (pr_OrderNo q) (if ?ok then PaymentSuccess else PaymentFailed) TopicPaymentEvents
       (PayPaymentResult (BaseEvent.extend b (PaymentResultEvent.fields (pr_OrderNo q) (pay_PaymentID p) (pr_Amount q)))) x"
    unfolding payment_made_def Let_def by blast
  let ?e = "BaseEvent.extend b (PaymentResultEvent.fields (pr_OrderNo q) (pay_PaymentID p) (pr_Amount q))"
  have "brings (newest (db w')) TopicPaymentEvents (pr_OrderNo q) (PayPaymentResult ?e)"
    using newest_brings [OF p(5) _ assms(2), of "db w'" "t_outbox (db w)"] c(3) p(1)
    by (simp add: BaseEvent.extend_def PaymentResultEvent.fields_def)
  moreover have "?ok \<longrightarrow> f64_lt f64_zero (successRate s)"
    using draw zero_below_one(2) by (auto simp: f64_lt_def)
  ultimately show ?thesis using that [of p ?ok ?e] p draw
    by (simp add: BaseEvent.extend_def PaymentResultEvent.fields_def)
qed

end

context reliable_runtime
begin

text \<open>The order service settles the order, and the inventory the stock.\<close>

lemma verdict_hop:
  assumes "HandlePaymentEvent X key msg w = (r, w')" "jsonb_faithful jsonb" "orders_ok (db w)"
    and "od \<in> set (t_orders (db w))"
    and c: "carries msg (PayPaymentResult e)" "ps_OrderNo e = ord_OrderNo od"
      "ev_EventType e = (if ok then PaymentSuccess else PaymentFailed)"
    and fits: "is_uint (ord_UserID od)" "is_uint (ord_ProductID od)" "in_int64 (ord_Quantity od)"
  obtains t f g where
    "od\<lparr>ord_Status := if ok then StatusPaid else StatusCancelled, ord_UpdatedAt := t\<rparr> \<in> set (t_orders (db w'))"
    "kv w' (resultKey (ord_OrderNo od)) = Some (Text (if ok then ''SUCCESS'' else ''FAILED''))"
    "if ok then brings (newest (db w')) TopicOrderEvents (ord_OrderNo od) (PayOrderCompleted f) \<and> ev_EventType f = OrderCompleted
       \<and> of_ProductID f = ord_ProductID od \<and> of_Quantity f = ord_Quantity od
     else brings (newest (db w')) TopicOrderEvents (ord_OrderNo od) (PayOrderCancelled g) \<and> ev_EventType g = OrderCancelled
       \<and> ox_ProductID g = ord_ProductID od \<and> ox_Quantity g = ord_Quantity od"
proof -
  let ?s = "if ok then StatusPaid else StatusCancelled" and ?kind = "if ok then OrderCompleted else OrderCancelled"
  let ?mk = "if ok then order_completed od (ord_OrderNo od)
    else order_cancelled od (ord_OrderNo od) (ord_ProductID od) ''payment_failed''"
  have "answered jsonb (ord_OrderNo od) ?s ?kind ?mk (Some (if ok then ''SUCCESS'' else ''FAILED'')) (db w, kv w) (db w', kv w')"
    using HandlePaymentEvent_reliable [OF assms(1,3,4) c(1,2)] c(3) by (cases ok) simp_all
  then have adv: "order_advanced jsonb (ord_OrderNo od) ?s ?kind ?mk (db w) (db w')"
    and res: "kv w' (resultKey (ord_OrderNo od)) = Some (Text (if ok then ''SUCCESS'' else ''FAILED''))"
    by (simp_all add: answered_def)
  from adv obtain t b x where x: "ev_EventType b = ?kind"
      "is_event_row jsonb ''order'' (ord_OrderNo od) ?kind TopicOrderEvents (?mk b) x"
    and d: "db w' = (db w)\<lparr>t_orders := map (\<lambda>y. if ord_OrderNo y = ord_OrderNo od
          then y\<lparr>ord_Status := ?s, ord_UpdatedAt := t\<rparr> else y) (t_orders (db w)),
        t_outbox := t_outbox (db w) @ [x]\<rparr>"
    unfolding order_advanced_def by blast
  let ?f = "BaseEvent.extend b (OrderCompletedEvent.fields (ord_OrderNo od) (ord_ProductID od) (ord_Quantity od))"
  let ?g = "BaseEvent.extend b (OrderCancelledEvent.fields (ord_OrderNo od) (ord_UserID od) (ord_ProductID od)
    (ord_Quantity od) ''payment_failed'')"
  note events = order_completed_def order_cancelled_def BaseEvent.extend_def OrderCompletedEvent.fields_def
    OrderCancelledEvent.fields_def
  have "brings (newest (db w')) TopicOrderEvents (ord_OrderNo od) (?mk b)"
    by (rule newest_brings [OF x(2) _ assms(2)], use fits in \<open>simp add: events\<close>) (simp add: d)
  moreover have "od\<lparr>ord_Status := ?s, ord_UpdatedAt := t\<rparr> \<in> set (t_orders (db w'))"
    using advanced_member [OF assms(4)] by (simp add: d)
  ultimately show ?thesis using that [of t ?f ?g] res x(1) by (cases ok) (simp_all add: events)
qed

lemma closing_hop:
  assumes "HandleOrderEvent X key msg w = (r, w')" "inv_keys (db w)"
    and "if ok then carries msg (PayOrderCompleted f) \<and> ev_EventType f = OrderCompleted
       \<and> of_ProductID f = p \<and> of_Quantity f = q
     else carries msg (PayOrderCancelled g) \<and> ev_EventType g = OrderCancelled
       \<and> ox_ProductID g = p \<and> ox_Quantity g = q"
    and "(if ok then confirm p q (stock_of (db w)) else release p q (stock_of (db w))) = Some m"
  shows "stock_of (db w') = m"
proof (cases ok)
  case True
  then have c: "carries msg (PayOrderCompleted f)" "ev_EventType f = OrderCompleted" using assms(3) by simp_all
  have "HandleOrderEvent X key msg w = handleOrderCompleted X msg w"
    by (rule HandleOrderEvent_dispatch(2) [OF carries_base [OF c(1)]]) (simp add: c(2) BaseEvent.truncate_def)
  then have "handleOrderCompleted X msg w = (r, w')" using assms(1) by simp
  from handleOrderCompleted_reliable [OF this carries_decode(2) [OF c(1)] assms(2)] show ?thesis
    using assms(3,4) True by simp
next
  case False
  then have c: "carries msg (PayOrderCancelled g)" "ev_EventType g = OrderCancelled" using assms(3) by simp_all
  have "HandleOrderEvent X key msg w = handleOrderCancelled X msg w"
    by (rule HandleOrderEvent_dispatch(3) [OF carries_base [OF c(1)]]) (simp add: c(2) BaseEvent.truncate_def)
  then have "handleOrderCancelled X msg w = (r, w')" using assms(1) by simp
  from handleOrderCancelled_reliable [OF this carries_decode(3) [OF c(1)] assms(2)] show ?thesis
    using assms(3,4) False by simp
qed

text \<open>The purchase request itself: the order is recorded and its event stored.\<close>

lemma request_made:
  assumes run: "Seckill X n userID req w = Some (Inr no, n', w')"
    and "jsonb_faithful jsonb" "orders_ok (db w)" "\<And>x. f64_is_finite x \<Longrightarrow> f64_is_finite (num x)"
    and fits: "is_uint userID" "is_uint (cor_ProductID req)" "in_int64 (cor_Quantity req)"
  obtains od e where "od \<in> set (t_orders (db w'))" "orders_ok (db w')" "ord_OrderNo od = no" "ord_UserID od = userID"
    "ord_ProductID od = cor_ProductID req" "ord_Quantity od = cor_Quantity req" "f64_is_finite (ord_TotalPrice od)"
    "brings (newest (db w')) TopicOrderEvents no (PayOrderCreated e)" "ev_EventType e = OrderCreated" "oc_OrderNo e = no"
    "oc_ProductID e = cor_ProductID req" "oc_Quantity e = cor_Quantity req"
proof -
  obtain od where od: "seckill_order (db w) userID req no od" "order_recorded num jsonb (db w) (db w') od"
    using Seckill_result [OF run] by auto
  then obtain i t x pl where pl: "created_payload od pl"
    "is_event_row jsonb ''order'' (ord_OrderNo od) OrderCreated TopicOrderEvents pl x"
    and d: "db w' = (db w)\<lparr>t_orders := t_orders (db w) @ [od\<lparr>ord_ID := i, ord_CreatedAt := t, ord_UpdatedAt := t,
                    ord_TotalPrice := num (ord_TotalPrice od)\<rparr>], t_outbox := t_outbox (db w) @ [x]\<rparr>"
    unfolding order_recorded_def by blast
  obtain e where e: "pl = PayOrderCreated e" "ev_EventType e = OrderCreated" "oc_OrderNo e = no" "oc_UserID e = userID"
    "oc_ProductID e = cor_ProductID req" "oc_Quantity e = cor_Quantity req" "oc_TotalPrice e = ord_TotalPrice od"
    using pl(1) od(1) by (auto simp: created_payload_def seckill_order_def)
  have fin: "f64_is_finite (ord_TotalPrice od)"
    using pl(2) e by (auto simp: is_event_row_def marshal_float_def split: if_splits)
  have "brings (newest (db w')) TopicOrderEvents (ord_OrderNo od) pl"
    by (rule newest_brings [OF pl(2) _ assms(2)], use fits fin e in simp) (simp add: d)
  moreover have "orders_ok (db w')"
    by (rule order_invariant.order_step_keeps [OF orders_ok_invariant [OF runtime_axioms]
        step_seckill [OF run] assms(3)]) simp
  ultimately show ?thesis
    using that [of "od\<lparr>ord_ID := i, ord_CreatedAt := t, ord_UpdatedAt := t, ord_TotalPrice := num (ord_TotalPrice od)\<rparr>" e]
      od(1) e fin assms(4) d by (auto simp: seckill_order_def)
qed

end

section \<open>Every message at its handlers\<close>

lemma exchange_deployed:
  assumes "subscribes co [TopicInventoryEvents, TopicPaymentEvents]" "subscribes ci [TopicOrderEvents]" "subscribes cp [TopicOrderEvents]"
  shows "brings m TopicOrderEvents key p \<Longrightarrow> ev_EventType (payload_base p) \<noteq> PaymentRequested \<Longrightarrow>
      exchange (order_consumers (\<lambda>_. True) Xo co) (inventory_consumers (\<lambda>_. True) Xi ci) (payment_consumers (\<lambda>_. True) Xp s cp) m (w, v, u)
      = (w, snd (HandleOrderEvent Xi key (msg_value m) v), u)"
    "brings m TopicOrderEvents key p \<Longrightarrow> ev_EventType (payload_base p) \<notin> {OrderCreated, OrderCompleted, OrderCancelled} \<Longrightarrow>
      exchange (order_consumers (\<lambda>_. True) Xo co) (inventory_consumers (\<lambda>_. True) Xi ci) (payment_consumers (\<lambda>_. True) Xp s cp) m (w, v, u)
      = (w, v, snd (PaymentService_HandleOrderEvent Xp s key (msg_value m) u))"
    "brings m TopicInventoryEvents key p \<Longrightarrow>
      exchange (order_consumers (\<lambda>_. True) Xo co) (inventory_consumers (\<lambda>_. True) Xi ci) (payment_consumers (\<lambda>_. True) Xp s cp) m (w, v, u)
      = (snd (HandleInventoryEvent Xo key (msg_value m) w), v, u)"
    "brings m TopicPaymentEvents key p \<Longrightarrow>
      exchange (order_consumers (\<lambda>_. True) Xo co) (inventory_consumers (\<lambda>_. True) Xi ci) (payment_consumers (\<lambda>_. True) Xp s cp) m (w, v, u)
      = (snd (HandlePaymentEvent Xo key (msg_value m) w), v, u)"
  by (auto simp: brings_def msg_value_def exchange_def deployed_consumers(1) [OF assms(1)] deployed_consumers(2) [OF assms(2)]
      deployed_consumers(3) [OF assms(3)] payment_ignores inventory_ignores)

text \<open>The hops in a row, each handler given the event the previous one stored, with what the events are.\<close>

lemma purchase_hops:
  assumes "reliable_runtime dbo kvo lo num jsonb Xo" "reliable_runtime dbi kvi li num jsonb Xi"
    and "reliable_runtime dbp kvp lp num jsonb Xp" "jsonb_faithful jsonb"
    and "\<And>x. f64_is_finite x \<Longrightarrow> f64_is_finite (num x)" "orders_ok (dbo w0)" "inv_keys (dbi v)"
    and stock: "stock_of (dbi v) (cor_ProductID req) = Some (a, l)" "cor_Quantity req \<le> a" "0 \<le> l"
    and fits: "is_uint userID" "is_uint (cor_ProductID req)" "in_int64 (cor_Quantity req)"
    and fresh: "\<And>z i z'. uuid_New Xp z = (i, z') \<Longrightarrow> dbp z = dbp u \<Longrightarrow> i \<notin> pay_PaymentID ` set (t_payments (dbp u))"
    and run: "Seckill Xo n userID req w0 = Some (Inr no, n', w)"
    and h1: "HandleOrderEvent Xi no (msg_value (newest (dbo w))) v = (r1, v1)"
    and h2: "HandleInventoryEvent Xo no (msg_value (newest (dbi v1))) w = (r2, w1)"
    and h3: "PaymentService_HandleOrderEvent Xp s no (msg_value (newest (dbo w1))) u = (r3, u1)"
    and h4: "HandlePaymentEvent Xo no (msg_value (newest (dbp u1))) w1 = (r4, w2)"
    and h5: "HandleOrderEvent Xi no (msg_value (newest (dbo w2))) v1 = (r5, v2)"
  obtains e d q f p where "\<exists>ok od p. od \<in> set (t_orders (dbo w2)) \<and> ord_OrderNo od = no
     \<and> ord_Status od = (if ok then StatusPaid else StatusCancelled)
     \<and> kvo w2 (resultKey no) = Some (Text (if ok then ''SUCCESS'' else ''FAILED''))
     \<and> stock_of (dbi v2) (cor_ProductID req) = Some (if ok then a - cor_Quantity req else a, l)
     \<and> p \<in> set (t_payments (dbp u1)) \<and> pay_OrderNo p = no \<and> pay_Status p = (if ok then 1 else 2)
     \<and> (successRate s = f64_one \<longrightarrow> ok) \<and> (ok \<longrightarrow> f64_lt f64_zero (successRate s))"
    "brings (newest (dbo w)) TopicOrderEvents no (PayOrderCreated e)" "ev_EventType e = OrderCreated"
    "brings (newest (dbi v1)) TopicInventoryEvents no (PayStockDeducted d)"
    "brings (newest (dbo w1)) TopicOrderEvents no (PayPaymentRequested q)" "ev_EventType q = PaymentRequested"
    "brings (newest (dbp u1)) TopicPaymentEvents no (PayPaymentResult f)"
    "brings (newest (dbo w2)) TopicOrderEvents no p" "ev_EventType (payload_base p) \<noteq> PaymentRequested"
proof -
  let ?p = "cor_ProductID req" and ?q = "cor_Quantity req"
  obtain od e where od: "od \<in> set (t_orders (dbo w))" "orders_ok (dbo w)" "ord_OrderNo od = no" "ord_UserID od = userID"
    "ord_ProductID od = ?p" "ord_Quantity od = ?q" "f64_is_finite (ord_TotalPrice od)"
    and em: "brings (newest (dbo w)) TopicOrderEvents no (PayOrderCreated e)" and e: "ev_EventType e = OrderCreated" "oc_OrderNo e = no"
    "oc_ProductID e = ?p" "oc_Quantity e = ?q"
    by (rule reliable_runtime.request_made [OF assms(1) run assms(4,6,5) fits])
  note m1 = bringsD [OF em, THEN conjunct2]
  define res where "res = (stock_of (dbi v))(?p \<mapsto> (a - ?q, l + ?q))"
  have m: "reserve (oc_ProductID e) (oc_Quantity e) (stock_of (dbi v)) = Some res" using stock e by (simp add: reserve_def res_def)
  obtain d where d: "stock_of (dbi v1) = res" "inv_keys (dbi v1)" "brings (newest (dbi v1)) TopicInventoryEvents no (PayStockDeducted d)"
    "ev_EventType d = StockDeducted" "sd_OrderNo d = ord_OrderNo od"
    by (rule reliable_runtime.reservation_hop [OF assms(2) h1 assms(4,7) m1 e(1) _ _ m]) (use fits e od in simp_all)
  obtain t q where q: "od\<lparr>ord_Status := StatusAwaitingPayment, ord_UpdatedAt := t\<rparr> \<in> set (t_orders (dbo w1))"
    "orders_ok (dbo w1)" "brings (newest (dbo w1)) TopicOrderEvents no (PayPaymentRequested q)" "ev_EventType q = PaymentRequested"
    "pr_OrderNo q = no" "f64_is_finite (pr_Amount q)"
    by (rule reliable_runtime.request_hop [OF assms(1) h2 assms(4) od(2,1) bringsD [OF d(3), THEN conjunct2] d(4,5) _ od(7)]) (use fits od in simp_all)
  let ?od = "od\<lparr>ord_Status := StatusAwaitingPayment, ord_UpdatedAt := t\<rparr>"
  obtain ok f pay where pay: "pay \<in> set (t_payments (dbp u1))" "pay_OrderNo pay = no" "pay_Status pay = (if ok then 1 else 2)"
    "brings (newest (dbp u1)) TopicPaymentEvents no (PayPaymentResult f)" "ev_EventType f = (if ok then PaymentSuccess else PaymentFailed)"
    "ps_OrderNo f = ord_OrderNo ?od" "successRate s = f64_one \<longrightarrow> ok" "ok \<longrightarrow> f64_lt f64_zero (successRate s)"
    by (rule reliable_runtime.payment_hop [OF assms(3) h3 assms(4) bringsD [OF q(3), THEN conjunct2] q(4,6)], erule (1) fresh) (use q od in simp_all)
  obtain t' g h where fin: "?od\<lparr>ord_Status := if ok then StatusPaid else StatusCancelled, ord_UpdatedAt := t'\<rparr> \<in> set (t_orders (dbo w2))"
    "kvo w2 (resultKey (ord_OrderNo ?od)) = Some (Text (if ok then ''SUCCESS'' else ''FAILED''))"
    "if ok then brings (newest (dbo w2)) TopicOrderEvents (ord_OrderNo ?od) (PayOrderCompleted g) \<and> ev_EventType g = OrderCompleted
       \<and> of_ProductID g = ord_ProductID ?od \<and> of_Quantity g = ord_Quantity ?od
     else brings (newest (dbo w2)) TopicOrderEvents (ord_OrderNo ?od) (PayOrderCancelled h) \<and> ev_EventType h = OrderCancelled
       \<and> ox_ProductID h = ord_ProductID ?od \<and> ox_Quantity h = ord_Quantity ?od"
    by (rule reliable_runtime.verdict_hop [OF assms(1) h4 assms(4) q(2,1) bringsD [OF pay(4), THEN conjunct2] pay(6,5)]) (use fits od in simp_all)
  let ?m' = "res(?p \<mapsto> (if ok then a - ?q else a, l))"
  have "stock_of (dbi v2) = ?m'"
    by (rule reliable_runtime.closing_hop [OF assms(2) h5 d(2), of ok g _ _ h])
      (use stock od d(1) fin(3) in \<open>auto simp: res_def confirm_def release_def dest: bringsD split: if_splits\<close>)
  then have ends: "\<exists>ok od p. od \<in> set (t_orders (dbo w2)) \<and> ord_OrderNo od = no
     \<and> ord_Status od = (if ok then StatusPaid else StatusCancelled)
     \<and> kvo w2 (resultKey no) = Some (Text (if ok then ''SUCCESS'' else ''FAILED''))
     \<and> stock_of (dbi v2) (cor_ProductID req) = Some (if ok then a - cor_Quantity req else a, l)
     \<and> p \<in> set (t_payments (dbp u1)) \<and> pay_OrderNo p = no \<and> pay_Status p = (if ok then 1 else 2)
     \<and> (successRate s = f64_one \<longrightarrow> ok) \<and> (ok \<longrightarrow> f64_lt f64_zero (successRate s))"
    by (intro exI [of _ ok] exI [of _ "?od\<lparr>ord_Status := if ok then StatusPaid else StatusCancelled, ord_UpdatedAt := t'\<rparr>"]
        exI [of _ pay]) (use fin(1,2) pay od in simp)
  show ?thesis
  proof (cases ok)
    case True
    show ?thesis by (rule that [OF ends em e(1) d(3) q(3,4) pay(4), of "PayOrderCompleted g"])
      (use True fin(3) od(3) in \<open>simp_all add: BaseEvent.truncate_def event_type_defs\<close>)
  next
    case False
    show ?thesis by (rule that [OF ends em e(1) d(3) q(3,4) pay(4), of "PayOrderCancelled h"])
      (use False fin(3) od(3) in \<open>simp_all add: BaseEvent.truncate_def event_type_defs\<close>)
  qed
qed

section \<open>Property\<close>

text \<open>Every accepted purchase ends. When \<^verbatim>\<open>Seckill\<close> has accepted a purchase that the inventory can
  serve, the services subscribe to the topics they are deployed with and none fails, the exchange of
  events ends with the order paid, the stock sold and
  the result SUCCESS, or with the order cancelled, the stock as before and the result FAILED. The
  payment's draw decides: it succeeds when the success rate is 1.0, and fails when it is 0 or NaN.\<close>

theorem every_purchase_is_settled:
  assumes "reliable_runtime dbo kvo lo num jsonb Xo" "reliable_runtime dbi kvi li num jsonb Xi"
    and "reliable_runtime dbp kvp lp num jsonb Xp" "jsonb_faithful jsonb"
    and "\<And>x. f64_is_finite x \<Longrightarrow> f64_is_finite (num x)" "orders_ok (dbo w0)" "inv_keys (dbi v)"
    and stock: "stock_of (dbi v) (cor_ProductID req) = Some (a, l)" "cor_Quantity req \<le> a" "0 \<le> l"
    and fits: "is_uint userID" "is_uint (cor_ProductID req)" "in_int64 (cor_Quantity req)"
    and fresh: "\<And>z i z'. uuid_New Xp z = (i, z') \<Longrightarrow> dbp z = dbp u \<Longrightarrow> i \<notin> pay_PaymentID ` set (t_payments (dbp u))"
    and run: "Seckill Xo n userID req w0 = Some (Inr no, n', w)"
    and "subscribes co [TopicInventoryEvents, TopicPaymentEvents]" "subscribes ci [TopicOrderEvents]" "subscribes cp [TopicOrderEvents]"
    and "settle (order_consumers (\<lambda>_. True) Xo co) (inventory_consumers (\<lambda>_. True) Xi ci)
      (payment_consumers (\<lambda>_. True) Xp s cp) dbo dbi dbp (w, v, u) = (w', v', u')"
  shows "\<exists>ok od p. od \<in> set (t_orders (dbo w')) \<and> ord_OrderNo od = no
     \<and> ord_Status od = (if ok then StatusPaid else StatusCancelled)
     \<and> kvo w' (resultKey no) = Some (Text (if ok then ''SUCCESS'' else ''FAILED''))
     \<and> stock_of (dbi v') (cor_ProductID req) = Some (if ok then a - cor_Quantity req else a, l)
     \<and> p \<in> set (t_payments (dbp u')) \<and> pay_OrderNo p = no \<and> pay_Status p = (if ok then 1 else 2)
     \<and> (successRate s = f64_one \<longrightarrow> ok) \<and> (ok \<longrightarrow> f64_lt f64_zero (successRate s))"
proof -
  obtain r1 v1 where h1: "HandleOrderEvent Xi no (msg_value (newest (dbo w))) v = (r1, v1)" by fastforce
  obtain r2 w1 where h2: "HandleInventoryEvent Xo no (msg_value (newest (dbi v1))) w = (r2, w1)" by fastforce
  obtain r3 u1 where h3: "PaymentService_HandleOrderEvent Xp s no (msg_value (newest (dbo w1))) u = (r3, u1)" by fastforce
  obtain r4 w2 where h4: "HandlePaymentEvent Xo no (msg_value (newest (dbp u1))) w1 = (r4, w2)" by fastforce
  obtain r5 v2 where h5: "HandleOrderEvent Xi no (msg_value (newest (dbo w2))) v1 = (r5, v2)" by fastforce
  note calls = h1 h2 h3 h4 h5
  note rounds = exchange_deployed [OF assms(16-18)]
  show ?thesis
  proof (rule purchase_hops [OF assms(1-7) stock fits fresh run calls], assumption)
    fix e d q f p
    assume ends: "\<exists>ok od p. od \<in> set (t_orders (dbo w2)) \<and> ord_OrderNo od = no
     \<and> ord_Status od = (if ok then StatusPaid else StatusCancelled)
     \<and> kvo w2 (resultKey no) = Some (Text (if ok then ''SUCCESS'' else ''FAILED''))
     \<and> stock_of (dbi v2) (cor_ProductID req) = Some (if ok then a - cor_Quantity req else a, l)
     \<and> p \<in> set (t_payments (dbp u1)) \<and> pay_OrderNo p = no \<and> pay_Status p = (if ok then 1 else 2)
     \<and> (successRate s = f64_one \<longrightarrow> ok) \<and> (ok \<longrightarrow> f64_lt f64_zero (successRate s))"
      and "brings (newest (dbo w)) TopicOrderEvents no (PayOrderCreated e)" "ev_EventType e = OrderCreated"
      "brings (newest (dbi v1)) TopicInventoryEvents no (PayStockDeducted d)"
      "brings (newest (dbo w1)) TopicOrderEvents no (PayPaymentRequested q)" "ev_EventType q = PaymentRequested"
      "brings (newest (dbp u1)) TopicPaymentEvents no (PayPaymentResult f)"
      "brings (newest (dbo w2)) TopicOrderEvents no p" "ev_EventType (payload_base p) \<noteq> PaymentRequested"
    then have "(w', v', u') = (w2, v2, u1)"
      using assms(19) calls by (simp add: settle_def Let_def rounds BaseEvent.truncate_def event_type_defs)
    then show ?thesis using ends by simp
  qed
qed

section \<open>Witness\<close>

text \<open>The three services with the topics of their configuration files.\<close>

definition demo_subscriber :: "string list \<Rightarrow> Config" where
  "demo_subscriber topics = demo_config\<lparr>cfg_Kafka := (cfg_Kafka demo_config)
     \<lparr>kc_ConsumerGroups := map (\<lambda>t. \<lparr>cg_GroupID = ''group'', cg_Topic = t\<rparr>) topics\<rparr>\<rparr>"

lemma demo_subscribes: "subscribes (demo_subscriber ts) ts"
  by (simp add: subscribes_def demo_subscriber_def comp_def)

definition demo_settle :: "unit mem \<times> unit mem \<times> unit mem \<Rightarrow> unit mem \<times> unit mem \<times> unit mem" where
  "demo_settle =
     settle (order_consumers (\<lambda>_. True) (demo_ext False) (demo_subscriber [TopicInventoryEvents, TopicPaymentEvents]))
       (inventory_consumers (\<lambda>_. True) (demo_ext False) (demo_subscriber [TopicOrderEvents]))
       (payment_consumers (\<lambda>_. True) (demo_ext False) (NewPaymentService (startup_rate f64_zero)) (demo_subscriber [TopicOrderEvents]))
       mem_db mem_db mem_db"

text \<open>The purchase of two phones out of ten, paid at the default rate.\<close>

theorem every_purchase_is_settled_witness:
  "\<exists>no w w' v' u'. demo_settle (w, demo_mall 1, mem_empty) = (w', v', u')
     \<and> (\<exists>od. od \<in> set (t_orders (mem_db w')) \<and> ord_OrderNo od = no \<and> ord_Status od = StatusPaid)
     \<and> stock_of (mem_db v') 1 = Some (8, 0)
     \<and> mem_kv w' (resultKey no) = Some (Text ''SUCCESS'')"
proof -
  let ?run = "Seckill (demo_ext False) demo_node 101 (demo_request 2) (demo_mall 1)"
  have "case ?run of Some (Inr no, n, w) \<Rightarrow> True | _ \<Rightarrow> False" by code_simp
  then obtain no n w where run: "?run = Some (Inr no, n, w)" by (auto split: option.splits prod.splits sum.splits)
  obtain w' v' u' where s: "demo_settle (w, demo_mall 1, mem_empty) = (w', v', u')"
    by (metis prod.exhaust)
  have ok: "orders_ok (mem_db (demo_mall 1))" "inv_keys (mem_db (demo_mall 1))"
    "stock_of (mem_db (demo_mall 1)) (cor_ProductID (demo_request 2)) = Some (10, 0)"
    by (simp_all add: demo_mall_def mem_empty_def orders_ok_def inv_keys_def stock_of_def demo_row_def demo_request_def)
  have req: "cor_Quantity (demo_request 2) \<le> 10" "(0::int) \<le> 0" "is_uint 101" "is_uint (cor_ProductID (demo_request 2))"
    "in_int64 (cor_Quantity (demo_request 2))"
    by (simp_all add: demo_request_def is_uint_def in_int64_def)
  have fresh: "i \<notin> pay_PaymentID ` set (t_payments (mem_db (mem_empty :: unit mem)))" for i
    by (simp add: mem_empty_def)
  from every_purchase_is_settled [OF demo_reliable demo_reliable demo_reliable jsonb_faithful_id _ ok req(1-5) fresh run
      demo_subscribes demo_subscribes demo_subscribes s [unfolded demo_settle_def]]
  obtain okay od where
    "od \<in> set (t_orders (mem_db w'))" "ord_OrderNo od = no" "ord_Status od = (if okay then StatusPaid else StatusCancelled)"
    "mem_kv w' (resultKey no) = Some (Text (if okay then ''SUCCESS'' else ''FAILED''))"
    "stock_of (mem_db v') (cor_ProductID (demo_request 2)) = Some (if okay then 10 - cor_Quantity (demo_request 2) else 10, 0)"
    "successRate (NewPaymentService (startup_rate f64_zero)) = f64_one \<longrightarrow> okay" by blast
  then have "\<exists>od. od \<in> set (t_orders (mem_db w')) \<and> ord_OrderNo od = no \<and> ord_Status od = StatusPaid"
    "stock_of (mem_db v') 1 = Some (8, 0)" "mem_kv w' (resultKey no) = Some (Text ''SUCCESS'')"
    by (auto simp: default_rate demo_request_def)
  then show ?thesis
    by (intro exI [of _ no] exI [of _ w] exI [of _ w'] exI [of _ v'] exI [of _ u'] conjI s)
qed

end
