(* ===== verification/Gateway.thy ===== *)
theory Gateway
  imports Registry Models "HOL-Library.Multiset" "HOL-Library.Sublist"
begin

text \<open>
  \<^verbatim>\<open>cmd/gateway\<close>: routes, pools of upstream instances, the flow-control rules and the proxy.
  A pool's lock makes each of its operations atomic. The order \<^verbatim>\<open>sort.Slice\<close> gives to routes
  with prefixes of one length is unspecified: the sorting function is an argument, and its contract
  the locale \<open>slice_sort\<close>. Sentinel, the random source, \<^verbatim>\<open>url.Parse\<close> and the reverse proxy
  are the record \<open>gateway_env\<close>.
\<close>

section \<open>Instance pools\<close>

record route =
  rt_prefix :: string
  rt_serviceName :: string
  rt_resource :: string

record instancePool =
  ip_instances :: "Instance list"

definition pool_set :: "Instance list \<Rightarrow> instancePool \<Rightarrow> instancePool" where
  "pool_set insts p = p\<lparr>ip_instances := filter (\<lambda>i. in_Healthy i \<and> in_Enable i) insts\<rparr>"

definition instance_url :: "Instance \<Rightarrow> string" where
  "instance_url i = ''http://'' @ in_Ip i @ '':'' @ show_nat (in_Port i)"

definition pick :: "(int \<Rightarrow> 'w \<Rightarrow> int \<times> 'w) \<Rightarrow> instancePool \<Rightarrow> 'w \<Rightarrow> string option \<times> 'w" where
  "pick Intn p w =
     (if ip_instances p = [] then (None, w)
      else (case Intn (int (length (ip_instances p))) w of
              (i, w1) \<Rightarrow> (Some (instance_url (ip_instances p ! nat i)), w1)))"

section \<open>Routes\<close>

definition buildRoutes :: "((route \<Rightarrow> route \<Rightarrow> bool) \<Rightarrow> route list \<Rightarrow> route list) \<Rightarrow> Config \<Rightarrow> route list" where
  "buildRoutes sort_Slice cfg =
     sort_Slice (\<lambda>i j. length (rt_prefix i) > length (rt_prefix j))
       (map (\<lambda>r. let res = (if rc_Resource r = '''' then ''route:'' @ rc_ServiceName r else rc_Resource r) in
                 \<lparr>rt_prefix = rc_PathPrefix r, rt_serviceName = rc_ServiceName r, rt_resource = res\<rparr>)
         (gc_Routes (cfg_Gateway cfg)))"

fun matchRoute :: "route list \<Rightarrow> string \<Rightarrow> route option" where
  "matchRoute [] path = None"
| "matchRoute (r # routes) path = (if prefix (rt_prefix r) path then Some r else matchRoute routes path)"

section \<open>The proxy\<close>

record ('w, 'e, 'u, 'q, 'b) gateway_env =
  sentinel_Entry :: "string \<Rightarrow> 'w \<Rightarrow> (string + 'e) \<times> 'w"
  sentinel_TraceError :: "'e \<Rightarrow> go_error \<Rightarrow> 'w \<Rightarrow> 'w"
  entry_Exit :: "'e \<Rightarrow> 'w \<Rightarrow> 'w"
  gateway_Intn :: "int \<Rightarrow> 'w \<Rightarrow> int \<times> 'w"
  url_Parse :: "string \<Rightarrow> go_error + 'u"
  round_trip :: "'u \<Rightarrow> 'q \<Rightarrow> 'w \<Rightarrow> (go_error + int \<times> 'b) \<times> 'w"

text \<open>
  What the client gets: an envelope of the gateway's own, the upstream's status and body, or the
  empty 500 of \<^verbatim>\<open>gin.Recovery\<close> after a panic.
\<close>

datatype 'b reply = Envelope int "(string \<times> json) list" | Upstream int 'b | Panicked

fun reply_status :: "'b reply \<Rightarrow> int" where
  "reply_status (Envelope s ms) = s"
| "reply_status (Upstream s b) = s"
| "reply_status Panicked = 500"

text \<open>The pool is a pointer: \<open>None\<close> is \<^verbatim>\<open>nil\<close>, whose lock cannot be taken.\<close>

definition handleProxy ::
    "('w, 'e, 'u, 'q, 'b) gateway_env \<Rightarrow> 'q \<Rightarrow> route \<Rightarrow> instancePool option \<Rightarrow> 'w \<Rightarrow> 'b reply \<times> 'w" where
  "handleProxy E req r pool w =
     (case sentinel_Entry E (rt_resource r) w of
        (Inl blockType, w1) \<Rightarrow>
          (Envelope 503 [(''code'', JInt 503), (''message'', JStr ''service degraded, please retry later''),
             (''resource'', JStr (rt_resource r)), (''reason'', JStr blockType)], w1)
      | (Inr entry, w1) \<Rightarrow>
          (case pool of
             None \<Rightarrow> (Panicked, entry_Exit E entry w1)
           | Some p \<Rightarrow>
               (case pick (gateway_Intn E) p w1 of
                  (None, w2) \<Rightarrow>
                    (Envelope 502 [(''code'', JInt 502), (''message'', JStr ''no upstream available'')],
                     entry_Exit E entry
                       (sentinel_TraceError E entry (ErrExternal (''no healthy instance for '' @ rt_serviceName r)) w2))
                | (Some target, w2) \<Rightarrow>
                    (case url_Parse E target of
                       Inl err \<Rightarrow>
                         (Envelope 500 [(''code'', JInt 500), (''message'', JStr (error_text err))],
                          entry_Exit E entry (sentinel_TraceError E entry err w2))
                     | Inr u \<Rightarrow>
                         (case round_trip E u req w2 of
                            (Inl perr, w3) \<Rightarrow>
                              (Envelope 502 [(''code'', JInt 502), (''message'', JStr ''upstream error'')],
                               entry_Exit E entry (sentinel_TraceError E entry perr w3))
                          | (Inr (status, body), w3) \<Rightarrow>
                              (Upstream status body,
                               entry_Exit E entry
                                 (if status \<ge> 500
                                  then sentinel_TraceError E entry (ErrExternal (''upstream '' @ show_int status)) w3
                                  else w3)))))))"

text \<open>The handler of every path that is not the gateway's own.\<close>

definition NoRoute ::
    "('w, 'e, 'u, 'q, 'b) gateway_env \<Rightarrow> route list \<Rightarrow> (string \<rightharpoonup> instancePool) \<Rightarrow> 'q \<Rightarrow> string \<Rightarrow> 'w \<Rightarrow> 'b reply \<times> 'w" where
  "NoRoute E routes pools req path w =
     (case matchRoute routes path of
        None \<Rightarrow> (Envelope 404 [(''code'', JInt 404), (''message'', JStr (''no route for '' @ path))], w)
      | Some matched \<Rightarrow> handleProxy E req matched (pools (rt_serviceName matched)) w)"

section \<open>Keeping the pools current\<close>

definition primePool ::
    "'w nacos_sdk \<Rightarrow> Client \<Rightarrow> string \<Rightarrow> instancePool \<Rightarrow> 'w \<Rightarrow> (go_error + unit) \<times> instancePool \<times> 'w" where
  "primePool N client svc pool w =
     (case SelectInstances N client svc w of
        (Inl err, w1) \<Rightarrow> (Inl err, pool, w1)
      | (Inr insts, w1) \<Rightarrow> (Inr (), pool_set insts pool, w1))"

text \<open>The callback of the subscription.\<close>

definition on_instances :: "Instance list \<Rightarrow> go_error option \<Rightarrow> instancePool \<Rightarrow> instancePool" where
  "on_instances insts subErr pool = (if subErr \<noteq> None then pool else pool_set insts pool)"

text \<open>A tick of \<^verbatim>\<open>pollLoop\<close>, over the services in the order the map yields them.\<close>

definition refresh ::
    "'w nacos_sdk \<Rightarrow> Client \<Rightarrow> string \<Rightarrow> (string \<rightharpoonup> instancePool) \<Rightarrow> 'w \<Rightarrow> (string \<rightharpoonup> instancePool) \<times> 'w" where
  "refresh N client svc pools w =
     (case SelectInstances N client svc w of
        (Inl _, w1) \<Rightarrow> (pools, w1)
      | (Inr insts, w1) \<Rightarrow> (pools(svc := map_option (pool_set insts) (pools svc)), w1))"

fun poll_tick ::
    "'w nacos_sdk \<Rightarrow> Client \<Rightarrow> string list \<Rightarrow> (string \<rightharpoonup> instancePool) \<Rightarrow> 'w \<Rightarrow> (string \<rightharpoonup> instancePool) \<times> 'w" where
  "poll_tick N client [] pools w = (pools, w)"
| "poll_tick N client (svc # svcs) pools w =
     (case refresh N client svc pools w of (pools1, w1) \<Rightarrow> poll_tick N client svcs pools1 w1)"

definition refreshInterval :: "Config \<Rightarrow> int" where
  "refreshInterval cfg =
     (if gc_RefreshSecMs (cfg_Gateway cfg) \<le> 0 then 5 * 1000000000
      else wrap64 (gc_RefreshSecMs (cfg_Gateway cfg) * 1000000))"

section \<open>Sentinel's rules\<close>

record flow_Rule =
  fr_Resource :: string
  fr_Threshold :: float64
  fr_StatIntervalInMs :: nat

record cb_Rule =
  cb_Resource :: string
  cb_RetryTimeoutMs :: nat
  cb_MinRequestAmount :: nat
  cb_StatIntervalMs :: nat
  cb_Threshold :: float64

definition f64_half :: float64 where
  "f64_half = 0x3FE0000000000000"

definition sentinel_defaults :: "SentinelConfig \<Rightarrow> SentinelConfig" where
  "sentinel_defaults s =
     \<lparr>sc_SeckillQPS = (if f64_eq (sc_SeckillQPS s) f64_zero then f64_of_int 100 else sc_SeckillQPS s),
      sc_SeckillBreakerErrorRate =
        (if f64_eq (sc_SeckillBreakerErrorRate s) f64_zero then f64_half else sc_SeckillBreakerErrorRate s),
      sc_BreakerMinRequests = (if sc_BreakerMinRequests s = 0 then 10 else sc_BreakerMinRequests s),
      sc_BreakerStatIntervalMs = (if sc_BreakerStatIntervalMs s = 0 then 10000 else sc_BreakerStatIntervalMs s),
      sc_BreakerRetryTimeoutMs = (if sc_BreakerRetryTimeoutMs s = 0 then 5000 else sc_BreakerRetryTimeoutMs s),
      sc_DefaultQPS = (if f64_eq (sc_DefaultQPS s) f64_zero then f64_of_int 1000 else sc_DefaultQPS s)\<rparr>"

definition flow_rule :: "string \<Rightarrow> float64 \<Rightarrow> flow_Rule" where
  "flow_rule res qps = \<lparr>fr_Resource = res, fr_Threshold = qps, fr_StatIntervalInMs = 1000\<rparr>"

definition flow_rules :: "Config \<Rightarrow> flow_Rule list" where
  "flow_rules cfg =
     (let s = sentinel_defaults (gc_Sentinel (cfg_Gateway cfg)) in
      [flow_rule ''route:seckill'' (sc_SeckillQPS s), flow_rule ''route:default'' (sc_DefaultQPS s)]
      @ map (\<lambda>r. flow_rule (rc_Resource r) (sc_DefaultQPS s))
          (filter (\<lambda>r. \<not> (rc_Resource r = '''' \<or> rc_Resource r = ''route:seckill'')) (gc_Routes (cfg_Gateway cfg))))"

definition breaker_rules :: "Config \<Rightarrow> cb_Rule list" where
  "breaker_rules cfg =
     (let s = sentinel_defaults (gc_Sentinel (cfg_Gateway cfg)) in
      [\<lparr>cb_Resource = ''route:seckill'', cb_RetryTimeoutMs = sc_BreakerRetryTimeoutMs s,
        cb_MinRequestAmount = sc_BreakerMinRequests s, cb_StatIntervalMs = sc_BreakerStatIntervalMs s,
        cb_Threshold = sc_SeckillBreakerErrorRate s\<rparr>])"

definition loadSentinelRules ::
    "(flow_Rule list \<Rightarrow> 'w \<Rightarrow> (go_error + bool) \<times> 'w) \<Rightarrow> (cb_Rule list \<Rightarrow> 'w \<Rightarrow> (go_error + bool) \<times> 'w) \<Rightarrow>
      Config \<Rightarrow> 'w \<Rightarrow> (go_error + unit) \<times> 'w" where
  "loadSentinelRules flow_LoadRules cb_LoadRules cfg w =
     (case flow_LoadRules (flow_rules cfg) w of
        (Inl err, w1) \<Rightarrow> (Inl (Errorf ''load flow rules'' err), w1)
      | (Inr _, w1) \<Rightarrow>
          (case cb_LoadRules (breaker_rules cfg) w1 of
             (Inl err, w2) \<Rightarrow> (Inl (Errorf ''load cb rules'' err), w2)
           | (Inr _, w2) \<Rightarrow> (Inr (), w2)))"

section \<open>What sorting promises\<close>

locale slice_sort =
  fixes sort_Slice :: "('a \<Rightarrow> 'a \<Rightarrow> bool) \<Rightarrow> 'a list \<Rightarrow> 'a list"
  assumes permuted: "mset (sort_Slice lt xs) = mset xs"
    and ordered: "(\<And>x y. lt x y \<longleftrightarrow> f x > (f y :: nat)) \<Longrightarrow>
      sorted_wrt (\<lambda>x y. f x \<ge> f y) (sort_Slice lt xs)"
begin

lemma same_set: "set (sort_Slice lt xs) = set xs"
  by (metis permuted set_mset_mset)

end

text \<open>Insertion sort, which \<^verbatim>\<open>sort.Slice\<close> is up to twelve elements.\<close>

fun place :: "('a \<Rightarrow> 'a \<Rightarrow> bool) \<Rightarrow> 'a \<Rightarrow> 'a list \<Rightarrow> 'a list" where
  "place lt x [] = [x]"
| "place lt x (y # ys) = (if lt x y then x # y # ys else y # place lt x ys)"

definition insertion_sort :: "('a \<Rightarrow> 'a \<Rightarrow> bool) \<Rightarrow> 'a list \<Rightarrow> 'a list" where
  "insertion_sort lt xs = fold (place lt) xs []"

lemma place_mset [simp]: "mset (place lt x ys) = add_mset x (mset ys)"
  by (induction ys) auto

lemma place_set [simp]: "set (place lt x ys) = insert x (set ys)"
  by (induction ys) auto

lemma place_ordered:
  assumes "\<And>x y. lt x y \<longleftrightarrow> f x > (f y :: nat)" "sorted_wrt (\<lambda>x y. f x \<ge> f y) ys"
  shows "sorted_wrt (\<lambda>x y. f x \<ge> f y) (place lt x ys)"
  using assms(2) by (induction ys) (auto simp: assms(1))

lemma insertion_sort_slice: "slice_sort insertion_sort"
proof unfold_locales
  show "mset (insertion_sort lt xs) = mset xs" for lt and xs :: "'a list"
  proof -
    have "mset (fold (place lt) xs ys) = mset xs + mset ys" for ys
      by (induction xs arbitrary: ys) auto
    then show ?thesis by (simp add: insertion_sort_def)
  qed
  show "sorted_wrt (\<lambda>x y. f x \<ge> f y) (insertion_sort lt xs)"
    if "\<And>x y. lt x y \<longleftrightarrow> f x > (f y :: nat)" for lt f and xs :: "'a list"
  proof -
    have step: "sorted_wrt (\<lambda>x y. f x \<ge> f y) ys \<Longrightarrow> sorted_wrt (\<lambda>x y. f x \<ge> f y) (place lt x ys)" for x ys
      by (rule place_ordered) (rule that)
    have "sorted_wrt (\<lambda>x y. f x \<ge> f y) ys \<Longrightarrow> sorted_wrt (\<lambda>x y. f x \<ge> f y) (fold (place lt) xs ys)" for ys
      by (induction xs arbitrary: ys) (simp_all add: step)
    then show ?thesis by (simp add: insertion_sort_def)
  qed
qed

interpretation insertion: slice_sort insertion_sort
  by (rule insertion_sort_slice)

section \<open>Matching\<close>

definition route_of :: "RouteConfig \<Rightarrow> route" where
  "route_of r = \<lparr>rt_prefix = rc_PathPrefix r, rt_serviceName = rc_ServiceName r,
     rt_resource = (if rc_Resource r = '''' then ''route:'' @ rc_ServiceName r else rc_Resource r)\<rparr>"

lemma buildRoutes_alt:
  "buildRoutes sort_Slice cfg =
     sort_Slice (\<lambda>i j. length (rt_prefix i) > length (rt_prefix j)) (map route_of (gc_Routes (cfg_Gateway cfg)))"
  by (simp add: buildRoutes_def route_of_def [abs_def] Let_def)

lemma route_of_simps [simp]: "rt_prefix (route_of c) = rc_PathPrefix c" "rt_serviceName (route_of c) = rc_ServiceName c"
  by (simp_all add: route_of_def)

lemma matchRoute_first:
  assumes "sorted_wrt (\<lambda>x y. length (rt_prefix x) \<ge> length (rt_prefix y)) rs"
  shows "case matchRoute rs path of
      Some r \<Rightarrow> r \<in> set rs \<and> prefix (rt_prefix r) path \<and>
        (\<forall>x\<in>set rs. prefix (rt_prefix x) path \<longrightarrow> length (rt_prefix x) \<le> length (rt_prefix r))
    | None \<Rightarrow> \<forall>x\<in>set rs. \<not> prefix (rt_prefix x) path"
  using assms by (induction rs) (auto split: option.splits)

lemma same_length_prefixes: "prefix p s \<Longrightarrow> prefix q s \<Longrightarrow> length p = length q \<Longrightarrow> p = q"
  by (auto simp: prefix_def append_eq_append_conv)

lemma buildRoutes_set: "slice_sort sort_Slice \<Longrightarrow> set (buildRoutes sort_Slice cfg) = route_of ` set (gc_Routes (cfg_Gateway cfg))"
  by (simp add: buildRoutes_alt slice_sort.same_set)

section \<open>Properties\<close>

text \<open>C30: the longest prefix wins. A request goes to a configured route whose prefix begins its path and
  than which no configured route with such a prefix has a longer one; only when no configured prefix
  begins the path is there no route. The order of the configuration does not matter.\<close>

theorem longest_prefix_wins:
  assumes "slice_sort sort_Slice"
  shows "case matchRoute (buildRoutes sort_Slice cfg) path of
      Some r \<Rightarrow> (\<exists>c\<in>set (gc_Routes (cfg_Gateway cfg)). r = route_of c) \<and> prefix (rt_prefix r) path \<and>
        (\<forall>c\<in>set (gc_Routes (cfg_Gateway cfg)). prefix (rc_PathPrefix c) path \<longrightarrow>
           length (rc_PathPrefix c) < length (rt_prefix r) \<or> rc_PathPrefix c = rt_prefix r)
    | None \<Rightarrow> \<forall>c\<in>set (gc_Routes (cfg_Gateway cfg)). \<not> prefix (rc_PathPrefix c) path"
proof -
  have "sorted_wrt (\<lambda>x y. length (rt_prefix x) \<ge> length (rt_prefix y)) (buildRoutes sort_Slice cfg)"
    unfolding buildRoutes_alt by (rule slice_sort.ordered [OF assms]) simp
  from matchRoute_first [OF this, of path] show ?thesis
    by (cases "matchRoute (buildRoutes sort_Slice cfg) path")
      (auto simp: buildRoutes_set [OF assms] le_less dest: same_length_prefixes)
qed

text \<open>Only healthy instances are called. Whatever updates the subscription and the poller deliver, the
  address picked is that of an instance that the last update without an error reported as healthy
  and enabled; there is none only if that update reported no such instance.\<close>

theorem only_healthy_instances_picked:
  assumes "\<And>n w i w'. 0 < n \<Longrightarrow> Intn n w = (i, w') \<Longrightarrow> 0 \<le> i \<and> i < n" "\<And>u. u \<in> set failed \<Longrightarrow> snd u \<noteq> None"
    and "pick Intn (fold (\<lambda>(insts, e). on_instances insts e) (updates @ (insts, None) # failed) p) w = (t, w')"
  shows "case t of Some url \<Rightarrow> \<exists>i\<in>set insts. in_Healthy i \<and> in_Enable i \<and> url = instance_url i
    | None \<Rightarrow> \<forall>i\<in>set insts. \<not> (in_Healthy i \<and> in_Enable i)"
proof -
  let ?upd = "\<lambda>us p. fold (\<lambda>(insts, e). on_instances insts e) us p" and ?ok = "filter (\<lambda>i. in_Healthy i \<and> in_Enable i) insts"
  have still: "\<forall>u\<in>set us. snd u \<noteq> None \<Longrightarrow> ?upd us p = p" for us p
    by (induction us arbitrary: p) (auto simp: on_instances_def)
  have pool: "ip_instances (?upd (updates @ (insts, None) # failed) p) = ?ok"
    using still [of failed] assms(2) by (simp add: on_instances_def pool_set_def)
  show ?thesis
  proof (cases "?ok = []")
    case True
    then show ?thesis using assms(3) pool by (auto simp: pick_def filter_empty_conv)
  next
    case False
    obtain i w1 where i: "Intn (int (length ?ok)) w = (i, w1)" by fastforce
    then have "0 \<le> i \<and> i < int (length ?ok)" using assms(1) [of "int (length ?ok)"] False by simp
    then have "?ok ! nat i \<in> set ?ok" by (intro nth_mem) (simp add: nat_less_iff)
    moreover have "t = Some (instance_url (?ok ! nat i))" using assms(3) pool False i by (simp add: pick_def)
    ultimately show ?thesis by auto
  qed
qed

section \<open>Entries\<close>

text \<open>What Sentinel sees of a request.\<close>

datatype entry_event = Entered string | Traced go_error | Exited

locale entry_observer =
  fixes seen :: "'w \<Rightarrow> entry_event list" and E :: "('w, 'e, 'u, 'q, 'b) gateway_env"
  assumes Entry_law: "sentinel_Entry E res w = (er, w') \<Longrightarrow>
      seen w' = (case er of Inl _ \<Rightarrow> seen w | Inr _ \<Rightarrow> seen w @ [Entered res])"
    and TraceError_law: "seen (sentinel_TraceError E en err w) = seen w @ [Traced err]"
    and Exit_law: "seen (entry_Exit E en w) = seen w @ [Exited]"
    and Intn_law: "gateway_Intn E n w = (i, w') \<Longrightarrow> seen w' = seen w"
    and round_trip_law: "round_trip E u req w = (rr, w') \<Longrightarrow> seen w' = seen w"
begin

lemma pick_seen: "pick (gateway_Intn E) pool w = (t, w') \<Longrightarrow> seen w' = seen w"
  using Intn_law by (auto simp: pick_def split: if_splits prod.splits)

lemma handleProxy_seen:
  assumes "handleProxy E req r (Some pool) w = (reply, w')"
  shows "seen w' = seen w \<and> reply_status reply = 503
    \<or> (\<exists>err. seen w' = seen w @ [Entered (rt_resource r), Traced err, Exited]
        \<and> (reply_status reply \<in> {500, 502} \<or> (\<exists>status body. reply = Upstream status body \<and> status \<ge> 500)))
    \<or> seen w' = seen w @ [Entered (rt_resource r), Exited] \<and> (\<exists>status body. reply = Upstream status body \<and> status < 500)"
proof -
  obtain er w1 where er: "sentinel_Entry E (rt_resource r) w = (er, w1)" by fastforce
  note entered = Entry_law [OF er]
  show ?thesis
  proof (cases er)
    case (Inl b)
    then show ?thesis using assms er entered by (auto simp: handleProxy_def)
  next
    case (Inr en)
    obtain t w2 where t: "pick (gateway_Intn E) pool w1 = (t, w2)" by fastforce
    note picked = pick_seen [OF t]
    show ?thesis
    proof (cases t)
      case None
      then show ?thesis using assms er entered Inr t picked by (auto simp: handleProxy_def Exit_law TraceError_law)
    next
      case (Some target)
      show ?thesis
      proof (cases "url_Parse E target")
        case (Inl err)
        then show ?thesis using assms er entered Inr t picked Some
          by (auto simp: handleProxy_def Exit_law TraceError_law)
      next
        case parsed: (Inr u)
        obtain rr w3 where rr: "round_trip E u req w2 = (rr, w3)" by fastforce
        show ?thesis using assms er entered Inr t picked Some parsed rr round_trip_law [OF rr]
          by (cases rr) (auto simp: handleProxy_def Exit_law TraceError_law split: prod.splits if_splits)
      qed
    qed
  qed
qed

end

text \<open>C32: every admitted request closes its entry, and every failure is counted. A request that Sentinel
  blocks is answered with 503 and leaves no trace; an admitted one enters and exits once, and between
  the two an error is traced exactly when the answer is a 502 or 500 of the gateway's own or an
  upstream status of 500 or more.\<close>

theorem entries_are_balanced:
  assumes "entry_observer seen E" "handleProxy E req r (Some pool) w = (reply, w')"
  shows "seen w' = seen w \<and> reply_status reply = 503
    \<or> (\<exists>err. seen w' = seen w @ [Entered (rt_resource r), Traced err, Exited]
        \<and> (reply_status reply \<in> {500, 502} \<or> (\<exists>status body. reply = Upstream status body \<and> status \<ge> 500)))
    \<or> seen w' = seen w @ [Entered (rt_resource r), Exited] \<and> (\<exists>status body. reply = Upstream status body \<and> status < 500)"
  by (rule entry_observer.handleProxy_seen [OF assms])

text \<open>A route without a resource is not limited. It is given the resource \<^verbatim>\<open>route:\<service>\<close>, for which no
  flow rule is loaded, unless another route names it or the service is called seckill or default;
  the default threshold applies to the resources the configuration names only.\<close>

theorem default_resource_is_unlimited:
  assumes "slice_sort sort_Slice" "c \<in> set (gc_Routes (cfg_Gateway cfg))" "rc_Resource c = ''''"
    and "rc_ServiceName c \<notin> {''seckill'', ''default''}"
    and "''route:'' @ rc_ServiceName c \<notin> rc_Resource ` set (gc_Routes (cfg_Gateway cfg))"
  shows "route_of c \<in> set (buildRoutes sort_Slice cfg) \<and> rt_resource (route_of c) = ''route:'' @ rc_ServiceName c
    \<and> rt_resource (route_of c) \<notin> fr_Resource ` set (flow_rules cfg)"
  using assms(2-5)
  by (auto simp: buildRoutes_set [OF assms(1)] route_of_def flow_rules_def flow_rule_def Let_def)

section \<open>Witnesses\<close>

definition demo_routes :: Config where
  "demo_routes = demo_config\<lparr>cfg_Gateway := (cfg_Gateway demo_config)\<lparr>gc_Routes :=
     [\<lparr>rc_PathPrefix = ''/api'', rc_ServiceName = ''order'', rc_Resource = ''''\<rparr>,
      \<lparr>rc_PathPrefix = ''/api/seckill'', rc_ServiceName = ''order'', rc_Resource = ''route:seckill''\<rparr>]\<rparr>\<rparr>"

lemma demo_routes_list: "gc_Routes (cfg_Gateway demo_routes) =
    [\<lparr>rc_PathPrefix = ''/api'', rc_ServiceName = ''order'', rc_Resource = ''''\<rparr>,
     \<lparr>rc_PathPrefix = ''/api/seckill'', rc_ServiceName = ''order'', rc_Resource = ''route:seckill''\<rparr>]"
  by (simp add: demo_routes_def)

theorem longest_prefix_wins_witness:
  "\<exists>r. matchRoute (buildRoutes insertion_sort demo_routes) ''/api/seckill/result'' = Some r
     \<and> rt_resource r = ''route:seckill''"
proof -
  note won = longest_prefix_wins [OF insertion_sort_slice, of demo_routes "''/api/seckill/result''"]
  show ?thesis
    by (cases "matchRoute (buildRoutes insertion_sort demo_routes) ''/api/seckill/result''")
      (use won in \<open>auto simp: demo_routes_list route_of_def\<close>)
qed

definition demo_instance :: "string \<Rightarrow> bool \<Rightarrow> Instance" where
  "demo_instance ip healthy = \<lparr>in_Ip = ip, in_Port = 80, in_Healthy = healthy, in_Enable = True\<rparr>"

theorem only_healthy_instances_picked_witness:
  "\<exists>url. fst (pick (\<lambda>n w. (0, w)) (fold (\<lambda>(insts, e). on_instances insts e)
        ([([demo_instance ''a'' True], None)] @ ([demo_instance ''b'' False, demo_instance ''c'' True], None)
          # [([], Some RedisNil)]) \<lparr>ip_instances = []\<rparr>) ()) = Some url \<and> url = ''http://c:80''"
proof -
  let ?pool = "fold (\<lambda>(insts, e). on_instances insts e)
        ([([demo_instance ''a'' True], None)] @ ([demo_instance ''b'' False, demo_instance ''c'' True], None)
          # [([], Some RedisNil)]) \<lparr>ip_instances = []\<rparr>"
  define t where "t = fst (pick (\<lambda>n w. (0, w)) ?pool ())"
  then have t: "pick (\<lambda>n w. (0, w)) ?pool () = (t, ())" by (simp add: prod_eq_iff)
  have "case t of Some url \<Rightarrow> \<exists>i\<in>set [demo_instance ''b'' False, demo_instance ''c'' True].
      in_Healthy i \<and> in_Enable i \<and> url = instance_url i
    | None \<Rightarrow> \<forall>i\<in>set [demo_instance ''b'' False, demo_instance ''c'' True]. \<not> (in_Healthy i \<and> in_Enable i)"
    by (rule only_healthy_instances_picked [OF _ _ t]) auto
  then obtain url where "t = Some url" "url = instance_url (demo_instance ''c'' True)"
    by (auto simp: demo_instance_def split: option.splits)
  moreover have "instance_url (demo_instance ''c'' True) = ''http://c:80''" by code_simp
  ultimately show ?thesis using t by simp
qed

text \<open>A gateway whose upstream always answers with the given status.\<close>

definition demo_env :: "int \<Rightarrow> (entry_event list, unit, string, unit, unit) gateway_env" where
  "demo_env status =
     \<lparr>sentinel_Entry = (\<lambda>res w. (Inr (), w @ [Entered res])),
      sentinel_TraceError = (\<lambda>en err w. w @ [Traced err]), entry_Exit = (\<lambda>en w. w @ [Exited]),
      gateway_Intn = (\<lambda>n w. (0, w)), url_Parse = Inr, round_trip = (\<lambda>u req w. (Inr (status, ()), w))\<rparr>"

lemma demo_observer: "entry_observer (\<lambda>w. w) (demo_env status)"
  by unfold_locales (auto simp: demo_env_def)

interpretation observed: entry_observer "\<lambda>w. w" "demo_env status" for status
  by (rule demo_observer)

theorem entries_are_balanced_witness:
  "\<exists>reply w' err. handleProxy (demo_env 503) () (route_of (hd (gc_Routes (cfg_Gateway demo_routes))))
       (Some \<lparr>ip_instances = [demo_instance ''a'' True]\<rparr>) [] = (reply, w')
     \<and> w' = [Entered ''route:order'', Traced err, Exited]"
proof -
  let ?r = "route_of (hd (gc_Routes (cfg_Gateway demo_routes)))"
  obtain reply w' where run: "handleProxy (demo_env 503) () ?r (Some \<lparr>ip_instances = [demo_instance ''a'' True]\<rparr>) [] = (reply, w')"
    by fastforce
  have "reply = Upstream 503 ()" "w' \<noteq> []"
    using run by (auto simp: handleProxy_def pick_def demo_env_def)
  moreover have "rt_resource ?r = ''route:order''" by (simp add: demo_routes_list route_of_def)
  ultimately show ?thesis using entries_are_balanced [OF demo_observer run] run by auto
qed

theorem default_resource_is_unlimited_witness:
  "rt_resource (route_of (hd (gc_Routes (cfg_Gateway demo_routes)))) = ''route:order''
   \<and> ''route:order'' \<notin> fr_Resource ` set (flow_rules demo_routes)"
proof -
  let ?c = "hd (gc_Routes (cfg_Gateway demo_routes))"
  have facts: "?c \<in> set (gc_Routes (cfg_Gateway demo_routes))" "rc_Resource ?c = ''''"
    "rc_ServiceName ?c \<notin> {''seckill'', ''default''}"
    "''route:'' @ rc_ServiceName ?c \<notin> rc_Resource ` set (gc_Routes (cfg_Gateway demo_routes))"
    and name: "rc_ServiceName ?c = ''order''"
    by (simp_all add: demo_routes_list)
  from default_resource_is_unlimited [OF insertion_sort_slice facts] show ?thesis by (auto simp: name)
qed

end
