(* ===== verification/Gateway_Main.thy ===== *)
theory Gateway_Main
  imports Gateway
begin

text \<open>
  The program \<^verbatim>\<open>cmd/gateway\<close>: its start, the answers of its router, and how its pools change while
  it runs. The subscription's callback and the poller run in goroutines of their own; their effects on
  the pools are the steps of \<open>gateway_step\<close>, in any order and number, each labelled with the
  list of instances it brings. The loops over the map of pools take its services in an order that is
  an argument; which of the router's own routes a request has is a parameter, too.
\<close>

type_synonym pools = "string \<rightharpoonup> instancePool"

record gateway =
  gw_boot :: "Client option \<times> bool"
  gw_pools :: pools
  gw_routes :: "route list"

section \<open>The start\<close>

definition make_pools :: "Config \<Rightarrow> pools" where
  "make_pools cfg =
     fold (\<lambda>r pools. pools(rc_ServiceName r \<mapsto> \<lparr>ip_instances = []\<rparr>)) (gc_Routes (cfg_Gateway cfg)) Map.empty"

text \<open>Errors of priming and of subscribing are logged only.\<close>

fun watch_pools :: "'w nacos_sdk \<Rightarrow> Client \<Rightarrow> string list \<Rightarrow> pools \<Rightarrow> 'w \<Rightarrow> pools \<times> 'w" where
  "watch_pools N c [] pools w = (pools, w)"
| "watch_pools N c (svc # svcs) pools w =
     (case pools svc of
        None \<Rightarrow> watch_pools N c svcs pools w
      | Some pool \<Rightarrow>
          (case primePool N c svc pool w of
             (_, pool', w1) \<Rightarrow>
               (case Subscribe N c svc w1 of
                  (_, w2) \<Rightarrow> watch_pools N c svcs (pools(svc \<mapsto> pool')) w2)))"

text \<open>The gateway before it serves, or the message it dies with.\<close>

definition start_gateway ::
    "'w nacos_sdk \<Rightarrow> ('w \<Rightarrow> (go_error + unit) \<times> 'w) \<Rightarrow> (flow_Rule list \<Rightarrow> 'w \<Rightarrow> (go_error + bool) \<times> 'w) \<Rightarrow>
      (cb_Rule list \<Rightarrow> 'w \<Rightarrow> (go_error + bool) \<times> 'w) \<Rightarrow> ((route \<Rightarrow> route \<Rightarrow> bool) \<Rightarrow> route list \<Rightarrow> route list) \<Rightarrow>
      string list \<Rightarrow> Config \<Rightarrow> 'w \<Rightarrow> (string + gateway) \<times> 'w" where
  "start_gateway N sentinel_InitDefault flow_LoadRules cb_LoadRules sort_Slice svcs cfg w =
     (case sentinel_InitDefault w of
        (Inl err, w1) \<Rightarrow> (Inl (''gateway: sentinel init: '' @ error_text err), w1)
      | (Inr _, w1) \<Rightarrow>
          (case loadSentinelRules flow_LoadRules cb_LoadRules cfg w1 of
             (Inl err, w2) \<Rightarrow> (Inl (''gateway: sentinel rules: '' @ error_text err), w2)
           | (Inr _, w2) \<Rightarrow>
               (case BootstrapService N cfg w2 of
                  (boot, w3) \<Rightarrow>
                    (let pools = make_pools cfg; routes = buildRoutes sort_Slice cfg in
                     case fst boot of
                       None \<Rightarrow> (Inr \<lparr>gw_boot = boot, gw_pools = pools, gw_routes = routes\<rparr>, w3)
                     | Some c \<Rightarrow>
                         (case watch_pools N c svcs pools w3 of
                            (pools', w4) \<Rightarrow> (Inr \<lparr>gw_boot = boot, gw_pools = pools', gw_routes = routes\<rparr>, w4))))))"

text \<open>
  The whole of \<^verbatim>\<open>main\<close>: \<^verbatim>\<open>r.Run\<close> serves until it fails. \<^verbatim>\<open>log.Fatalf\<close> ends the process without the
  deferred calls, so that deregistering is left to a \<^verbatim>\<open>Run\<close> that returns without an error.
\<close>

definition run_gateway ::
    "'w nacos_sdk \<Rightarrow> (gateway \<Rightarrow> 'w \<Rightarrow> (go_error + unit) \<times> 'w) \<Rightarrow> (string + gateway) \<times> 'w \<Rightarrow> string option \<times> 'w" where
  "run_gateway N r_Run started =
     (case started of
        (Inl fatal, w) \<Rightarrow> (Some fatal, w)
      | (Inr g, w) \<Rightarrow>
          (case r_Run g w of
             (Inl err, w1) \<Rightarrow> (Some (''gateway: run: '' @ error_text err), w1)
           | (Inr _, w1) \<Rightarrow> (None, snd (deregister N (gw_boot g) w1))))"

section \<open>The router\<close>

datatype own_endpoint = GW_Health | GW_Instances

datatype found = Found own_endpoint | Redirect int | NotFound

datatype 'b gateway_answer = Answer "'b reply" | Listing "string \<rightharpoonup> string list" | Redirected int

definition gateway_routes :: "(string \<times> string \<times> own_endpoint) list" where
  "gateway_routes = [(''GET'', ''/health'', GW_Health), (''GET'', ''/gateway/instances'', GW_Instances)]"

definition host_port :: "Instance \<Rightarrow> string" where
  "host_port i = in_Ip i @ '':'' @ show_nat (in_Port i)"

text \<open>A service is listed as soon as it has an instance.\<close>

definition list_instances :: "pools \<Rightarrow> string \<rightharpoonup> string list" where
  "list_instances pools svc =
     (case pools svc of
        None \<Rightarrow> None
      | Some p \<Rightarrow> (if ip_instances p = [] then None else Some (map host_port (ip_instances p))))"

definition gateway_handle ::
    "((string \<times> string \<times> own_endpoint) list \<Rightarrow> string \<Rightarrow> string \<Rightarrow> found) \<Rightarrow> ('w, 'e, 'u, 'q, 'b) gateway_env \<Rightarrow>
      route list \<Rightarrow> pools \<Rightarrow> 'q \<Rightarrow> string \<Rightarrow> string \<Rightarrow> 'w \<Rightarrow> 'b gateway_answer \<times> 'w" where
  "gateway_handle lookup E routes pools req http_method path w =
     (case lookup gateway_routes http_method path of
        Found GW_Health \<Rightarrow> (Answer (Envelope 200 [(''status'', JStr ''ok''), (''service'', JStr ''gateway'')]), w)
      | Found GW_Instances \<Rightarrow> (Listing (list_instances pools), w)
      | Redirect s \<Rightarrow> (Redirected s, w)
      | NotFound \<Rightarrow> (case NoRoute E routes pools req path w of (reply, w1) \<Rightarrow> (Answer reply, w1)))"

section \<open>While it runs\<close>

text \<open>
  A step is a call of the subscription's callback, with whatever the SDK hands it, or the poll of one
  service, whenever it happens; the label is the list of instances that arrives, if one does.
\<close>

inductive gateway_step :: "'w nacos_sdk \<Rightarrow> Client \<Rightarrow> pools \<Rightarrow> (string \<times> Instance list) list \<Rightarrow> pools \<Rightarrow> bool"
  for N c where
  Notified: "pools svc = Some p \<Longrightarrow>
    gateway_step N c pools (if subErr = None then [(svc, insts)] else []) (pools(svc \<mapsto> on_instances insts subErr p))"
| Polled: "svc \<in> dom pools \<Longrightarrow> SelectInstances N c svc w = (Inr insts, w') \<Longrightarrow>
    gateway_step N c pools [(svc, insts)] (fst (refresh N c svc pools w))"
| Missed: "svc \<in> dom pools \<Longrightarrow> SelectInstances N c svc w = (Inl err, w') \<Longrightarrow>
    gateway_step N c pools [] (fst (refresh N c svc pools w))"

inductive gateway_steps :: "'w nacos_sdk \<Rightarrow> Client \<Rightarrow> pools \<Rightarrow> (string \<times> Instance list) list \<Rightarrow> pools \<Rightarrow> bool"
  for N c where
  Idle: "gateway_steps N c pools [] pools"
| Then: "gateway_steps N c pools us pools' \<Longrightarrow> gateway_step N c pools' vs pools'' \<Longrightarrow>
    gateway_steps N c pools (us @ vs) pools''"

inductive_cases gateway_stepE: "gateway_step N c pools us pools'"

text \<open>The abstract view: the instances the last report of a service lists as healthy and enabled.\<close>

definition serving :: "(string \<times> Instance list) list \<Rightarrow> string \<Rightarrow> Instance list" where
  "serving us svc =
     (case map_of (rev us) svc of None \<Rightarrow> [] | Some insts \<Rightarrow> filter (\<lambda>i. in_Healthy i \<and> in_Enable i) insts)"

definition pools_of :: "Config \<Rightarrow> (string \<times> Instance list) list \<Rightarrow> pools" where
  "pools_of cfg us svc =
     (if svc \<in> rc_ServiceName ` set (gc_Routes (cfg_Gateway cfg)) then Some \<lparr>ip_instances = serving us svc\<rparr> else None)"

section \<open>The start and the steps\<close>

lemma pool_set_alt: "pool_set insts p = \<lparr>ip_instances = filter (\<lambda>i. in_Healthy i \<and> in_Enable i) insts\<rparr>"
  by (cases p) (simp add: pool_set_def)

lemma serving_simps [simp]:
  "serving [] svc = []"
  "serving (us @ [(svc', insts)]) svc =
     (if svc' = svc then filter (\<lambda>i. in_Healthy i \<and> in_Enable i) insts else serving us svc)"
  by (simp_all add: serving_def)

lemma serving_healthy: "i \<in> set (serving us svc) \<Longrightarrow>
    in_Healthy i \<and> in_Enable i \<and> (\<exists>insts. map_of (rev us) svc = Some insts \<and> i \<in> set insts)"
  by (cases "map_of (rev us) svc") (auto simp: serving_def)

lemma pools_of_dom: "dom (pools_of cfg us) = rc_ServiceName ` set (gc_Routes (cfg_Gateway cfg))"
  by (auto simp: pools_of_def dom_def)

lemma pools_of_snoc:
  "svc \<in> dom (pools_of cfg us) \<Longrightarrow>
     (pools_of cfg us)(svc \<mapsto> \<lparr>ip_instances = filter (\<lambda>i. in_Healthy i \<and> in_Enable i) insts\<rparr>) = pools_of cfg (us @ [(svc, insts)])"
  by (rule ext) (simp add: pools_of_dom, auto simp: pools_of_def)

lemma make_pools_empty: "make_pools cfg = pools_of cfg []"
proof -
  have "fold (\<lambda>r pools. pools(rc_ServiceName r \<mapsto> \<lparr>ip_instances = []\<rparr>)) rs m svc =
      (if svc \<in> rc_ServiceName ` set rs then Some \<lparr>ip_instances = []\<rparr> else m svc)" for rs svc and m :: pools
    by (induction rs arbitrary: m) auto
  from this [of "gc_Routes (cfg_Gateway cfg)" Map.empty] show ?thesis
    unfolding make_pools_def pools_of_def by (simp add: fun_eq_iff)
qed

text \<open>The pools implement the abstract view, step by step.\<close>

lemma gateway_step_refines:
  assumes "gateway_step N c (pools_of cfg us) vs pools"
  shows "pools = pools_of cfg (us @ vs)"
  using assms
proof (cases rule: gateway_step.cases)
  case (Notified svc p subErr insts)
  then show ?thesis
    by (cases subErr) (auto simp: on_instances_def pool_set_alt pools_of_snoc domI fun_upd_idem)
next
  case (Polled svc w insts w')
  then show ?thesis
    by (auto simp: refresh_def pool_set_alt pools_of_snoc domI)
next
  case (Missed svc w err w')
  then show ?thesis by (simp add: refresh_def)
qed

lemma gateway_steps_refine:
  "gateway_steps N c pools vs pools' \<Longrightarrow> pools = pools_of cfg us \<Longrightarrow> pools' = pools_of cfg (us @ vs)"
proof (induction rule: gateway_steps.induct)
  case (Then pools vs pools' ws pools'')
  then show ?case using gateway_step_refines by (metis append.assoc)
qed simp

lemma gateway_steps_trans:
  assumes "gateway_steps N c pools us pools'" "gateway_steps N c pools' vs pools''"
  shows "gateway_steps N c pools (us @ vs) pools''"
  using assms(2,1)
proof (induction rule: gateway_steps.induct)
  case (Then p vs p' ws p'')
  then show ?case using gateway_steps.Then by (metis append.assoc)
qed simp

lemma gateway_step1: "gateway_step N c pools us pools' \<Longrightarrow> gateway_steps N c pools us pools'"
  using gateway_steps.Then [OF gateway_steps.Idle] by fastforce

text \<open>Priming a pool and a tick of the poller are steps.\<close>

lemma refresh_step:
  "svc \<in> dom pools \<Longrightarrow> \<exists>us. gateway_step N c pools us (fst (refresh N c svc pools w))
     \<and> (\<forall>u\<in>set us. \<exists>v v'. SelectInstances N c (fst u) v = (Inr (snd u), v'))"
  by (cases "SelectInstances N c svc w"; cases "fst (SelectInstances N c svc w)")
    (force intro: gateway_step.intros)+

lemma primed_is_refreshed:
  "pools svc = Some p \<Longrightarrow> primePool N c svc p w = (r, p', w') \<Longrightarrow> pools(svc \<mapsto> p') = fst (refresh N c svc pools w)"
  by (auto simp: primePool_def refresh_def fun_upd_idem split: prod.splits sum.splits)

lemma refresh_dom [simp]: "dom (fst (refresh N c svc pools w)) = dom pools"
  by (auto simp: refresh_def dom_def split: prod.splits sum.splits if_splits)

lemma poll_tick_steps: "set svcs \<subseteq> dom pools \<Longrightarrow> \<exists>us. gateway_steps N c pools us (fst (poll_tick N c svcs pools w))"
proof (induction svcs arbitrary: pools w)
  case (Cons svc svcs)
  have "svc \<in> dom pools" using Cons.prems by simp
  then obtain us where "gateway_steps N c pools us (fst (refresh N c svc pools w))"
    using refresh_step gateway_step1 by meson
  moreover obtain vs where "gateway_steps N c (fst (refresh N c svc pools w)) vs
      (fst (poll_tick N c svcs (fst (refresh N c svc pools w)) (snd (refresh N c svc pools w))))"
    using Cons.IH [of "fst (refresh N c svc pools w)"] Cons.prems by auto
  ultimately show ?case using gateway_steps_trans by (fastforce simp: split_beta)
qed (auto intro: gateway_steps.Idle)

lemma watch_pools_steps:
  "\<exists>us. gateway_steps N c pools us (fst (watch_pools N c svcs pools w))
     \<and> (\<forall>u\<in>set us. \<exists>v v'. SelectInstances N c (fst u) v = (Inr (snd u), v'))"
proof (induction svcs arbitrary: pools w)
  case (Cons svc svcs)
  show ?case
  proof (cases "pools svc")
    case None
    then show ?thesis using Cons.IH [of pools w] by simp
  next
    case (Some p)
    obtain r p' w1 where prime: "primePool N c svc p w = (r, p', w1)" by (metis prod.exhaust)
    obtain sr w2 where sub: "Subscribe N c svc w1 = (sr, w2)" by fastforce
    let ?ok = "\<lambda>us. \<forall>u\<in>set us. \<exists>v v'. SelectInstances N c (fst u) v = (Inr (snd u), v')"
    obtain us where us: "gateway_steps N c pools us (pools(svc \<mapsto> p'))" "?ok us"
      unfolding primed_is_refreshed [of pools, OF Some prime]
      using refresh_step [OF domI, of pools, OF Some] gateway_step1 by meson
    obtain vs where vs: "gateway_steps N c (pools(svc \<mapsto> p')) vs (fst (watch_pools N c svcs (pools(svc \<mapsto> p')) w2))" "?ok vs"
      using Cons.IH by blast
    have "fst (watch_pools N c (svc # svcs) pools w) = fst (watch_pools N c svcs (pools(svc \<mapsto> p')) w2)"
      using Some prime sub by simp
    then show ?thesis using gateway_steps_trans [OF us(1) vs(1)] us(2) vs(2) by (metis Un_iff set_append)
  qed
qed (auto intro: gateway_steps.Idle)
lemma start_gateway_result:
  assumes "start_gateway N init flow_LoadRules cb_LoadRules sort_Slice svcs cfg w = (Inr g, w')"
  shows "gw_routes g = buildRoutes sort_Slice cfg \<and> (\<exists>us. gw_pools g = pools_of cfg us \<and>
    (case fst (gw_boot g) of None \<Rightarrow> us = []
     | Some c \<Rightarrow> \<forall>u\<in>set us. \<exists>v v'. SelectInstances N c (fst u) v = (Inr (snd u), v')))"
proof -
  have routes: "gw_routes g = buildRoutes sort_Slice cfg"
    and unwatched: "fst (gw_boot g) = None \<Longrightarrow> gw_pools g = make_pools cfg"
    and watched: "fst (gw_boot g) = Some c \<Longrightarrow> \<exists>w3. gw_pools g = fst (watch_pools N c svcs (make_pools cfg) w3)" for c
    using assms by (auto simp: start_gateway_def Let_def split: sum.splits prod.splits option.splits) (metis fst_conv)+
  show ?thesis
  proof (cases "fst (gw_boot g)")
    case None
    then show ?thesis using routes unwatched by (simp add: make_pools_empty)
  next
    case (Some c)
    obtain us where us: "gateway_steps N c (pools_of cfg []) us (gw_pools g)"
      "\<forall>u\<in>set us. \<exists>v v'. SelectInstances N c (fst u) v = (Inr (snd u), v')"
      using watch_pools_steps [of N c "make_pools cfg" svcs] watched [OF Some] by (metis make_pools_empty)
    from gateway_steps_refine [OF us(1), of cfg "[]"] us(2) show ?thesis using routes Some by auto
  qed
qed

section \<open>The proxy on the pools\<close>

lemma handleProxy_target:
  assumes "handleProxy E req r (Some p) w = (reply, w')"
    and "\<And>n w i w'. 0 < n \<Longrightarrow> gateway_Intn E n w = (i, w') \<Longrightarrow> 0 \<le> i \<and> i < n"
  shows "reply \<noteq> Panicked \<and> (\<forall>status body. reply = Upstream status body \<longrightarrow>
    (\<exists>i\<in>set (ip_instances p). \<exists>u v v'. url_Parse E (instance_url i) = Inr u \<and> round_trip E u req v = (Inr (status, body), v')))"
proof -
  have picked: "\<exists>i\<in>set (ip_instances p). url = instance_url i" if "pick (gateway_Intn E) p v = (Some url, v')" for url v v'
  proof -
    obtain n v1 where n: "gateway_Intn E (int (length (ip_instances p))) v = (n, v1)" by fastforce
    have "ip_instances p \<noteq> []" using that by (auto simp: pick_def)
    then have "nat n < length (ip_instances p)" using assms(2) [OF _ n] by auto
    moreover have "url = instance_url (ip_instances p ! nat n)"
      using that n \<open>ip_instances p \<noteq> []\<close> by (simp add: pick_def)
    ultimately show ?thesis by auto
  qed
  show ?thesis
    using assms(1) picked unfolding handleProxy_def
    by (auto split: sum.splits prod.splits option.splits) blast+
qed

lemma NoRoute_on_pools:
  assumes "slice_sort sort_Slice"
  shows "NoRoute E (buildRoutes sort_Slice cfg) (pools_of cfg us) req path w =
    (case matchRoute (buildRoutes sort_Slice cfg) path of
       None \<Rightarrow> (Envelope 404 [(''code'', JInt 404), (''message'', JStr (''no route for '' @ path))], w)
     | Some r \<Rightarrow> handleProxy E req r (Some \<lparr>ip_instances = serving us (rt_serviceName r)\<rparr>) w)"
proof -
  have "r \<in> set rs" if "matchRoute rs path = Some r" for r rs
    using that by (induction rs) (auto split: if_splits)
  then have "rt_serviceName r \<in> rc_ServiceName ` set (gc_Routes (cfg_Gateway cfg))"
    if "matchRoute (buildRoutes sort_Slice cfg) path = Some r" for r
    using that buildRoutes_set [OF assms] by fastforce
  then show ?thesis by (auto simp: NoRoute_def pools_of_def split: option.splits)
qed

section \<open>Properties\<close>


text \<open>C34: without Nacos nothing is reachable. A gateway that has no client of the registry, because Nacos is
  not enabled or its client could not be made, lists no instance and forwards no request: besides its own
  endpoints it answers 404 to a path without a route, and 503 or the 502 of an empty pool to
  every other. There is no fallback to the names of the services.\<close>

theorem gateway_without_nacos_forwards_nothing:
  assumes "slice_sort sort_Slice" "start_gateway N init flow_LoadRules cb_LoadRules sort_Slice svcs cfg v = (Inr g, v')"
    and "fst (gw_boot g) = None" "gateway_handle lookup E (gw_routes g) (gw_pools g) req http_method path w = (answer, w')"
  shows "list_instances (gw_pools g) = Map.empty \<and> (case lookup gateway_routes http_method path of
      NotFound \<Rightarrow> (\<exists>status ms. answer = Answer (Envelope status ms) \<and>
        (case matchRoute (buildRoutes sort_Slice cfg) path of
           None \<Rightarrow> status = 404
         | Some r \<Rightarrow> status = 503 \<or> status = 502 \<and> (''message'', JStr ''no upstream available'') \<in> set ms))
    | _ \<Rightarrow> w' = w)"
proof -
  have pools: "gw_pools g = pools_of cfg []" and routes: "gw_routes g = buildRoutes sort_Slice cfg"
    using start_gateway_result [OF assms(2)] assms(3) by auto
  have "list_instances (gw_pools g) = Map.empty" by (simp add: fun_eq_iff list_instances_def pools pools_of_def)
  then show ?thesis
    using assms(4)
    by (auto simp: gateway_handle_def routes pools NoRoute_on_pools [OF assms(1)] handleProxy_def pick_def
        split: found.splits own_endpoint.splits option.splits prod.splits sum.splits)
qed

text \<open>
  Only a gateway whose \<^verbatim>\<open>Run\<close> returns without an error leaves the registry: one that dies before has
  not entered it, but one that cannot serve, its port being taken say, stays in it.
\<close>

theorem failed_gateway_stays_registered:
  assumes "naming_service registered N"
    and "\<And>w r w'. init w = (r, w') \<Longrightarrow> registered w' = registered w"
    and "\<And>rs w r w'. flow_LoadRules rs w = (r, w') \<Longrightarrow> registered w' = registered w"
    and "\<And>rs w r w'. cb_LoadRules rs w = (r, w') \<Longrightarrow> registered w' = registered w"
    and "\<And>g w r w'. r_Run g w = (r, w') \<Longrightarrow> registered w' = registered w"
    and "start_gateway N init flow_LoadRules cb_LoadRules sort_Slice svcs cfg w = (started, w1)"
    and "run_gateway N r_Run (started, w1) = (exit, w2)"
  shows "case started of
      Inl fatal \<Rightarrow> exit = Some fatal \<and> registered w2 = registered w
    | Inr g \<Rightarrow> \<forall>c. gw_boot g = (Some c, True) \<longrightarrow>
        (if exit = None then registered w2 = registered w - {registration_of c} \<or> registered w2 = registered w1
         else registered w2 = insert (registration_of c) (registered w))"
proof -
  have watch: "registered (snd (watch_pools N c ss ps v)) = registered v" for c ss ps v
    using naming_service.watching_law [OF assms(1)]
    by (induction ss arbitrary: ps v)
      (auto simp: primePool_def SelectInstances_def Subscribe_def split: prod.splits sum.splits option.splits)
  have rules: "registered v' = registered v" if "loadSentinelRules flow_LoadRules cb_LoadRules cfg v = (r, v')" for r v v'
    using that assms(3,4) by (auto simp: loadSentinelRules_def split: prod.splits sum.splits)
  show ?thesis
  proof (cases started)
    case (Inl fatal)
    then have "registered w1 = registered w"
      using assms(2,6) rules by (auto simp: start_gateway_def Let_def split: prod.splits sum.splits option.splits)
    then show ?thesis using assms(7) Inl by (simp add: run_gateway_def)
  next
    case (Inr g)
    show ?thesis
    proof (simp only: Inr sum.case, intro allI impI)
      fix c assume live: "gw_boot g = (Some c, True)"
      obtain v v' where start: "registered v = registered w" "BootstrapService N cfg v = ((Some c, True), v')"
        "registered w1 = registered v'"
        using assms(6) Inr live assms(2) rules watch
        by (auto simp: start_gateway_def Let_def split: prod.splits sum.splits option.splits) (metis snd_conv)
      then have held: "registered w1 = insert (registration_of c) (registered w)"
        using naming_service.Bootstrap_result [OF assms(1) start(2)] by auto
      obtain rr w' where serve: "r_Run g w1 = (rr, w')" by fastforce
      obtain dr c' w'' where off: "Deregister N c w' = (dr, c', w'')" by (metis prod.exhaust)
      have "cl_registered c" using naming_service.Bootstrap_result [OF assms(1) start(2)] by auto
      then show "if exit = None then registered w2 = registered w - {registration_of c} \<or> registered w2 = registered w1
          else registered w2 = insert (registration_of c) (registered w)"
        using assms(5) [OF serve] assms(7) Inr live serve held off naming_service.Deregister_result [OF assms(1) off]
        by (cases rr; cases dr) (auto simp: run_gateway_def deregister_def)
    qed
  qed
qed

text \<open>Stale pools recover: a tick whose queries all succeed leaves each pool with what the registry answers.\<close>

lemma poll_tick_is_current:
  assumes "\<And>svc w. fst (SelectInstances N c svc w) = Inr (answer svc)"
  shows "fst (poll_tick N c svcs pools w) svc =
    (if svc \<in> set svcs then map_option (pool_set (answer svc)) (pools svc) else pools svc)"
proof (induction svcs arbitrary: pools w)
  case (Cons s svcs)
  obtain w1 where "refresh N c s pools w = (pools(s := map_option (pool_set (answer s)) (pools s)), w1)"
    using assms [of s w] by (cases "SelectInstances N c s w") (auto simp: refresh_def)
  then show ?case using Cons.IH by (auto simp: option.map_comp comp_def pool_set_alt [abs_def])
qed simp

section \<open>Witnesses\<close>

definition demo_nacos :: "registration list nacos_sdk" where
  "demo_nacos = mem_nacos True [IPNet False (Some ''10.0.0.7'')]"

definition demo_gateway :: "bool \<Rightarrow> Config" where
  "demo_gateway enabled =
     demo_routes\<lparr>cfg_Nacos := (cfg_Nacos demo_routes)\<lparr>nc_Enabled := enabled, nc_ServiceName := ''gateway''\<rparr>\<rparr>"

definition demo_start :: "bool \<Rightarrow> (string + gateway) \<times> registration list" where
  "demo_start enabled =
     start_gateway demo_nacos (\<lambda>w. (Inr (), w)) (\<lambda>rs w. (Inr True, w)) (\<lambda>rs w. (Inr True, w)) insertion_sort [''order'']
       (demo_gateway enabled) [(''DEFAULT_GROUP'', ''order'', ''10.0.0.9'', 80)]"

definition own_lookup :: "(string \<times> string \<times> own_endpoint) list \<Rightarrow> string \<Rightarrow> string \<Rightarrow> found" where
  "own_lookup rs http_method path =
     (case find (\<lambda>(m, p, h). m = http_method \<and> p = path) rs of Some (m, p, h) \<Rightarrow> Found h | None \<Rightarrow> NotFound)"

text \<open>Only one address answers.\<close>

definition one_upstream :: "(entry_event list, unit, string, unit, unit) gateway_env" where
  "one_upstream = (demo_env 200)\<lparr>round_trip := (\<lambda>u req w.
     (if u = ''http://10.0.0.9:80'' then Inr (200, ()) else Inl (ErrExternal ''connection refused''), w))\<rparr>"


text \<open>The same gateway with Nacos switched off.\<close>

theorem gateway_without_nacos_forwards_nothing_witness:
  "\<exists>g w1. demo_start False = (Inr g, w1) \<and> list_instances (gw_pools g) = Map.empty
     \<and> fst (gateway_handle own_lookup one_upstream (gw_routes g) (gw_pools g) () ''GET'' ''/api/seckill'' [])
       = Answer (Envelope 502 [(''code'', JInt 502), (''message'', JStr ''no upstream available'')])"
proof -
  let ?answer = "\<lambda>g. gateway_handle own_lookup one_upstream (gw_routes g) (gw_pools g) () ''GET'' ''/api/seckill'' []"
  have "case demo_start False of (Inr g, w1) \<Rightarrow> fst (gw_boot g) = None
      \<and> (case fst (?answer g) of
          Answer reply \<Rightarrow> reply = Envelope 502 [(''code'', JInt 502), (''message'', JStr ''no upstream available'')]
        | _ \<Rightarrow> False) | _ \<Rightarrow> False"
    by code_simp
  then obtain g w1 where start: "demo_start False = (Inr g, w1)" and none: "fst (gw_boot g) = None"
    and answer: "fst (?answer g) = Answer (Envelope 502 [(''code'', JInt 502), (''message'', JStr ''no upstream available'')])"
    by (auto split: prod.splits sum.splits gateway_answer.splits)
  note nothing = gateway_without_nacos_forwards_nothing
    [OF insertion_sort_slice start [unfolded demo_start_def] none surjective_pairing [of "?answer g"]]
  then show ?thesis using start answer by blast
qed

text \<open>The port is taken: the process ends, its registration stays.\<close>

theorem failed_gateway_stays_registered_witness:
  "\<exists>g c w1. demo_start True = (Inr g, w1) \<and> gw_boot g = (Some c, True)
     \<and> registration_of c = (''DEFAULT_GROUP'', ''gateway'', ''10.0.0.7'', 81)
     \<and> registration_of c \<in> set (snd (run_gateway demo_nacos (\<lambda>g w. (Inl (ErrExternal ''address already in use''), w)) (Inr g, w1)))"
proof -
  let ?Run = "\<lambda>g w. (Inl (ErrExternal ''address already in use''), w)"
  have "case demo_start True of (Inr g, w1) \<Rightarrow> snd (gw_boot g) \<and> (case fst (gw_boot g) of
        Some c \<Rightarrow> registration_of c = (''DEFAULT_GROUP'', ''gateway'', ''10.0.0.7'', 81) | None \<Rightarrow> False) | _ \<Rightarrow> False"
    by code_simp
  then obtain g w1 c where start: "demo_start True = (Inr g, w1)" and boot: "gw_boot g = (Some c, True)"
    and c: "registration_of c = (''DEFAULT_GROUP'', ''gateway'', ''10.0.0.7'', 81)"
    by (auto simp: prod_eq_iff split: prod.splits sum.splits option.splits)
  obtain w2 where run: "run_gateway demo_nacos ?Run (Inr g, w1) = (Some (''gateway: run: '' @ error_text (ErrExternal ''address already in use'')), w2)"
    by (simp add: run_gateway_def)
  have "registration_of c \<in> set w2"
    using failed_gateway_stays_registered [OF mem_naming [of True "[IPNet False (Some ''10.0.0.7'')]", folded demo_nacos_def]
        _ _ _ _ start [unfolded demo_start_def] run] boot by fastforce
  then show ?thesis using start boot c run by simp
qed

end
