(* ===== verification/Platform.thy ===== *)
theory Platform
  imports Config Kafka
begin

text \<open>
  What the programs construct before they serve: \<^verbatim>\<open>LoadConfig\<close>, the connections of
  \<^verbatim>\<open>pkg/database\<close> and \<^verbatim>\<open>pkg/cache\<close>, and the clients of \<^verbatim>\<open>pkg/kafka\<close> with the loop of a
  consumer. The calls of the libraries are the record \<open>platform\<close> over a type of worlds; the objects
  they return are references (\<open>handle\<close>) that only the libraries look into.
\<close>

section \<open>The libraries\<close>

type_synonym handle = nat

record redis_Options =
  ro_Addr :: string
  ro_Password :: string
  ro_DB :: int
  ro_DialTimeout :: int
  ro_ReadTimeout :: int
  ro_WriteTimeout :: int

datatype required_acks = NoResponse | WaitForLocal | WaitForAll

record producer_config =
  pcf_RequiredAcks :: required_acks
  pcf_RetryMax :: int
  pcf_ReturnSuccesses :: bool

datatype balance_strategy = RoundRobin | RangeStrategy | Sticky

datatype initial_offset = OffsetOldest | OffsetNewest

record group_config =
  gcf_GroupStrategies :: "balance_strategy list"
  gcf_OffsetsInitial :: initial_offset

text \<open>The interface \<^verbatim>\<open>sarama.ConsumerGroupHandler\<close>; a claim is the list of its messages, and what has been marked is returned.\<close>

record 'w group_handler =
  gh_Setup :: "'w \<Rightarrow> (go_error + unit) \<times> 'w"
  gh_Cleanup :: "'w \<Rightarrow> (go_error + unit) \<times> 'w"
  gh_ConsumeClaim :: "(string \<times> json) list \<Rightarrow> 'w \<Rightarrow> (string \<times> json) list \<times> 'w"

record 'w platform =
  gorm_Open :: "string \<Rightarrow> 'w \<Rightarrow> (go_error + handle) \<times> 'w"
  gorm_DB :: "handle \<Rightarrow> 'w \<Rightarrow> (go_error + handle) \<times> 'w"
  sql_SetMaxOpenConns :: "handle \<Rightarrow> int \<Rightarrow> 'w \<Rightarrow> 'w"
  sql_SetMaxIdleConns :: "handle \<Rightarrow> int \<Rightarrow> 'w \<Rightarrow> 'w"
  gorm_Use_replicas :: "handle \<Rightarrow> string list \<Rightarrow> 'w \<Rightarrow> (go_error + unit) \<times> 'w"
  gorm_AutoMigrate :: "handle \<Rightarrow> string list \<Rightarrow> 'w \<Rightarrow> (go_error + unit) \<times> 'w"
  redis_NewClient :: "redis_Options \<Rightarrow> 'w \<Rightarrow> handle \<times> 'w"
  redis_Ping :: "handle \<Rightarrow> 'w \<Rightarrow> (go_error + unit) \<times> 'w"
  redis_Close :: "handle \<Rightarrow> 'w \<Rightarrow> (go_error + unit) \<times> 'w"
  sarama_NewSyncProducer :: "string list \<Rightarrow> producer_config \<Rightarrow> 'w \<Rightarrow> (go_error + handle) \<times> 'w"
  producer_Close :: "handle \<Rightarrow> 'w \<Rightarrow> (go_error + unit) \<times> 'w"
  sarama_NewConsumerGroup :: "string list \<Rightarrow> string \<Rightarrow> group_config \<Rightarrow> 'w \<Rightarrow> (go_error + handle) \<times> 'w"
  group_Consume :: "handle \<Rightarrow> string list \<Rightarrow> 'w group_handler \<Rightarrow> 'w \<Rightarrow> (go_error + unit) \<times> 'w"
  group_Close :: "handle \<Rightarrow> 'w \<Rightarrow> (go_error + unit) \<times> 'w"
  ctx_cancel :: "'w \<Rightarrow> 'w"
  ctx_cancelled :: "'w \<Rightarrow> bool"

text \<open>Viper keeps the settings of the four calls and reads the file and the environment by them.\<close>

record viper_settings =
  vs_ConfigFile :: string
  vs_EnvPrefix :: string
  vs_EnvKeyReplacer :: "(string \<times> string) list"
  vs_AutomaticEnv :: bool

record 'w viper =
  viper_ReadInConfig :: "viper_settings \<Rightarrow> 'w \<Rightarrow> (go_error + unit) \<times> 'w"
  viper_Unmarshal :: "viper_settings \<Rightarrow> 'w \<Rightarrow> (go_error + Config) \<times> 'w"

section \<open>Configuration, database and cache\<close>

definition LoadConfig :: "'w viper \<Rightarrow> string \<Rightarrow> 'w \<Rightarrow> (go_error + Config) \<times> 'w" where
  "LoadConfig V path w =
     (let s = \<lparr>vs_ConfigFile = path, vs_EnvPrefix = ''FLASH_SALE'', vs_EnvKeyReplacer = [(''.'', ''_'')], vs_AutomaticEnv = True\<rparr> in
      case viper_ReadInConfig V s w of
        (Inl err, w1) \<Rightarrow> (Inl (Errorf ''Read config'' err), w1)
      | (Inr _, w1) \<Rightarrow>
          (case viper_Unmarshal V s w1 of
             (Inl err, w2) \<Rightarrow> (Inl (Errorf ''Unmarshal config'' err), w2)
           | (Inr cfg, w2) \<Rightarrow> (Inr cfg, w2)))"

definition NewPostgres :: "'w platform \<Rightarrow> string \<Rightarrow> 'w \<Rightarrow> (go_error + handle) \<times> 'w" where
  "NewPostgres P dsn w =
     (case gorm_Open P dsn w of
        (Inl err, w1) \<Rightarrow> (Inl (Errorf ''failed to connect to PostgreSQL'' err), w1)
      | (Inr db, w1) \<Rightarrow>
          (case gorm_DB P db w1 of
             (Inl err, w2) \<Rightarrow> (Inl (Errorf ''failed to get sql.DB from gorm.DB'' err), w2)
           | (Inr sqlDB, w2) \<Rightarrow> (Inr db, sql_SetMaxIdleConns P sqlDB 10 (sql_SetMaxOpenConns P sqlDB 100 w2))))"

definition NewPostgresWithReplicas :: "'w platform \<Rightarrow> string \<Rightarrow> string list \<Rightarrow> 'w \<Rightarrow> (go_error + handle) \<times> 'w" where
  "NewPostgresWithReplicas P primaryDSN replicaDSNs w =
     (case NewPostgres P primaryDSN w of
        (Inl err, w1) \<Rightarrow> (Inl err, w1)
      | (Inr db, w1) \<Rightarrow>
          (if replicaDSNs = [] then (Inr db, w1)
           else (case gorm_Use_replicas P db replicaDSNs w1 of
                   (Inl err, w2) \<Rightarrow> (Inl (Errorf ''failed to register db resolver'' err), w2)
                 | (Inr _, w2) \<Rightarrow> (Inr db, w2))))"

text \<open>The client is returned even when Redis does not answer.\<close>

definition NewRedisClient :: "'w platform \<Rightarrow> RedisConfig \<Rightarrow> 'w \<Rightarrow> handle \<times> 'w" where
  "NewRedisClient P cfg w =
     (case redis_NewClient P
             \<lparr>ro_Addr = rdc_Host cfg @ '':'' @ show_int (rdc_Port cfg), ro_Password = rdc_Password cfg, ro_DB = rdc_DB cfg,
              ro_DialTimeout = 3 * 1000000000, ro_ReadTimeout = 2 * 1000000000, ro_WriteTimeout = 2 * 1000000000\<rparr> w of
        (client, w1) \<Rightarrow> (case redis_Ping P client w1 of (_, w2) \<Rightarrow> (client, w2)))"

section \<open>Kafka's clients\<close>

definition NewProducer :: "'w platform \<Rightarrow> string list \<Rightarrow> string \<Rightarrow> 'w \<Rightarrow> (go_error + handle \<times> Producer) \<times> 'w" where
  "NewProducer P brokers topic w =
     (case sarama_NewSyncProducer P brokers
             \<lparr>pcf_RequiredAcks = WaitForAll, pcf_RetryMax = 3, pcf_ReturnSuccesses = True\<rparr> w of
        (Inl err, w1) \<Rightarrow> (Inl (Errorf ''failed to create kafka producer'' err), w1)
      | (Inr producer, w1) \<Rightarrow> (Inr (producer, \<lparr>kp_topic = topic\<rparr>), w1))"

definition Producer_Close :: "'w platform \<Rightarrow> handle \<times> Producer \<Rightarrow> 'w \<Rightarrow> (go_error + unit) \<times> 'w" where
  "Producer_Close P p = producer_Close P (fst p)"

record 'w Consumer =
  cs_group :: handle
  cs_topic :: string
  cs_handler :: "string \<Rightarrow> json \<Rightarrow> 'w \<Rightarrow> (go_error + unit) \<times> 'w"

definition NewConsumer ::
    "'w platform \<Rightarrow> string list \<Rightarrow> string \<Rightarrow> string \<Rightarrow> (string \<Rightarrow> json \<Rightarrow> 'w \<Rightarrow> (go_error + unit) \<times> 'w) \<Rightarrow> 'w \<Rightarrow>
      (go_error + 'w Consumer) \<times> 'w" where
  "NewConsumer P brokers groupID topic handler w =
     (case sarama_NewConsumerGroup P brokers groupID
             \<lparr>gcf_GroupStrategies = [RoundRobin], gcf_OffsetsInitial = OffsetOldest\<rparr> w of
        (Inl err, w1) \<Rightarrow> (Inl (Errorf ''failed to create kafka consumer group'' err), w1)
      | (Inr grp, w1) \<Rightarrow> (Inr \<lparr>cs_group = grp, cs_topic = topic, cs_handler = handler\<rparr>, w1))"

definition Consumer_Close :: "'w platform \<Rightarrow> 'w Consumer \<Rightarrow> 'w \<Rightarrow> (go_error + unit) \<times> 'w" where
  "Consumer_Close P c = group_Close P (cs_group c)"

text \<open>\<^verbatim>\<open>Setup\<close> and \<^verbatim>\<open>Cleanup\<close> do nothing.\<close>

definition consumerGroupHandler :: "(string \<Rightarrow> json \<Rightarrow> 'w \<Rightarrow> (go_error + unit) \<times> 'w) \<Rightarrow> 'w group_handler" where
  "consumerGroupHandler handler =
     \<lparr>gh_Setup = (\<lambda>w. (Inr (), w)), gh_Cleanup = (\<lambda>w. (Inr (), w)), gh_ConsumeClaim = ConsumeClaim handler\<rparr>"

text \<open>A session of the consumer, and the loop of sessions, which ends when the context is cancelled, if ever.\<close>

definition consume_once :: "'w platform \<Rightarrow> 'w Consumer \<Rightarrow> 'w \<Rightarrow> 'w" where
  "consume_once P c w = snd (group_Consume P (cs_group c) [cs_topic c] (consumerGroupHandler (cs_handler c)) w)"

partial_function (option) Start :: "'w platform \<Rightarrow> 'w Consumer \<Rightarrow> 'w \<Rightarrow> 'w option" where
  "Start L c w =
     (let w1 = consume_once L c w in
      if ctx_cancelled L w1 then Some w1 else Start L c w1)"

section \<open>What is constructed\<close>

lemma NewPostgresWithReplicas_opened:
  assumes "NewPostgresWithReplicas P dsn dsns w = (Inr db, w')"
  shows "\<exists>w1. gorm_Open P dsn w = (Inr db, w1)"
  using assms by (auto simp: NewPostgresWithReplicas_def NewPostgres_def split: prod.splits sum.splits if_splits)

lemma NewConsumer_fields:
  "NewConsumer P brokers g t h w = (Inr c, w') \<Longrightarrow> cs_topic c = t \<and> cs_handler c = h"
  by (auto simp: NewConsumer_def split: prod.splits sum.splits)

section \<open>When the loop of a consumer ends\<close>

lemma Start_unfold: "Start P c w = (if ctx_cancelled P (consume_once P c w) then Some (consume_once P c w)
    else Start P c (consume_once P c w))"
  by (subst Start.simps) (simp add: Let_def)

text \<open>It ends with the first session after which the context is cancelled.\<close>

lemma Start_returns:
  "Start P c w = Some w' \<longleftrightarrow>
     (\<exists>n. w' = (consume_once P c ^^ Suc n) w \<and> ctx_cancelled P w'
       \<and> (\<forall>m<n. \<not> ctx_cancelled P ((consume_once P c ^^ Suc m) w)))"
  (is "_ \<longleftrightarrow> (\<exists>n. ?ends w n)")
proof
  let ?Q = "\<lambda>P c w w'. \<exists>n. w' = (consume_once P c ^^ Suc n) w \<and> ctx_cancelled P w'
    \<and> (\<forall>m<n. \<not> ctx_cancelled P ((consume_once P c ^^ Suc m) w))"
  show "?Q P c w w'" if "Start P c w = Some w'"
  proof (rule Start.raw_induct [OF _ that, where P = ?Q])
    fix rec P c w w'
    assume IH: "\<And>P c w w'. rec P c w = Some w' \<Longrightarrow> ?Q P c w w'"
      and step: "(let w1 = consume_once P c w in if ctx_cancelled P w1 then Some w1 else rec P c w1) = Some w'"
    show "?Q P c w w'"
    proof (cases "ctx_cancelled P (consume_once P c w)")
      case True
      then show ?thesis using step by (intro exI [of _ 0]) (simp add: Let_def)
    next
      case False
      then obtain n where n: "w' = (consume_once P c ^^ Suc n) (consume_once P c w)" "ctx_cancelled P w'"
        "\<forall>m<n. \<not> ctx_cancelled P ((consume_once P c ^^ Suc m) (consume_once P c w))"
        using IH [of P c "consume_once P c w" w'] step by (auto simp: Let_def)
      then show ?thesis using False
        by (intro exI [of _ "Suc n"]) (auto simp: funpow_swap1 less_Suc_eq_0_disj)
    qed
  qed
next
  assume "\<exists>n. ?ends w n"
  then obtain n where "?ends w n" ..
  then show "Start P c w = Some w'"
  proof (induction n arbitrary: w)
    case 0
    then have "w' = consume_once P c w" "ctx_cancelled P (consume_once P c w)" by auto
    then show ?case by (subst Start_unfold) simp
  next
    case (Suc n)
    have "\<not> ctx_cancelled P (consume_once P c w)" using Suc.prems by (auto dest: spec [of _ 0])
    moreover have "?ends (consume_once P c w) n" using Suc.prems by (auto simp: funpow_swap1)
    then have "Start P c (consume_once P c w) = Some w'" by (rule Suc.IH)
    ultimately show ?case by (subst Start_unfold) simp
  qed
qed

end
