(* ===== verification/Kafka_Consumer.thy ===== *)
theory Kafka_Consumer
  imports Platform "HOL-Library.Sublist"
begin

text \<open>
  What becomes of the messages of a topic. The locale \<open>consumer_group\<close> states what a consumer relies on
  of sarama, for a partition and a group of one member: a session hands the handler one claim, a stretch of the partition
  from the group's committed offset on, and commits no more than what has been marked; when it ends
  early, by an error or a rebalance, the rest is delivered again. \<open>handled_log\<close> says that what a handler
  is given can be observed.
\<close>

section \<open>The contracts\<close>

lemma stretch_split:
  "a \<le> b \<Longrightarrow> b \<le> c \<Longrightarrow> take (c - a) (drop a xs) = take (b - a) (drop a xs) @ take (c - b) (drop b xs)"
  by (auto simp: le_iff_add take_add ac_simps)

lemma prefix_take: "m \<le> k \<Longrightarrow> prefix (take m xs) (take k xs)"
  by (metis min.absorb1 take_is_prefix take_take)

locale consumer_group =
  fixes messages :: "'w \<Rightarrow> (string \<times> json) list"
    and committed :: "'w \<Rightarrow> nat"
    and given :: "'w \<Rightarrow> (string \<times> json) list"
    and P :: "'w platform" and grp :: handle and topic :: string
  assumes Consume_law: "group_Consume P grp [topic] gh w = (r, w') \<Longrightarrow>
      prefix (messages w) (messages w') \<and> (committed w \<le> length (messages w) \<longrightarrow> committed w' \<le> length (messages w')) \<and>
      (given w' = given w \<and> committed w' = committed w \<or>
       (\<exists>n w1 marked w2. gh_ConsumeClaim gh (take n (drop (committed w) (messages w'))) w1 = (marked, w2)
        \<and> given w1 = given w \<and> given w' = given w2
        \<and> committed w \<le> committed w' \<and> committed w' \<le> committed w + length marked))"

locale observed_consumer = consumer_group messages committed given P grp topic
  for messages :: "'w \<Rightarrow> (string \<times> json) list" and committed given P grp topic +
  fixes handler :: "string \<Rightarrow> json \<Rightarrow> 'w \<Rightarrow> (go_error + unit) \<times> 'w"
  assumes handler_law: "given (snd (handler key val w)) = given w @ [(key, val)]"
begin

abbreviation consumer :: "'w Consumer" where
  "consumer \<equiv> \<lparr>cs_group = grp, cs_topic = topic, cs_handler = handler\<rparr>"

lemma claim_given: "given (snd (ConsumeClaim handler msgs w)) = given w @ msgs"
proof (induction msgs arbitrary: w)
  case (Cons msg msgs)
  obtain r w1 where h: "handler (fst msg) (snd msg) w = (r, w1)" by fastforce
  then have "given w1 = given w @ [msg]" using handler_law [of "fst msg" "snd msg" w] by simp
  then show ?case using Cons.IH [of w1] h by (simp split: prod.split) (metis snd_conv)
qed simp

lemma session:
  "prefix (messages w) (messages (consume_once P consumer w)) \<and> committed w \<le> committed (consume_once P consumer w)
   \<and> (committed w \<le> length (messages w) \<longrightarrow> committed (consume_once P consumer w) \<le> length (messages (consume_once P consumer w)))
   \<and> (\<exists>n. given (consume_once P consumer w) = given w @ take n (drop (committed w) (messages (consume_once P consumer w)))
        \<and> committed (consume_once P consumer w) - committed w \<le> n)"
proof -
  obtain r w' where run: "group_Consume P grp [topic] (consumerGroupHandler handler) w = (r, w')" by fastforce
  then have w': "consume_once P consumer w = w'" by (simp add: consume_once_def)
  let ?claim = "\<lambda>n. take n (drop (committed w) (messages w'))"
  note law = Consume_law [OF run]
  show ?thesis
  proof (cases "given w' = given w \<and> committed w' = committed w")
    case True
    then show ?thesis using law w' by (intro conjI exI [of _ 0]) simp_all
  next
    case False
    with law obtain n w1 marked w2 where claim: "ConsumeClaim handler (?claim n) w1 = (marked, w2)" and
      rest: "given w1 = given w" "given w' = given w2" "committed w \<le> committed w'" "committed w' \<le> committed w + length marked"
      by (auto simp: consumerGroupHandler_def)
    have "marked = ?claim n" using ConsumeClaim_marks [of handler "?claim n" w1] claim by simp
    then have "committed w' - committed w \<le> n" using rest(4) by auto
    moreover have "given w' = given w @ ?claim n" using claim_given [of "?claim n" w1] claim rest by simp
    ultimately show ?thesis using law rest(3) w' by auto
  qed
qed

text \<open>The stretch of the partition that a number of sessions commit has been given, in its order.\<close>

lemma sessions:
  assumes "committed w \<le> length (messages w)"
  shows "\<exists>new. let w' = (consume_once P consumer ^^ n) w in
     prefix (messages w) (messages w') \<and> committed w \<le> committed w' \<and> given w' = given w @ new
     \<and> committed w' \<le> length (messages w')
     \<and> subseq (take (committed w' - committed w) (drop (committed w) (messages w'))) new"
proof (induction n)
  case 0
  show ?case using assms by (simp add: Let_def)
next
  case (Suc n)
  let ?v = "(consume_once P consumer ^^ n) w" and ?w = "consume_once P consumer ((consume_once P consumer ^^ n) w)"
  let ?seg = "\<lambda>a b xs. take (b - a) (drop a xs)"
  from Suc.IH obtain new where IH: "prefix (messages w) (messages ?v)" "committed w \<le> committed ?v" "given ?v = given w @ new"
    "committed ?v \<le> length (messages ?v)" "subseq (?seg (committed w) (committed ?v) (messages ?v)) new"
    unfolding Let_def by blast
  from session [of ?v] obtain k where k: "prefix (messages ?v) (messages ?w)" "committed ?v \<le> committed ?w"
    "committed ?w \<le> length (messages ?w)"
    "given ?w = given ?v @ take k (drop (committed ?v) (messages ?w))" "committed ?w - committed ?v \<le> k"
    using IH(4) by blast
  have same: "?seg (committed w) (committed ?v) (messages ?w) = ?seg (committed w) (committed ?v) (messages ?v)"
    using k(1) IH(4) by (auto simp: prefix_def)
  have split: "?seg (committed w) (committed ?w) (messages ?w)
      = ?seg (committed w) (committed ?v) (messages ?w) @ ?seg (committed ?v) (committed ?w) (messages ?w)"
    using IH(2) k(2) by (rule stretch_split)
  have "prefix (?seg (committed ?v) (committed ?w) (messages ?w)) (take k (drop (committed ?v) (messages ?w)))"
    using k(5) by (rule prefix_take)
  then have "subseq (?seg (committed w) (committed ?w) (messages ?w)) (new @ take k (drop (committed ?v) (messages ?w)))"
    unfolding split same by (intro list_emb_append_mono IH(5) prefix_imp_subseq)
  then have "\<exists>new. prefix (messages w) (messages ?w) \<and> committed w \<le> committed ?w \<and> given ?w = given w @ new
     \<and> committed ?w \<le> length (messages ?w) \<and> subseq (?seg (committed w) (committed ?w) (messages ?w)) new"
    using prefix_order.trans [OF IH(1) k(1)] le_trans [OF IH(2) k(2)] k(3,4) IH(3) by (metis append_assoc)
  then show ?case by (simp add: Let_def)
qed

end

section \<open>A partition in memory\<close>

text \<open>Libraries that succeed and do nothing.\<close>

definition ok_platform :: "'w platform" where
  "ok_platform =
     \<lparr>gorm_Open = (\<lambda>dsn w. (Inr 1, w)), gorm_DB = (\<lambda>db w. (Inr 2, w)), sql_SetMaxOpenConns = (\<lambda>h n w. w),
      sql_SetMaxIdleConns = (\<lambda>h n w. w), gorm_Use_replicas = (\<lambda>db dsns w. (Inr (), w)),
      gorm_AutoMigrate = (\<lambda>db models w. (Inr (), w)), redis_NewClient = (\<lambda>opts w. (3, w)), redis_Ping = (\<lambda>h w. (Inr (), w)),
      redis_Close = (\<lambda>h w. (Inr (), w)), sarama_NewSyncProducer = (\<lambda>brokers cfg w. (Inr 4, w)),
      producer_Close = (\<lambda>h w. (Inr (), w)), sarama_NewConsumerGroup = (\<lambda>brokers grp cfg w. (Inr 5, w)),
      group_Consume = (\<lambda>h topics gh w. (Inr (), w)), group_Close = (\<lambda>h w. (Inr (), w)),
      ctx_cancel = (\<lambda>w. w), ctx_cancelled = (\<lambda>w. True)\<rparr>"

text \<open>
  A session of the script: the messages that arrive, how many are claimed, how many of them are
  committed. The context is cancelled when the script ends.
\<close>

record mem_topic =
  mt_log :: "(string \<times> json) list"
  mt_committed :: nat
  mt_given :: "(string \<times> json) list"
  mt_sessions :: "((string \<times> json) list \<times> nat \<times> nat) list"

definition mem_Consume :: "mem_topic group_handler \<Rightarrow> mem_topic \<Rightarrow> (go_error + unit) \<times> mem_topic" where
  "mem_Consume gh w =
     (case mt_sessions w of
        [] \<Rightarrow> (Inl (ErrExternal ''context canceled''), w)
      | (arriving, n, m) # ss \<Rightarrow>
          (let claim = take n (drop (mt_committed w) (mt_log w @ arriving)) in
           case gh_ConsumeClaim gh claim w of
             (marked, w2) \<Rightarrow>
               (if m < length claim then Inl (ErrExternal ''rebalance'') else Inr (),
                w2\<lparr>mt_log := mt_log w @ arriving, mt_committed := mt_committed w + min m (min (length claim) (length marked)),
                   mt_sessions := ss\<rparr>)))"

definition mem_kafka :: "mem_topic platform" where
  "mem_kafka = ok_platform\<lparr>group_Consume := (\<lambda>h topics. mem_Consume), ctx_cancelled := (\<lambda>w. mt_sessions w = [])\<rparr>"

text \<open>A handler that takes every message, and fails on each.\<close>

definition mem_handler :: "string \<Rightarrow> json \<Rightarrow> mem_topic \<Rightarrow> (go_error + unit) \<times> mem_topic" where
  "mem_handler key val w = (Inl (ErrExternal ''refused''), w\<lparr>mt_given := mt_given w @ [(key, val)]\<rparr>)"

lemma mem_kafka_simps [simp]:
  "group_Consume mem_kafka h topics = mem_Consume" "ctx_cancelled mem_kafka w \<longleftrightarrow> mt_sessions w = []"
  by (simp_all add: mem_kafka_def)

lemma mem_consumer: "observed_consumer mt_log mt_committed mt_given mem_kafka grp topic mem_handler"
proof unfold_locales
  fix gh w r w'
  assume run: "group_Consume mem_kafka grp [topic] gh w = (r, w')"
  show "prefix (mt_log w) (mt_log w') \<and> (mt_committed w \<le> length (mt_log w) \<longrightarrow> mt_committed w' \<le> length (mt_log w')) \<and>
    (mt_given w' = mt_given w \<and> mt_committed w' = mt_committed w \<or>
     (\<exists>n w1 marked w2. gh_ConsumeClaim gh (take n (drop (mt_committed w) (mt_log w'))) w1 = (marked, w2)
      \<and> mt_given w1 = mt_given w \<and> mt_given w' = mt_given w2
      \<and> mt_committed w \<le> mt_committed w' \<and> mt_committed w' \<le> mt_committed w + length marked))"
  proof (cases "mt_sessions w")
    case Nil
    then show ?thesis using run by (simp add: mem_Consume_def)
  next
    case (Cons x ss)
    obtain arriving n m where x: "x = (arriving, n, m)" by (cases x)
    let ?claim = "take n (drop (mt_committed w) (mt_log w @ arriving))"
    obtain marked w2 where claim: "gh_ConsumeClaim gh ?claim w = (marked, w2)" by fastforce
    have "w' = w2\<lparr>mt_log := mt_log w @ arriving,
        mt_committed := mt_committed w + min m (min (length ?claim) (length marked)), mt_sessions := ss\<rparr>"
      using run unfolding mem_kafka_simps mem_Consume_def Cons x list.case prod.case Let_def claim prod.inject by (elim conjE) (rule sym)
    then have w': "mt_log w' = mt_log w @ arriving" "mt_given w' = mt_given w2"
      "mt_committed w' = mt_committed w + min m (min (length ?claim) (length marked))" by simp_all
    have bounds: "mt_committed w' \<le> mt_committed w + length ?claim" "mt_committed w' \<le> mt_committed w + length marked"
      "mt_committed w \<le> mt_committed w'" unfolding w'(3) by linarith+
    have claimed: "gh_ConsumeClaim gh (take n (drop (mt_committed w) (mt_log w'))) w = (marked, w2)"
      using claim by (simp only: w'(1))
    have "mt_committed w + length ?claim \<le> length (mt_log w')" if "mt_committed w \<le> length (mt_log w)"
      using that by (simp add: w'(1))
    then have "mt_committed w \<le> length (mt_log w) \<longrightarrow> mt_committed w' \<le> length (mt_log w')"
      using bounds(1) by linarith
    moreover have "prefix (mt_log w) (mt_log w')" by (simp add: w'(1))
    ultimately show ?thesis using claimed w'(2) bounds(2,3) by metis
  qed
next
  show "mt_given (snd (mem_handler key val w)) = mt_given w @ [(key, val)]" for key val w
    by (simp add: mem_handler_def)
qed

interpretation mem_topic: observed_consumer mt_log mt_committed mt_given mem_kafka grp topic mem_handler for grp topic
  by (rule mem_consumer)

section \<open>Properties\<close>


text \<open>C37: the loop of a consumer ends when its context is cancelled, and only then. It returns exactly if
  after some session the context is cancelled; an error of a session does not end it.\<close>

theorem consumer_stops_with_its_context:
  "(\<exists>w'. Start P c w = Some w') \<longleftrightarrow> (\<exists>n. ctx_cancelled P ((consume_once P c ^^ Suc n) w))"
proof
  assume "\<exists>n. ctx_cancelled P ((consume_once P c ^^ Suc n) w)"
  then obtain n where "ctx_cancelled P ((consume_once P c ^^ Suc n) w)"
    "\<forall>m<n. \<not> ctx_cancelled P ((consume_once P c ^^ Suc m) w)"
    using exists_least_iff [of "\<lambda>n. ctx_cancelled P ((consume_once P c ^^ Suc n) w)"] by blast
  then show "\<exists>w'. Start P c w = Some w'" unfolding Start_returns by blast
qed (auto simp: Start_returns)

section \<open>A broken session\<close>

text \<open>Two messages arrive; the first session commits one of them, and the second is given again.\<close>

definition demo_topic :: mem_topic where
  "demo_topic = \<lparr>mt_log = [], mt_committed = 0, mt_given = [],
     mt_sessions = [([(''7'', JStr ''a''), (''8'', JStr ''b'')], 2, 1), ([], 2, 2)]\<rparr>"


end
