(* ===== verification/Http.thy ===== *)
theory Http
  imports Models
begin

text \<open>
  The HTTP layer the handlers share: \<^verbatim>\<open>pkg/response\<close>, the middleware of
  \<^verbatim>\<open>internal/middleware\<close>, and what the handlers use of gin and \<^verbatim>\<open>strconv\<close>. A handler
  returns its answer, a status and a body. \<^verbatim>\<open>ShouldBindJSON\<close> decodes the body, which the
  handlers get as a decoding result, and validates the \<^verbatim>\<open>binding\<close> tags, a predicate per
  request type; the validator's text is not modelled. The JWT library is a parameter.
\<close>

section \<open>response.go\<close>

record 'd Response =
  res_Code :: int
  res_Message :: string
  res_Data :: "'d option"

type_synonym 'd answer = "int \<times> 'd Response"

definition Success :: "'d option \<Rightarrow> 'd answer" where
  "Success data = (200, \<lparr>res_Code = 200, res_Message = ''success'', res_Data = data\<rparr>)"

definition Error_response :: "int \<Rightarrow> string \<Rightarrow> 'd answer" where
  "Error_response httpStatus message = (httpStatus, \<lparr>res_Code = httpStatus, res_Message = message, res_Data = None\<rparr>)"

definition BadRequest :: "string \<Rightarrow> 'd answer" where "BadRequest message = Error_response 400 message"
definition Unauthorized :: "string \<Rightarrow> 'd answer" where "Unauthorized message = Error_response 401 message"
definition Forbidden :: "string \<Rightarrow> 'd answer" where "Forbidden message = Error_response 403 message"
definition NotFound :: "string \<Rightarrow> 'd answer" where "NotFound message = Error_response 404 message"
definition InternalServerError :: "string \<Rightarrow> 'd answer" where "InternalServerError message = Error_response 500 message"

abbreviation "StatusConflict \<equiv> 409 :: int"

record 'i PaginatedData =
  pg_Items :: "'i list"
  pg_Total :: int
  pg_Page :: int
  pg_PageSize :: int

definition SuccessPaginated :: "'i list \<Rightarrow> int \<Rightarrow> int \<Rightarrow> int \<Rightarrow> 'i PaginatedData answer" where
  "SuccessPaginated items count page pageSize =
     Success (Some \<lparr>pg_Items = items, pg_Total = count, pg_Page = page, pg_PageSize = pageSize\<rparr>)"

lemmas response_defs = Success_def Error_response_def BadRequest_def Unauthorized_def Forbidden_def NotFound_def
  InternalServerError_def SuccessPaginated_def

section \<open>Requests\<close>

text \<open>The keys the middleware sets; a role that is missing in the claims is set to nil.\<close>

record context_keys =
  ctx_user_id :: "nat option"
  ctx_username :: "json option option"
  ctx_role :: "json option option"

definition no_keys :: context_keys where
  "no_keys = \<lparr>ctx_user_id = None, ctx_username = None, ctx_role = None\<rparr>"

definition ShouldBindJSON :: "('r \<Rightarrow> bool) \<Rightarrow> go_error + 'r \<Rightarrow> go_error + 'r" where
  "ShouldBindJSON valid body =
     (case body of Inl err \<Rightarrow> Inl err
      | Inr req \<Rightarrow> if valid req then Inr req else Inl (ErrExternal ''validation failed''))"

definition DefaultQuery :: "(string \<Rightarrow> string option) \<Rightarrow> string \<Rightarrow> string \<Rightarrow> string" where
  "DefaultQuery query key defaultValue = (case query key of None \<Rightarrow> defaultValue | Some v \<Rightarrow> v)"

text \<open>\<^verbatim>\<open>n, _ := strconv.Atoi(s)\<close>: 0 for what is no number, the nearest \<^verbatim>\<open>int\<close> for one out of range.\<close>

definition Atoi_value :: "string \<Rightarrow> int" where
  "Atoi_value s =
     (let (neg, ds) = (case s of [] \<Rightarrow> (False, [])
                       | c # cs \<Rightarrow> if c = CHR ''-'' then (True, cs) else if c = CHR ''+'' then (False, cs) else (False, s)) in
      if ds = [] \<or> \<not> list_all is_digit ds then 0
      else max (- (2 ^ 63)) (min (2 ^ 63 - 1) (if neg then - int (read_digits ds) else int (read_digits ds))))"

text \<open>\<^verbatim>\<open>strconv.ParseUint(s, 10, 64)\<close>.\<close>

definition ParseUint :: "string \<Rightarrow> go_error + nat" where
  "ParseUint s =
     (if s = [] \<or> \<not> list_all is_digit s then Inl (ErrExternal (''strconv.ParseUint: parsing '' @ s @ '': invalid syntax''))
      else if read_digits s \<ge> 2 ^ 64 then Inl (ErrExternal (''strconv.ParseUint: parsing '' @ s @ '': value out of range''))
      else Inr (read_digits s))"

text \<open>The page parameters, the same code in the two listing handlers.\<close>

definition page_of :: "(string \<Rightarrow> string option) \<Rightarrow> int" where
  "page_of query = (let page = Atoi_value (DefaultQuery query ''page'' ''1'') in if page < 1 then 1 else page)"

definition page_size_of :: "(string \<Rightarrow> string option) \<Rightarrow> int" where
  "page_size_of query =
     (let pageSize = Atoi_value (DefaultQuery query ''page_size'' ''10'') in
      if pageSize < 1 \<or> pageSize > 100 then 10 else pageSize)"

lemma page_ranges: "1 \<le> page_of query" "page_of query < 2 ^ 63" "1 \<le> page_size_of query" "page_size_of query \<le> 100"
  by (auto simp: page_of_def page_size_of_def Atoi_value_def Let_def split: list.splits)

section \<open>auth.go\<close>

text \<open>
  A parsed token: whether the library found it valid, and its claims when they are a map.
  \<open>jwt_Parse\<close> calls its key function with whether the token's method is HMAC and with its
  \<^verbatim>\<open>alg\<close> header.
\<close>

record jwt_Token =
  tok_Valid :: bool
  tok_Claims :: "(string \<Rightarrow> json option) option"

type_synonym key_function = "bool \<Rightarrow> string \<Rightarrow> go_error + string"
type_synonym jwt_parser = "key_function \<Rightarrow> string \<Rightarrow> go_error + jwt_Token"

definition key_function_for :: "string \<Rightarrow> key_function" where
  "key_function_for secret hmac alg =
     (if \<not> hmac then Inl (ErrExternal (''unexpected signing method: '' @ alg)) else Inr secret)"

text \<open>\<^verbatim>\<open>strings.SplitN(s, " ", 2)\<close>.\<close>

definition split_once :: "string \<Rightarrow> string list" where
  "split_once s =
     (case dropWhile (\<lambda>c. c \<noteq> CHR '' '') s of [] \<Rightarrow> [s]
      | _ # rest \<Rightarrow> [takeWhile (\<lambda>c. c \<noteq> CHR '' '') s, rest])"

text \<open>
  A float converted to an integer type: truncated, when the type holds the result; otherwise the
  language leaves the value to the implementation, the argument \<open>impl\<close>.
\<close>

definition f64_trunc :: "float64 \<Rightarrow> int" where
  "f64_trunc b =
     (let mag = (if 0 \<le> f64_ulp b then f64_sig b * 2 ^ nat (f64_ulp b) else f64_sig b div 2 ^ nat (- f64_ulp b)) in
      if f64_neg b then - int mag else int mag)"

definition uint_of_float :: "(float64 \<Rightarrow> nat) \<Rightarrow> float64 \<Rightarrow> nat" where
  "uint_of_float impl b =
     (if f64_is_finite b \<and> 0 \<le> f64_trunc b \<and> f64_trunc b < 2 ^ 64 then nat (f64_trunc b) else impl b)"

definition int16_of_float :: "(float64 \<Rightarrow> int) \<Rightarrow> float64 \<Rightarrow> int" where
  "int16_of_float impl b =
     (if f64_is_finite b \<and> - (2 ^ 15) \<le> f64_trunc b \<and> f64_trunc b < 2 ^ 15 then f64_trunc b else impl b)"

text \<open>The middleware: an answer that aborts the request, or the keys for the handlers that follow.\<close>

definition JWTAuth :: "jwt_parser \<Rightarrow> (float64 \<Rightarrow> nat) \<Rightarrow> string \<Rightarrow> string \<Rightarrow> unit answer + context_keys" where
  "JWTAuth jwt_Parse impl secret authHeader =
     (if authHeader = '''' then Inl (Unauthorized ''missing authorization header'')
      else
        (let parts = split_once authHeader in
         if length parts \<noteq> 2 \<or> parts ! 0 \<noteq> ''Bearer''
         then Inl (Unauthorized ''invalid authorization format, use: Bearer <token>'')
         else
           (case jwt_Parse (key_function_for secret) (parts ! 1) of
              Inl err \<Rightarrow> Inl (Unauthorized ''invalid or expired token'')
            | Inr token \<Rightarrow>
                (if \<not> tok_Valid token then Inl (Unauthorized ''invalid or expired token'')
                 else
                   (case tok_Claims token of
                      None \<Rightarrow> Inl (Unauthorized ''invalid token claims'')
                    | Some claims \<Rightarrow>
                        (case claims ''user_id'' of
                           Some (JFloat userID) \<Rightarrow>
                             Inr \<lparr>ctx_user_id = Some (uint_of_float impl userID),
                                  ctx_username = Some (claims ''username''), ctx_role = Some (claims ''role'')\<rparr>
                         | _ \<Rightarrow> Inl (Unauthorized ''invalid user_id in token'')))))))"

definition AdminRequired :: "(float64 \<Rightarrow> int) \<Rightarrow> context_keys \<Rightarrow> unit answer + context_keys" where
  "AdminRequired impl c =
     (case ctx_role c of
        None \<Rightarrow> Inl (Forbidden ''access denied'')
      | Some role \<Rightarrow>
          (case role of
             Some (JFloat roleVal) \<Rightarrow>
               (if int16_of_float impl roleVal \<noteq> 1 then Inl (Forbidden ''admin access required'') else Inr c)
           | _ \<Rightarrow> Inl (Forbidden ''admin access required'')))"

section \<open>Small integers are floats\<close>

lemma bitlen_bounds:
  assumes "0 < m"
  shows "2 ^ (bitlen m - 1) \<le> m" "m < 2 ^ bitlen m" "0 < bitlen m"
proof -
  have "bitlen m \<noteq> 0" using assms by (subst bitlen.simps) simp
  then show pos: "0 < bitlen m" by simp
  show "m < 2 ^ bitlen m"
    using bitlen_ge [of "bitlen m" m] by (cases "2 ^ bitlen m \<le> m") auto
  show "2 ^ (bitlen m - 1) \<le> m"
    using bitlen_le [of m "bitlen m - 1"] pos by (cases "m < 2 ^ (bitlen m - 1)") auto
qed

lemma add_times_mod_div:
  fixes f c K :: nat
  assumes "f < K"
  shows "(f + c * K) mod K = f" "(f + c * K) div K = c"
  using assms by simp_all

lemma sign_bit_aside:
  fixes b K :: nat
  assumes "0 < K"
  shows "(2048 * K + b) mod K = b mod K" "(2048 * K + b) div K mod 2048 = b div K mod 2048"
  using assms by simp_all

text \<open>The fields of the float of a positive integer below \<open>2\<^sup>5\<^sup>3\<close>.\<close>

lemma f64_of_int_fields:
  assumes "0 < m" "m < 2 ^ 53"
  shows "f64_exp (f64_round s m 0) = bitlen m + 1022"
    "f64_frac (f64_round s m 0) = m * 2 ^ (53 - bitlen m) - 2 ^ 52" "f64_neg (f64_round s m 0) = s"
proof -
  let ?l = "bitlen m" let ?m = "m * 2 ^ (53 - ?l)" let ?b = "(?l + 1021) * 2 ^ 52 + ?m"
  have l: "0 < ?l" "?l \<le> 53" using bitlen_bounds [OF assms(1)] bitlen_le [OF assms(2)] by simp_all
  have low: "2 ^ 52 \<le> ?m"
  proof -
    have "(2::nat) ^ 52 = 2 ^ (?l - 1) * 2 ^ (53 - ?l)" using l by (simp flip: power_add)
    also have "\<dots> \<le> ?m" by (rule mult_right_mono [OF bitlen_bounds(1) [OF assms(1)]]) simp
    finally show ?thesis .
  qed
  have high: "?m < 2 ^ 53"
  proof -
    have "?m < 2 ^ ?l * 2 ^ (53 - ?l)" using bitlen_bounds(2) [OF assms(1)] by simp
    also have "\<dots> = 2 ^ 53" using l by (simp flip: power_add)
    finally show ?thesis .
  qed
  have "nat (int ?l - 53 + 1074) = ?l + 1021" "nat (0 - (int ?l - 53)) = 53 - ?l" using l by simp_all
  moreover have "?b < 2047 * 2 ^ 52" using high l(2) by simp
  ultimately have r: "f64_round s m 0 = of_nat ((if s then 2 ^ 63 else 0) + ?b)"
    using assms(1) l by (simp add: f64_round_def Let_def)
  have b: "?b < 2 ^ 63" using high l(2) by simp
  have un: "unat (f64_round s m 0) = (if s then 2 ^ 63 else 0) + ?b"
    unfolding r unsigned_of_nat of_nat_id by (rule take_bit_nat_eq_self) (use b in auto)
  have frac: "?b mod 2 ^ 52 = ?m - 2 ^ 52" "?b div 2 ^ 52 = ?l + 1022"
  proof -
    have "?b = (?m - 2 ^ 52) + (?l + 1022) * 2 ^ 52" "?m - 2 ^ 52 < 2 ^ 52" using low high by simp_all
    then show "?b mod 2 ^ 52 = ?m - 2 ^ 52" "?b div 2 ^ 52 = ?l + 1022"
      by (simp_all only: add_times_mod_div)
  qed
  show "f64_neg (f64_round s m 0) = s" using b by (simp add: f64_neg_def un)
  have s: "((if s then 2 ^ 63 else 0) + ?b) mod 2 ^ 52 = ?b mod 2 ^ 52"
    "((if s then 2 ^ 63 else 0) + ?b) div 2 ^ 52 mod 2 ^ 11 = ?b div 2 ^ 52 mod 2 ^ 11"
  proof -
    have top: "(2::nat) ^ 63 = 2048 * 2 ^ 52" "(2::nat) ^ 11 = 2048" by simp_all
    show "((if s then 2 ^ 63 else 0) + ?b) mod 2 ^ 52 = ?b mod 2 ^ 52"
      "((if s then 2 ^ 63 else 0) + ?b) div 2 ^ 52 mod 2 ^ 11 = ?b div 2 ^ 52 mod 2 ^ 11"
      unfolding top using sign_bit_aside [of "2 ^ 52" ?b, OF zero_less_power [OF zero_less_numeral]] by (cases s; simp only: if_True if_False add_0)+
  qed
  show "f64_frac (f64_round s m 0) = ?m - 2 ^ 52"
    unfolding f64_frac_def un s(1) frac ..
  have "?l + 1022 < 2 ^ 11" using l(2) by simp
  then show "f64_exp (f64_round s m 0) = ?l + 1022"
    unfolding f64_exp_def un s(2) frac by simp
qed

lemma f64_trunc_of_int:
  assumes "\<bar>i\<bar> < 2 ^ 53"
  shows "f64_is_finite (f64_of_int i)" "f64_trunc (f64_of_int i) = i"
proof -
  have "f64_is_finite (f64_of_int i) \<and> f64_trunc (f64_of_int i) = i"
  proof (cases "i = 0")
    case True
    then show ?thesis
      by (simp add: f64_of_int_def f64_round_def f64_is_finite_def f64_exp_def f64_trunc_def f64_sig_def f64_frac_def
          f64_ulp_def f64_neg_def Let_def)
  next
    case False
    define m where "m = nat \<bar>i\<bar>"
    let ?l = "bitlen m" let ?s = "m * 2 ^ (53 - ?l)"
    have m: "0 < m" "m < 2 ^ 53" using False assms by (simp_all add: nat_less_iff m_def)
    have i: "f64_of_int i = f64_round (i < 0) m 0" "(if i < 0 then - int m else int m) = i"
      by (simp_all add: f64_of_int_def m_def)
    note fields = f64_of_int_fields [OF m, of "i < 0"]
    have l: "0 < ?l" "?l \<le> 53" using bitlen_bounds [OF m(1)] bitlen_le [OF m(2)] by simp_all
    have "(2::nat) ^ 52 = 2 ^ (?l - 1) * 2 ^ (53 - ?l)" using l by (simp flip: power_add)
    also have "\<dots> \<le> ?s" by (rule mult_right_mono [OF bitlen_bounds(1) [OF m(1)]]) simp
    finally have low: "2 ^ 52 \<le> ?s" .
    have sig: "f64_sig (f64_of_int i) = ?s" using low by (simp add: f64_sig_def i(1) fields)
    have ulp: "f64_ulp (f64_of_int i) = int ?l - 53" by (simp add: f64_ulp_def i(1) fields)
    have "f64_is_finite (f64_of_int i)" using l by (simp add: f64_is_finite_def i(1) fields)
    moreover have "f64_trunc (f64_of_int i) = (if i < 0 then - int m else int m)"
    proof (cases "?l = 53")
      case True
      then show ?thesis unfolding f64_trunc_def sig ulp Let_def by (simp add: i(1) fields [unfolded True])
    next
      case less: False
      have neg: "f64_neg (f64_of_int i) = (i < 0)" by (simp add: i(1) fields)
      from less have "nat (- (int ?l - 53)) = 53 - ?l" "\<not> 0 \<le> int ?l - 53" using l by simp_all
      then show ?thesis unfolding f64_trunc_def sig ulp Let_def neg by simp
    qed
    ultimately show ?thesis using i(2) by simp
  qed
  then show "f64_is_finite (f64_of_int i)" "f64_trunc (f64_of_int i) = i" by simp_all
qed

lemma uint_of_float_of_int: "n < 2 ^ 53 \<Longrightarrow> uint_of_float impl (f64_of_int (int n)) = n"
  using f64_trunc_of_int [of "int n"] by (simp add: uint_of_float_def)

lemma int16_of_float_of_int: "- (2 ^ 15) \<le> i \<Longrightarrow> i < 2 ^ 15 \<Longrightarrow> int16_of_float impl (f64_of_int i) = i"
  using f64_trunc_of_int [of i] by (simp add: int16_of_float_def)

end
