(* ===== verification/Handlers.thy ===== *)
theory Handlers
  imports Http Order
begin

text \<open>
  The HTTP handlers of orders, flash sales, inventories and products: what they check before they
  call the service, and the status and body they make of its result. A handler gets the keys the
  middleware set, the query and path parameters it reads and the decoding of the body.
\<close>

section \<open>Request bodies\<close>

text \<open>The \<^verbatim>\<open>binding\<close> tags: \<^verbatim>\<open>required\<close> refuses a zero value.\<close>

definition valid_CreateOrderRequest :: "CreateOrderRequest \<Rightarrow> bool" where
  "valid_CreateOrderRequest req \<longleftrightarrow> cor_ProductID req \<noteq> 0 \<and> cor_Quantity req \<noteq> 0 \<and> 1 \<le> cor_Quantity req"

definition valid_SetInventoryRequest :: "SetInventoryRequest \<Rightarrow> bool" where
  "valid_SetInventoryRequest req \<longleftrightarrow> sir_Total req \<noteq> 0 \<and> 0 \<le> sir_Total req"

record DeductRequest =
  dr_Quantity :: int

definition valid_DeductRequest :: "DeductRequest \<Rightarrow> bool" where
  "valid_DeductRequest req \<longleftrightarrow> dr_Quantity req \<noteq> 0 \<and> 0 < dr_Quantity req"

definition valid_CreateProductRequest :: "CreateProductRequest \<Rightarrow> bool" where
  "valid_CreateProductRequest req \<longleftrightarrow>
     cpr_Name req \<noteq> '''' \<and> \<not> f64_eq (cpr_Price req) f64_zero \<and> f64_lt f64_zero (cpr_Price req)"

definition valid_UpdateProductRequest :: "UpdateProductRequest \<Rightarrow> bool" where
  "valid_UpdateProductRequest req \<longleftrightarrow> f64_eq (upr_Price req) f64_zero \<or> f64_lt f64_zero (upr_Price req)"

section \<open>internal/order/handler.go\<close>

definition OrderHandler_CreateOrder ::
    "'w ext \<Rightarrow> Node \<Rightarrow> context_keys \<Rightarrow> go_error + CreateOrderRequest \<Rightarrow> 'w \<Rightarrow> (Order answer \<times> Node \<times> 'w) option" where
  "OrderHandler_CreateOrder X node c body w =
     (case ctx_user_id c of
        None \<Rightarrow> Some (Unauthorized ''unauthorized'', node, w)
      | Some userID \<Rightarrow>
          (case ShouldBindJSON valid_CreateOrderRequest body of
             Inl err \<Rightarrow> Some (BadRequest (error_text err), node, w)
           | Inr req \<Rightarrow>
               (case CreateOrder X node userID req w of
                  None \<Rightarrow> None
                | Some (Inl err, node1, w1) \<Rightarrow>
                    Some (if errors_is err ErrProductNotFound then NotFound (error_text err)
                          else if errors_is err ErrProductOffSale then Error_response StatusConflict (error_text err)
                          else if errors_is err ErrDuplicateOrder then Error_response StatusConflict (error_text err)
                          else if errors_is err ErrStockInsufficient then Error_response StatusConflict (error_text err)
                          else InternalServerError ''failed to create order'', node1, w1)
                | Some (Inr od, node1, w1) \<Rightarrow> Some (Success (Some od), node1, w1))))"

definition OrderHandler_ListOrders ::
    "('w, Order) table_api \<Rightarrow> context_keys \<Rightarrow> (string \<Rightarrow> string option) \<Rightarrow> 'w \<Rightarrow> Order PaginatedData answer \<times> 'w" where
  "OrderHandler_ListOrders db c query w =
     (case ctx_user_id c of
        None \<Rightarrow> (Unauthorized ''unauthorized'', w)
      | Some userID \<Rightarrow>
          (let page = page_of query; pageSize = page_size_of query in
           case ListOrderByUser db userID page pageSize w of
             (Inl err, w1) \<Rightarrow> (InternalServerError ''failed to list orders'', w1)
           | (Inr (orders, rows), w1) \<Rightarrow> (SuccessPaginated orders rows page pageSize, w1)))"

definition OrderHandler_GetOrderByID ::
    "('w, Order) table_api \<Rightarrow> context_keys \<Rightarrow> string \<Rightarrow> 'w \<Rightarrow> Order answer \<times> 'w" where
  "OrderHandler_GetOrderByID db c param w =
     (case ctx_user_id c of
        None \<Rightarrow> (Unauthorized ''unauthorized'', w)
      | Some userID \<Rightarrow>
          (case ParseUint param of
             Inl err \<Rightarrow> (BadRequest ''invalid order id'', w)
           | Inr orderID \<Rightarrow>
               (case GetOrderByID db userID orderID w of
                  (Inl err, w1) \<Rightarrow>
                    (if errors_is err ErrOrderNotFound then NotFound (error_text err)
                     else if errors_is err ErrNotOrderOwner then Forbidden (error_text err)
                     else InternalServerError ''failed to get order'', w1)
                | (Inr od, w1) \<Rightarrow> (Success (Some od), w1))))"

definition OrderHandler_CancelOrder :: "'w ext \<Rightarrow> context_keys \<Rightarrow> string \<Rightarrow> 'w \<Rightarrow> Order answer \<times> 'w" where
  "OrderHandler_CancelOrder X c param w =
     (case ctx_user_id c of
        None \<Rightarrow> (Unauthorized ''unauthorized'', w)
      | Some userID \<Rightarrow>
          (case ParseUint param of
             Inl err \<Rightarrow> (BadRequest ''invalid order id'', w)
           | Inr orderID \<Rightarrow>
               (case CancelOrder X userID orderID w of
                  (Inl err, w1) \<Rightarrow>
                    (if errors_is err ErrOrderNotFound then NotFound (error_text err)
                     else if errors_is err ErrNotOrderOwner then Forbidden (error_text err)
                     else if errors_is err ErrOrderNotPending then Error_response StatusConflict (error_text err)
                     else InternalServerError ''failed to cancel order'', w1)
                | (Inr od, w1) \<Rightarrow> (Success (Some od), w1))))"

section \<open>internal/order/seckill\_handler.go\<close>

text \<open>A body made with \<^verbatim>\<open>gin.H\<close>, as its members.\<close>

type_synonym gin_H = "(string \<times> bytes) list"

definition SeckillHandler_Seckill ::
    "'w ext \<Rightarrow> Node \<Rightarrow> context_keys \<Rightarrow> go_error + CreateOrderRequest \<Rightarrow> 'w \<Rightarrow> (gin_H answer \<times> Node \<times> 'w) option" where
  "SeckillHandler_Seckill X node c body w =
     (case ctx_user_id c of
        None \<Rightarrow> Some (Unauthorized ''unauthorized'', node, w)
      | Some userID \<Rightarrow>
          (case ShouldBindJSON valid_CreateOrderRequest body of
             Inl err \<Rightarrow> Some (BadRequest (error_text err), node, w)
           | Inr req \<Rightarrow>
               (case Seckill X node userID req w of
                  None \<Rightarrow> None
                | Some (Inl err, node1, w1) \<Rightarrow>
                    Some (if errors_is err ErrDuplicateOrder then Error_response StatusConflict (error_text err)
                          else if errors_is err ErrProductNotFound then NotFound (error_text err)
                          else if errors_is err ErrProductOffSale \<or> errors_is err ErrStockInsufficient
                            then Error_response StatusConflict (error_text err)
                          else InternalServerError ''failed to process seckill'', node1, w1)
                | Some (Inr orderNo, node1, w1) \<Rightarrow>
                    Some (Success (Some [(''order_no'', Text orderNo), (''message'', Text ''order is being processed'')]),
                          node1, w1))))"

definition SeckillHandler_GetResult :: "'w ext \<Rightarrow> (string \<Rightarrow> string option) \<Rightarrow> 'w \<Rightarrow> gin_H answer \<times> 'w" where
  "SeckillHandler_GetResult X query w =
     (let orderNo = (case query ''order_no'' of None \<Rightarrow> '''' | Some v \<Rightarrow> v) in
      if orderNo = '''' then (BadRequest ''order_no is required'', w)
      else
        (case GetSeckillResult X orderNo w of
           (Inl err, w1) \<Rightarrow> (InternalServerError ''failed to get result'', w1)
         | (Inr status, w1) \<Rightarrow> (Success (Some [(''order_no'', Text orderNo), (''status'', status)]), w1)))"

section \<open>internal/inventory/handler.go\<close>

definition InventoryHandler_Get :: "('w, Inventory) table_api \<Rightarrow> string \<Rightarrow> 'w \<Rightarrow> Inventory answer \<times> 'w" where
  "InventoryHandler_Get db param w =
     (case ParseUint param of
        Inl err \<Rightarrow> (BadRequest ''invalid product id'', w)
      | Inr productID \<Rightarrow>
          (case InventoryService_GetByProductID db productID w of
             (Inl err, w1) \<Rightarrow>
               (if errors_is err InvErrInventoryNotFound then NotFound (error_text err)
                else InternalServerError ''failed to get inventory'', w1)
           | (Inr invt, w1) \<Rightarrow> (Success (Some invt), w1)))"

definition InventoryHandler_Set ::
    "('w, Inventory) table_api \<Rightarrow> string \<Rightarrow> go_error + SetInventoryRequest \<Rightarrow> 'w \<Rightarrow> Inventory answer \<times> 'w" where
  "InventoryHandler_Set db param body w =
     (case ParseUint param of
        Inl err \<Rightarrow> (BadRequest ''invalid product id'', w)
      | Inr productID \<Rightarrow>
          (case ShouldBindJSON valid_SetInventoryRequest body of
             Inl err \<Rightarrow> (BadRequest (error_text err), w)
           | Inr req \<Rightarrow>
               (case SetInventory db productID req w of
                  (Inl err, w1) \<Rightarrow> (InternalServerError ''failed to set inventory'', w1)
                | (Inr invt, w1) \<Rightarrow> (Success (Some invt), w1))))"

definition InventoryHandler_Deduct ::
    "('w, Inventory) table_api \<Rightarrow> string \<Rightarrow> go_error + DeductRequest \<Rightarrow> 'w \<Rightarrow> unit answer \<times> 'w" where
  "InventoryHandler_Deduct db param body w =
     (case ParseUint param of
        Inl err \<Rightarrow> (BadRequest ''invalid product id'', w)
      | Inr productID \<Rightarrow>
          (case ShouldBindJSON valid_DeductRequest body of
             Inl err \<Rightarrow> (BadRequest (error_text err), w)
           | Inr req \<Rightarrow>
               (case Deduct db productID (dr_Quantity req) w of
                  (Inl err, w1) \<Rightarrow>
                    (if errors_is err InvErrInventoryNotFound then NotFound (error_text err)
                     else if errors_is err InvErrStockInsufficient then Error_response StatusConflict (error_text err)
                     else InternalServerError ''failed to deduct inventory'', w1)
                | (Inr _, w1) \<Rightarrow> (Success None, w1))))"

section \<open>internal/product/handler.go\<close>

record ProductDetailResponse =
  pdr_Product :: Product
  pdr_Inventory :: "Inventory option"

definition ProductHandler_CreateProduct ::
    "'w ProductServicer \<Rightarrow> go_error + CreateProductRequest \<Rightarrow> 'w \<Rightarrow> Product answer \<times> 'w" where
  "ProductHandler_CreateProduct service body w =
     (case ShouldBindJSON valid_CreateProductRequest body of
        Inl err \<Rightarrow> (BadRequest (error_text err), w)
      | Inr req \<Rightarrow>
          (case svc_CreateProduct service req w of
             (Inl err, w1) \<Rightarrow> (InternalServerError (error_text err), w1)
           | (Inr p, w1) \<Rightarrow> (Success (Some p), w1)))"

text \<open>The inventory service is a pointer that may be nil.\<close>

definition ProductHandler_GetProductByID ::
    "'w ProductServicer \<Rightarrow> ('w, Inventory) table_api option \<Rightarrow> string \<Rightarrow> 'w \<Rightarrow> ProductDetailResponse answer \<times> 'w" where
  "ProductHandler_GetProductByID service inventoryService param w =
     (case ParseUint param of
        Inl err \<Rightarrow> (BadRequest (error_text err), w)
      | Inr productID \<Rightarrow>
          (case svc_GetProductByID service productID w of
             (Inl err, w1) \<Rightarrow>
               (if errors_is err ProdErrProductNotFound then NotFound (error_text err)
                else InternalServerError (error_text err), w1)
           | (Inr p, w1) \<Rightarrow>
               (case inventoryService of
                  None \<Rightarrow> (Success (Some \<lparr>pdr_Product = p, pdr_Inventory = None\<rparr>), w1)
                | Some db \<Rightarrow>
                    (case InventoryService_GetByProductID db productID w1 of
                       (Inl _, w2) \<Rightarrow> (Success (Some \<lparr>pdr_Product = p, pdr_Inventory = None\<rparr>), w2)
                     | (Inr invt, w2) \<Rightarrow> (Success (Some \<lparr>pdr_Product = p, pdr_Inventory = Some invt\<rparr>), w2)))))"

definition ProductHandler_List ::
    "'w ProductServicer \<Rightarrow> (string \<Rightarrow> string option) \<Rightarrow> 'w \<Rightarrow> Product PaginatedData answer \<times> 'w" where
  "ProductHandler_List service query w =
     (let page = page_of query; pageSize = page_size_of query in
      case svc_ListProducts service page pageSize w of
        ((products, rows, failed), w1) \<Rightarrow>
          (if failed \<noteq> None then InternalServerError ''failed to list products''
           else SuccessPaginated products rows page pageSize, w1))"

definition ProductHandler_UpdateProduct ::
    "'w ProductServicer \<Rightarrow> string \<Rightarrow> go_error + UpdateProductRequest \<Rightarrow> 'w \<Rightarrow> Product answer \<times> 'w" where
  "ProductHandler_UpdateProduct service param body w =
     (case ParseUint param of
        Inl err \<Rightarrow> (BadRequest ''invalid product id'', w)
      | Inr productID \<Rightarrow>
          (case ShouldBindJSON valid_UpdateProductRequest body of
             Inl err \<Rightarrow> (BadRequest (error_text err), w)
           | Inr req \<Rightarrow>
               (case svc_Update service productID req w of
                  (Inl err, w1) \<Rightarrow>
                    (if errors_is err ProdErrProductNotFound then NotFound (error_text err)
                     else InternalServerError ''failed to update product'', w1)
                | (Inr p, w1) \<Rightarrow> (Success (Some p), w1))))"

definition ProductHandler_DeleteProduct :: "'w ProductServicer \<Rightarrow> string \<Rightarrow> 'w \<Rightarrow> unit answer \<times> 'w" where
  "ProductHandler_DeleteProduct service param w =
     (case ParseUint param of
        Inl err \<Rightarrow> (BadRequest ''invalid product id'', w)
      | Inr productID \<Rightarrow>
          (case svc_Delete service productID w of
             (Inl err, w1) \<Rightarrow>
               (if errors_is err ProdErrProductNotFound then NotFound (error_text err)
                else InternalServerError ''failed to delete product'', w1)
           | (Inr _, w1) \<Rightarrow> (Success None, w1)))"

section \<open>A page of a user's orders\<close>

lemma ShouldBindJSON_Inr: "ShouldBindJSON valid body = Inr req \<longleftrightarrow> body = Inr req \<and> valid req"
  by (auto simp: ShouldBindJSON_def split: sum.splits)

lemma errors_is_external: "is_external e \<Longrightarrow> errors_is e t = (e = t)"
  by (cases e) auto

lemma find_page:
  assumes "find_result p key off lim rows (Inr xs)" "0 \<le> lim"
  shows "int (length xs) \<le> lim \<and> sorted (map key xs) \<and> set xs \<subseteq> {x \<in> set rows. p x}"
proof -
  obtain ys where ys: "mset ys = mset (filter p rows)" "sorted (map key ys)" "xs = take (nat lim) (drop (nat off) ys)"
    using assms by (auto simp: find_result_def)
  have "set xs \<subseteq> set ys" using ys(3) by (meson set_drop_subset set_take_subset subset_trans)
  moreover have "set ys = {x \<in> set rows. p x}" using ys(1) by (metis set_mset_mset set_filter)
  moreover have "sorted (map key xs)" using ys(2) by (simp add: ys(3) sorted_wrt_take sorted_wrt_drop flip: take_map drop_map)
  ultimately show ?thesis using ys(3) assms(2) by simp
qed

context quiet_runtime
begin

lemma order_page:
  assumes "GetOrderByUserID (orders_tbl X) userID page psize w = (Inr (ords, tot), w')" "0 \<le> psize"
  shows "int (length ords) \<le> psize \<and> sorted (map (\<lambda>x. - ord_CreatedAt x) ords)
    \<and> set ords \<subseteq> {x \<in> set (t_orders (db w)). ord_UserID x = userID}"
proof -
  let ?p = "\<lambda>x. ord_UserID x = userID" and ?key = "\<lambda>x. - ord_CreatedAt x" and ?off = "wrap64 (wrap64 (page - 1) * psize)"
  obtain c u where c: "db_Count (orders_tbl X) ?p w = (c, u)" by fastforce
  obtain f v where f: "db_Find (orders_tbl X) ?p ?key ?off psize u = (f, v)" by fastforce
  have "f = Inr ords" using assms(1) c f by (auto simp: GetOrderByUserID_def Let_def split: sum.splits)
  then have "find_result ?p ?key ?off psize (t_orders (db u)) (Inr ords)" "db u = db w"
    using ord.Find_law [OF f] ord.Count_law [OF c] by auto
  from find_page [OF this(1) assms(2)] this(2) show ?thesis by simp
qed

lemma order_page_world:
  assumes "GetOrderByUserID (orders_tbl X) userID page psize w = (r, w')"
  shows "db w' = db w \<and> kv w' = kv w"
proof -
  let ?p = "\<lambda>x. ord_UserID x = userID" and ?key = "\<lambda>x. - ord_CreatedAt x" and ?off = "wrap64 (wrap64 (page - 1) * psize)"
  obtain c u where c: "db_Count (orders_tbl X) ?p w = (c, u)" by fastforce
  obtain f v where f: "db_Find (orders_tbl X) ?p ?key ?off psize u = (f, v)" by fastforce
  have "w' = v" using assms c f by (auto simp: GetOrderByUserID_def Let_def split: sum.splits)
  then show ?thesis using ord.Find_law [OF f] ord.Count_law [OF c] by auto
qed

text \<open>What the order handler's status says of the tables.\<close>

lemma create_answer:
  assumes "OrderHandler_CreateOrder X n c body w = Some ((status, res), n', w')" "inv_keys (db w)"
  shows "if status = 200
    then \<exists>u req od. ctx_user_id c = Some u \<and> body = Inr req \<and> 1 \<le> cor_Quantity req
      \<and> res_Data res = Some od \<and> order_placed num u req (db w) (db w') od
    else db w' = db w \<and> res_Data res = None \<and> status \<in> {400, 401, 404, 409, 500}
      \<and> (status = 404 \<longrightarrow> (\<exists>req. body = Inr req \<and> (\<forall>p\<in>set (t_products (db w)). prod_ID p \<noteq> cor_ProductID req)))"
proof (cases "ctx_user_id c")
  case None
  then show ?thesis using assms(1) by (auto simp: OrderHandler_CreateOrder_def response_defs)
next
  case (Some u)
  show ?thesis
  proof (cases "ShouldBindJSON valid_CreateOrderRequest body")
    case (Inl e)
    then show ?thesis using assms(1) Some by (auto simp: OrderHandler_CreateOrder_def response_defs)
  next
    case (Inr req)
    then have req: "body = Inr req" "1 \<le> cor_Quantity req"
      by (simp_all add: ShouldBindJSON_Inr valid_CreateOrderRequest_def)
    obtain cr n1 w1 where run: "CreateOrder X n u req w = Some (cr, n1, w1)"
      using assms(1) Some Inr by (auto simp: OrderHandler_CreateOrder_def split: option.splits)
    note eff = CreateOrder_result [OF run assms(2)]
    show ?thesis
    proof (cases cr)
      case (Inr od)
      then have "status = 200" "res_Data res = Some od" "w' = w1"
        using assms(1) Some \<open>ShouldBindJSON valid_CreateOrderRequest body = Inr req\<close> run
        by (auto simp: OrderHandler_CreateOrder_def response_defs)
      then show ?thesis using eff Inr Some req by auto
    next
      case (Inl e)
      then have "w' = w1" "(status, res) = (if errors_is e ErrProductNotFound then NotFound (error_text e)
          else if errors_is e ErrProductOffSale then Error_response StatusConflict (error_text e)
          else if errors_is e ErrDuplicateOrder then Error_response StatusConflict (error_text e)
          else if errors_is e ErrStockInsufficient then Error_response StatusConflict (error_text e)
          else InternalServerError ''failed to create order'')"
        using assms(1) Some \<open>ShouldBindJSON valid_CreateOrderRequest body = Inr req\<close> run
        by (simp_all add: OrderHandler_CreateOrder_def)
      then show ?thesis using eff Inl req
        by (auto simp: response_defs request_refused_def errors_is_external split: if_splits)
    qed
  qed
qed

end

section \<open>Properties\<close>


text \<open>C29: a listing is bounded and shows one's own orders only. Whatever the query strings are, numbers out
  of range included, a page that is returned has a number of at least 1 and a size from 1 to 100,
  holds at most that many orders, newest first, each of them an order of the authenticated user in
  the table, and reading it changes nothing.\<close>

theorem order_listing_bounds:
  assumes "quiet_runtime db kv log num jsonb X"
    and "OrderHandler_ListOrders (orders_tbl X) c query w = ((status, res), w')"
  shows "db w' = db w \<and> kv w' = kv w \<and>
    (case res_Data res of
       None \<Rightarrow> status \<in> {401, 500}
     | Some pg \<Rightarrow> status = 200 \<and> 1 \<le> pg_Page pg \<and> 1 \<le> pg_PageSize pg \<and> pg_PageSize pg \<le> 100
         \<and> int (length (pg_Items pg)) \<le> pg_PageSize pg \<and> sorted (map (\<lambda>x. - ord_CreatedAt x) (pg_Items pg))
         \<and> (\<exists>u. ctx_user_id c = Some u \<and> set (pg_Items pg) \<subseteq> {x \<in> set (t_orders (db w)). ord_UserID x = u}))"
proof (cases "ctx_user_id c")
  case None
  then show ?thesis using assms(2) by (auto simp: OrderHandler_ListOrders_def response_defs)
next
  case (Some u)
  obtain r v where run: "GetOrderByUserID (orders_tbl X) u (page_of query) (page_size_of query) w = (r, v)" by fastforce
  note world = quiet_runtime.order_page_world [OF assms(1) run]
  show ?thesis
  proof (cases r)
    case (Inl e)
    then show ?thesis using assms(2) Some run world
      by (auto simp: OrderHandler_ListOrders_def ListOrderByUser_def Let_def response_defs)
  next
    case (Inr p)
    then obtain ords tot where p: "r = Inr (ords, tot)" by (cases p) auto
    have "res_Data res = Some \<lparr>pg_Items = ords, pg_Total = tot, pg_Page = page_of query, pg_PageSize = page_size_of query\<rparr>"
      "status = 200" "w' = v"
      using assms(2) Some run p by (auto simp: OrderHandler_ListOrders_def ListOrderByUser_def Let_def response_defs)
    then show ?thesis
      using world quiet_runtime.order_page [OF assms(1) run [unfolded p]] page_ranges [of query] Some by simp
  qed
qed

section \<open>Witnesses\<close>

definition demo_user :: context_keys where
  "demo_user = no_keys\<lparr>ctx_user_id := Some 101\<rparr>"


theorem order_listing_bounds_witness:
  "\<exists>pg. res_Data (snd (fst (OrderHandler_ListOrders (orders_tbl (demo_ext False)) demo_user
        [''page_size'' \<mapsto> ''1000'', ''page'' \<mapsto> ''-3''] demo_ordered))) = Some pg
     \<and> pg_PageSize pg \<le> 100 \<and> 1 \<le> pg_Page pg"
proof -
  let ?run = "OrderHandler_ListOrders (orders_tbl (demo_ext False)) demo_user [''page_size'' \<mapsto> ''1000'', ''page'' \<mapsto> ''-3''] demo_ordered"
  have "fst (fst ?run) = 200" by code_simp
  then obtain res w' where run: "?run = ((200, res), w')" by (metis prod.collapse)
  from order_listing_bounds [OF demo_quiet run] run show ?thesis by (auto split: option.splits)
qed

end
