(* ===== verification/Users.thy ===== *)
theory Users
  imports Http Reference_Store
begin

text \<open>
  \<^verbatim>\<open>internal/user\<close>: registration, login and profiles, with their handlers. bcrypt and the
  signing of tokens are parameters, the record \<open>auth_lib\<close>; \<open>password_library\<close> and
  \<open>token_library\<close> state what is relied on: a hash matches the password it was made from, and a
  token parses to the claims it was signed with until it expires, its numbers read as floats.
\<close>

section \<open>model.go\<close>

record RegisterRequest =
  rr_Username :: string
  rr_Password :: string
  rr_Email :: string
  rr_Phone :: string

record LoginRequest =
  lr_Username :: string
  lr_Password :: string

record LoginResponse =
  lp_Token :: string
  lp_User :: User

record UpdateProfileRequest =
  up_Email :: string
  up_Phone :: string

text \<open>The \<^verbatim>\<open>binding\<close> tags; \<open>email\<close> is the validator's notion of an address.\<close>

definition valid_RegisterRequest :: "(string \<Rightarrow> bool) \<Rightarrow> RegisterRequest \<Rightarrow> bool" where
  "valid_RegisterRequest email req \<longleftrightarrow>
     rr_Username req \<noteq> '''' \<and> 3 \<le> length (rr_Username req) \<and> length (rr_Username req) \<le> 32 \<and>
     rr_Password req \<noteq> '''' \<and> 6 \<le> length (rr_Password req) \<and> rr_Email req \<noteq> '''' \<and> email (rr_Email req)"

definition valid_LoginRequest :: "LoginRequest \<Rightarrow> bool" where
  "valid_LoginRequest req \<longleftrightarrow> lr_Username req \<noteq> '''' \<and> lr_Password req \<noteq> ''''"

definition valid_UpdateProfileRequest :: "(string \<Rightarrow> bool) \<Rightarrow> UpdateProfileRequest \<Rightarrow> bool" where
  "valid_UpdateProfileRequest email req \<longleftrightarrow> up_Email req = '''' \<or> email (up_Email req)"

section \<open>repository.go\<close>

definition UserRepository_Create :: "('w, User) table_api \<Rightarrow> User \<Rightarrow> 'w \<Rightarrow> (go_error + User) \<times> 'w" where
  "UserRepository_Create db user w = db_Create db user w"

definition FindByUsername :: "('w, User) table_api \<Rightarrow> string \<Rightarrow> 'w \<Rightarrow> (go_error + User) \<times> 'w" where
  "FindByUsername db username w = db_First db (\<lambda>x. usr_Username x = username) w"

definition FindByID :: "('w, User) table_api \<Rightarrow> nat \<Rightarrow> 'w \<Rightarrow> (go_error + User) \<times> 'w" where
  "FindByID db userId w = db_First db (\<lambda>x. usr_ID x = userId) w"

definition UserRepository_Update :: "('w, User) table_api \<Rightarrow> User \<Rightarrow> 'w \<Rightarrow> (go_error + User) \<times> 'w" where
  "UserRepository_Update db user w = db_Save db user w"

definition ExistsByUsername :: "('w, User) table_api \<Rightarrow> string \<Rightarrow> 'w \<Rightarrow> (go_error + bool) \<times> 'w" where
  "ExistsByUsername db username w =
     (case db_Count db (\<lambda>x. usr_Username x = username) w of
        (Inl err, w1) \<Rightarrow> (Inl err, w1) | (Inr n, w1) \<Rightarrow> (Inr (0 < n), w1))"

definition ExistsByEmail :: "('w, User) table_api \<Rightarrow> string \<Rightarrow> 'w \<Rightarrow> (go_error + bool) \<times> 'w" where
  "ExistsByEmail db email w =
     (case db_Count db (\<lambda>x. usr_Email x = email) w of
        (Inl err, w1) \<Rightarrow> (Inl err, w1) | (Inr n, w1) \<Rightarrow> (Inr (0 < n), w1))"

section \<open>service.go\<close>

text \<open>A comparison returns no error when the password matches. Claims are the members of the token's map.\<close>

record 'w auth_lib =
  bcrypt_Generate :: "string \<Rightarrow> 'w \<Rightarrow> (go_error + string) \<times> 'w"
  bcrypt_Compare :: "string \<Rightarrow> string \<Rightarrow> go_error option"
  jwt_SignedString :: "(string \<times> json) list \<Rightarrow> string \<Rightarrow> go_error + string"

record UserService =
  us_jwtSecret :: string
  us_jwtExpire :: int

definition hour :: int where "hour = 3600 * 1000000000"

definition NewUserService :: "string \<Rightarrow> int \<Rightarrow> UserService" where
  "NewUserService jwtSecret jwtExpireHours = \<lparr>us_jwtSecret = jwtSecret, us_jwtExpire = wrap64 (jwtExpireHours * hour)\<rparr>"

text \<open>\<^verbatim>\<open>time.Unix\<close>: seconds since 1970.\<close>

definition Unix :: "time \<Rightarrow> int" where
  "Unix t = t div 1000000000 - 62135596800"

definition user_claims :: "UserService \<Rightarrow> User \<Rightarrow> time \<Rightarrow> time \<Rightarrow> (string \<times> json) list" where
  "user_claims s user t1 t2 =
     [(''user_id'', JInt (int (usr_ID user))), (''username'', JStr (usr_Username user)), (''role'', JInt (usr_Role user)),
      (''exp'', JInt (Unix (t1 + us_jwtExpire s))), (''iat'', JInt (Unix t2))]"

definition generateToken :: "'w ext \<Rightarrow> 'w auth_lib \<Rightarrow> UserService \<Rightarrow> User \<Rightarrow> 'w \<Rightarrow> (go_error + string) \<times> 'w" where
  "generateToken X A s user w =
     (case time_Now X w of (t1, w1) \<Rightarrow>
        (case time_Now X w1 of (t2, w2) \<Rightarrow>
           (jwt_SignedString A (user_claims s user t1 t2) (us_jwtSecret s), w2)))"

definition UserService_Register :: "'w ext \<Rightarrow> 'w auth_lib \<Rightarrow> RegisterRequest \<Rightarrow> 'w \<Rightarrow> (go_error + User) \<times> 'w" where
  "UserService_Register X A req w =
     (case ExistsByUsername (users_tbl X) (rr_Username req) w of
        (Inl err, w1) \<Rightarrow> (Inl err, w1)
      | (Inr found, w1) \<Rightarrow>
          (if found then (Inl ErrUserExists, w1)
           else
             (case ExistsByEmail (users_tbl X) (rr_Email req) w1 of
                (Inl err, w2) \<Rightarrow> (Inl err, w2)
              | (Inr taken, w2) \<Rightarrow>
                  (if taken then (Inl ErrEmailExists, w2)
                   else
                     (case bcrypt_Generate A (rr_Password req) w2 of
                        (Inl err, w3) \<Rightarrow> (Inl err, w3)
                      | (Inr hashedPassword, w3) \<Rightarrow>
                          UserRepository_Create (users_tbl X)
                            \<lparr>usr_ID = 0, usr_Username = rr_Username req, usr_Password = hashedPassword,
                             usr_Email = rr_Email req, usr_Phone = rr_Phone req, usr_Role = 0,
                             usr_CreatedAt = 0, usr_UpdatedAt = 0\<rparr> w3)))))"

definition UserService_Login ::
    "'w ext \<Rightarrow> 'w auth_lib \<Rightarrow> UserService \<Rightarrow> LoginRequest \<Rightarrow> 'w \<Rightarrow> (go_error + LoginResponse) \<times> 'w" where
  "UserService_Login X A s req w =
     (case FindByUsername (users_tbl X) (lr_Username req) w of
        (Inl err, w1) \<Rightarrow>
          (if errors_is err ErrRecordNotFound then (Inl ErrUserNotFound, w1) else (Inl err, w1))
      | (Inr user, w1) \<Rightarrow>
          (case bcrypt_Compare A (usr_Password user) (lr_Password req) of
             Some _ \<Rightarrow> (Inl ErrInvalidCredentials, w1)
           | None \<Rightarrow>
               (case generateToken X A s user w1 of
                  (Inl err, w2) \<Rightarrow> (Inl err, w2)
                | (Inr token, w2) \<Rightarrow> (Inr \<lparr>lp_Token = token, lp_User = user\<rparr>, w2))))"

definition UserService_GetProfile :: "('w, User) table_api \<Rightarrow> nat \<Rightarrow> 'w \<Rightarrow> (go_error + User) \<times> 'w" where
  "UserService_GetProfile db userId w =
     (case FindByID db userId w of
        (Inl err, w1) \<Rightarrow>
          (if errors_is err ErrRecordNotFound then (Inl ErrUserNotFound, w1) else (Inl err, w1))
      | (Inr user, w1) \<Rightarrow> (Inr user, w1))"

text \<open>The check of a new address, before the assignment to \<^verbatim>\<open>user.Email\<close>.\<close>

definition UserService_UpdateProfile ::
    "('w, User) table_api \<Rightarrow> nat \<Rightarrow> UpdateProfileRequest \<Rightarrow> 'w \<Rightarrow> (go_error + User) \<times> 'w" where
  "UserService_UpdateProfile db userId req w =
     (case FindByID db userId w of
        (Inl err, w1) \<Rightarrow>
          (if errors_is err ErrRecordNotFound then (Inl ErrUserNotFound, w1) else (Inl err, w1))
      | (Inr user, w1) \<Rightarrow>
          (if up_Email req \<noteq> '''' \<and> up_Email req \<noteq> usr_Email user
           then
             (case ExistsByEmail db (up_Email req) w1 of
                (Inl err, w2) \<Rightarrow> (Inl err, w2)
              | (Inr taken, w2) \<Rightarrow>
                  (if taken then (Inl ErrEmailExists, w2)
                   else UserRepository_Update db (user\<lparr>usr_Email := up_Email req\<rparr>) w2))
           else UserRepository_Update db user w1))"

section \<open>handler.go\<close>

definition UserHandler_Register ::
    "'w ext \<Rightarrow> 'w auth_lib \<Rightarrow> (string \<Rightarrow> bool) \<Rightarrow> go_error + RegisterRequest \<Rightarrow> 'w \<Rightarrow> User answer \<times> 'w" where
  "UserHandler_Register X A email body w =
     (case ShouldBindJSON (valid_RegisterRequest email) body of
        Inl err \<Rightarrow> (BadRequest (error_text err), w)
      | Inr req \<Rightarrow>
          (case UserService_Register X A req w of
             (Inl err, w1) \<Rightarrow>
               (if errors_is err ErrUserExists \<or> errors_is err ErrEmailExists
                then Error_response StatusConflict (error_text err)
                else InternalServerError ''registration failed'', w1)
           | (Inr user, w1) \<Rightarrow> (Success (Some user), w1)))"

definition UserHandler_Login ::
    "'w ext \<Rightarrow> 'w auth_lib \<Rightarrow> UserService \<Rightarrow> go_error + LoginRequest \<Rightarrow> 'w \<Rightarrow> LoginResponse answer \<times> 'w" where
  "UserHandler_Login X A s body w =
     (case ShouldBindJSON valid_LoginRequest body of
        Inl err \<Rightarrow> (BadRequest (error_text err), w)
      | Inr req \<Rightarrow>
          (case UserService_Login X A s req w of
             (Inl err, w1) \<Rightarrow>
               (if errors_is err ErrInvalidCredentials then Unauthorized (error_text err)
                else InternalServerError ''login failed'', w1)
           | (Inr resp, w1) \<Rightarrow> (Success (Some resp), w1)))"

text \<open>
  The two handlers behind the middleware assert that the key \<^verbatim>\<open>user_id\<close> is a \<^verbatim>\<open>uint\<close>;
  no answer stands for the panic of a missing key.
\<close>

definition UserHandler_GetProfile :: "('w, User) table_api \<Rightarrow> context_keys \<Rightarrow> 'w \<Rightarrow> User answer option \<times> 'w" where
  "UserHandler_GetProfile db c w =
     (case ctx_user_id c of
        None \<Rightarrow> (None, w)
      | Some userID \<Rightarrow>
          (case UserService_GetProfile db userID w of
             (Inl err, w1) \<Rightarrow>
               (Some (if errors_is err ErrUserNotFound then NotFound (error_text err)
                      else InternalServerError ''failed to get profile''), w1)
           | (Inr user, w1) \<Rightarrow> (Some (Success (Some user)), w1)))"

definition UserHandler_UpdateProfile ::
    "('w, User) table_api \<Rightarrow> (string \<Rightarrow> bool) \<Rightarrow> context_keys \<Rightarrow> go_error + UpdateProfileRequest \<Rightarrow> 'w \<Rightarrow>
      User answer option \<times> 'w" where
  "UserHandler_UpdateProfile db email c body w =
     (case ShouldBindJSON (valid_UpdateProfileRequest email) body of
        Inl err \<Rightarrow> (Some (BadRequest (error_text err)), w)
      | Inr req \<Rightarrow>
          (case ctx_user_id c of
             None \<Rightarrow> (None, w)
           | Some userID \<Rightarrow>
               (case UserService_UpdateProfile db userID req w of
                  (Inl err, w1) \<Rightarrow>
                    (Some (if errors_is err ErrUserNotFound then NotFound (error_text err)
                           else if errors_is err ErrEmailExists then Error_response StatusConflict (error_text err)
                           else InternalServerError ''failed to update profile''), w1)
                | (Inr user, w1) \<Rightarrow> (Some (Success (Some user)), w1))))"

section \<open>What is relied on\<close>

locale password_library =
  fixes rest :: "'w \<Rightarrow> 'r" and A :: "'w auth_lib"
  assumes Generate_law: "bcrypt_Generate A p w = (hr, w') \<Longrightarrow>
    rest w' = rest w \<and> (case hr of Inr h \<Rightarrow> bcrypt_Compare A h p = None | Inl e \<Rightarrow> True)"

text \<open>How a claim reads after parsing.\<close>

fun parsed_claim :: "json \<Rightarrow> json" where
  "parsed_claim (JInt i) = JFloat (f64_of_int i)"
| "parsed_claim j = j"

text \<open>
  Tokens at an instant \<open>now\<close>, in seconds: a signed one is valid before its expiry under the key
  function's key, and claims that are numbers and strings can be signed.
\<close>

locale token_library =
  fixes A :: "'w auth_lib" and parse :: "int \<Rightarrow> jwt_parser"
  assumes Parse_signed: "jwt_SignedString A claims secret = Inr tok \<Longrightarrow> keyfn True ''HS256'' = Inr secret \<Longrightarrow>
      map_of claims ''nbf'' = None \<Longrightarrow> map_of claims ''exp'' = Some (JInt e) \<Longrightarrow> now < e \<Longrightarrow> 0 \<le> e \<Longrightarrow> e < 2 ^ 53 \<Longrightarrow>
      parse now keyfn tok = Inr \<lparr>tok_Valid = True, tok_Claims = Some (\<lambda>k. map_option parsed_claim (map_of claims k))\<rparr>"
    and Sign_scalars: "(\<And>k j. (k, j) \<in> set claims \<Longrightarrow> (\<exists>i. j = JInt i) \<or> (\<exists>s. j = JStr s)) \<Longrightarrow>
      \<exists>tok. jwt_SignedString A claims secret = Inr tok"

definition session_of :: "User \<Rightarrow> context_keys" where
  "session_of u = \<lparr>ctx_user_id = Some (usr_ID u), ctx_username = Some (Some (JStr (usr_Username u))),
     ctx_role = Some (Some (JFloat (f64_of_int (usr_Role u))))\<rparr>"

text \<open>The reading of the clock from which a login computes the expiry: the one after the user is found.\<close>

definition login_time :: "'w ext \<Rightarrow> LoginRequest \<Rightarrow> 'w \<Rightarrow> time" where
  "login_time X req w = fst (time_Now X (snd (FindByUsername (users_tbl X) (lr_Username req) w)))"

lemma split_bearer: "split_once (''Bearer '' @ tok) = [''Bearer'', tok]"
  by (simp add: split_once_def)

context token_library
begin

lemma generateToken_accepted:
  assumes "jwt_SignedString A (user_claims s u t1 t2) (us_jwtSecret s) = Inr tok" "usr_ID u < 2 ^ 53"
    and "now < Unix (t1 + us_jwtExpire s)" "0 \<le> Unix (t1 + us_jwtExpire s)" "Unix (t1 + us_jwtExpire s) < 2 ^ 53"
  shows "JWTAuth (parse now) impl (us_jwtSecret s) (''Bearer '' @ tok) = Inr (session_of u)"
proof -
  have key: "key_function_for (us_jwtSecret s) True ''HS256'' = Inr (us_jwtSecret s)" by (simp add: key_function_for_def)
  have e: "map_of (user_claims s u t1 t2) ''exp'' = Some (JInt (Unix (t1 + us_jwtExpire s)))"
    by (simp add: user_claims_def)
  have n: "map_of (user_claims s u t1 t2) ''nbf'' = None"
    by (simp add: user_claims_def)
  note tok = Parse_signed [where keyfn = "key_function_for (us_jwtSecret s)", OF assms(1) key n e assms(3-5)]
  show ?thesis
    unfolding JWTAuth_def split_bearer
    by (simp add: tok user_claims_def session_of_def uint_of_float_of_int [OF assms(2)])
qed

lemma user_claims_signed: "\<exists>tok. jwt_SignedString A (user_claims s u t1 t2) secret = Inr tok"
  by (rule Sign_scalars) (auto simp: user_claims_def)

end

lemma session_admin:
  assumes "- (2 ^ 15) \<le> usr_Role u" "usr_Role u < 2 ^ 15"
  shows "AdminRequired impl (session_of u) =
    (if usr_Role u = 1 then Inr (session_of u) else Inl (Forbidden ''admin access required''))"
  by (simp add: AdminRequired_def session_of_def int16_of_float_of_int [OF assms])

context quiet_runtime
begin

lemmas usr_First = usr.First_law [simplified]

lemma generateToken_result:
  assumes "generateToken X A s u w = (r, w')"
  obtains t where "r = jwt_SignedString A (user_claims s u (fst (time_Now X w)) t) (us_jwtSecret s)"
    "db w' = db w" "kv w' = kv w"
proof -
  obtain t1 w1 where t1: "time_Now X w = (t1, w1)" by fastforce
  obtain t2 w2 where t2: "time_Now X w1 = (t2, w2)" by fastforce
  show ?thesis
    by (rule that [of t2])
      (use assms t1 t2 inp.Now_law [OF t1] inp.Now_law [OF t2] in \<open>auto simp: generateToken_def\<close>)
qed

lemma Login_success:
  assumes "UserService_Login X A s req w = (Inr resp, w')"
  obtains u t where "u \<in> set (t_users (db w))" "usr_Username u = lr_Username req"
    "bcrypt_Compare A (usr_Password u) (lr_Password req) = None" "lp_User resp = u"
    "jwt_SignedString A (user_claims s u (login_time X req w) t) (us_jwtSecret s) = Inr (lp_Token resp)"
proof -
  obtain f v where find: "FindByUsername (users_tbl X) (lr_Username req) w = (f, v)" by fastforce
  note found = usr_First [OF find [unfolded FindByUsername_def]]
  obtain u where u: "f = Inr u" using assms find by (cases f) (auto simp: UserService_Login_def split: if_splits)
  have ok: "bcrypt_Compare A (usr_Password u) (lr_Password req) = None"
    using assms find u by (auto simp: UserService_Login_def split: option.splits)
  obtain g x where gen: "generateToken X A s u v = (g, x)" by fastforce
  obtain tok where tok: "g = Inr tok" "resp = \<lparr>lp_Token = tok, lp_User = u\<rparr>"
    using assms find u gen ok by (cases g) (auto simp: UserService_Login_def)
  have here: "u \<in> set (t_users (db w))" "usr_Username u = lr_Username req"
    using found u by (simp_all add: first_result_def)
  obtain t where t: "g = jwt_SignedString A (user_claims s u (fst (time_Now X v)) t) (us_jwtSecret s)"
    by (rule generateToken_result [OF gen])
  show ?thesis by (rule that [OF here ok]) (use tok t find in \<open>simp_all add: login_time_def\<close>)
qed

end

locale user_runtime = quiet_runtime + password_library "\<lambda>w. (db w, kv w, log w)" A for A
begin

lemma usr_Create:
  "db_Create (users_tbl X) row w = (r, w') \<Longrightarrow>
    kv w' = kv w \<and> log w' = log w \<and> (\<exists>rows. db w' = (db w)\<lparr>t_users := rows\<rparr>
      \<and> create_result user_schema row (t_users (db w)) rows r)"
  by (drule usr.Create_law) auto

lemma exists_world:
  "ExistsByUsername (users_tbl X) s w = (r, w') \<Longrightarrow> db w' = db w \<and> kv w' = kv w \<and> log w' = log w"
  "ExistsByEmail (users_tbl X) s w = (q, w') \<Longrightarrow> db w' = db w \<and> kv w' = kv w \<and> log w' = log w"
  by (auto simp: ExistsByUsername_def ExistsByEmail_def split: prod.splits sum.splits dest!: usr.Count_law)

text \<open>A new user is added with role 0 and a password that matches; nobody else has the name or the address.\<close>

lemma Register_result:
  assumes "UserService_Register X A req w = (r, w')"
  shows "kv w' = kv w \<and> (case r of
      Inr u \<Rightarrow> db w' = (db w)\<lparr>t_users := t_users (db w) @ [u]\<rparr> \<and> usr_Username u = rr_Username req
        \<and> usr_Email u = rr_Email req \<and> usr_Role u = 0 \<and> bcrypt_Compare A (usr_Password u) (rr_Password req) = None
        \<and> (\<forall>x\<in>set (t_users (db w)). usr_Username x \<noteq> usr_Username u \<and> usr_Email x \<noteq> usr_Email u)
    | Inl e \<Rightarrow> db w' = db w)"
proof -
  obtain n w1 where name: "ExistsByUsername (users_tbl X) (rr_Username req) w = (n, w1)" by fastforce
  obtain m w2 where mail: "ExistsByEmail (users_tbl X) (rr_Email req) w1 = (m, w2)" by fastforce
  obtain h w3 where hash: "bcrypt_Generate A (rr_Password req) w2 = (h, w3)" by fastforce
  note same = exists_world(1) [OF name] exists_world(2) [OF mail] Generate_law [OF hash]
  consider (stop) e where "r = Inl e" "w' \<in> {w1, w2, w3}"
    | (create) hp where "n = Inr False" "m = Inr False" "h = Inr hp"
    using assms name mail hash by (auto simp: UserService_Register_def split: sum.splits if_splits)
  then show ?thesis
  proof cases
    case stop
    then show ?thesis using same by auto
  next
    case create
    let ?row = "\<lparr>usr_ID = 0, usr_Username = rr_Username req, usr_Password = hp, usr_Email = rr_Email req,
      usr_Phone = rr_Phone req, usr_Role = 0, usr_CreatedAt = 0, usr_UpdatedAt = 0\<rparr>"
    have made: "db_Create (users_tbl X) ?row w3 = (r, w')"
      using assms name mail hash create by (simp add: UserService_Register_def UserRepository_Create_def)
    from usr_Create [OF made] same create show ?thesis
      by (cases r) (auto simp: create_result_def user_schema_def clashes_def)
  qed
qed

end

text \<open>Logging in with the name and the password just registered.\<close>

context reliable_runtime
begin

lemma Login_reliable:
  assumes "UserService_Login X A s req w = (r, w')" "token_library A parse"
    and "u \<in> set (t_users (db w))" "usr_Username u = lr_Username req"
    and "\<And>x. x \<in> set (t_users (db w)) \<Longrightarrow> usr_Username x = lr_Username req \<Longrightarrow> x = u"
    and "bcrypt_Compare A (usr_Password u) (lr_Password req) = None"
  shows "\<exists>tok. r = Inr \<lparr>lp_Token = tok, lp_User = u\<rparr>"
proof -
  obtain f v where find: "FindByUsername (users_tbl X) (lr_Username req) w = (f, v)" by fastforce
  note found = usr_First [OF find [unfolded FindByUsername_def]]
  have f: "f = Inr u"
  proof (cases f)
    case (Inl e)
    then have "e = ErrRecordNotFound" using usr.First_reliable find unfolding FindByUsername_def by blast
    then show ?thesis using found Inl assms(3,4) by (auto simp: first_result_def)
  next
    case (Inr x)
    then show ?thesis using found assms(5) [of x] by (simp add: first_result_def)
  qed
  obtain g x where gen: "generateToken X A s u v = (g, x)" by fastforce
  obtain t where "g = jwt_SignedString A (user_claims s u (fst (time_Now X v)) t) (us_jwtSecret s)"
    by (rule generateToken_result [OF gen])
  then obtain tok where "g = Inr tok" using token_library.user_claims_signed [OF assms(2)] by metis
  then show ?thesis using assms(1,6) find f gen by (auto simp: UserService_Login_def)
qed

end

section \<open>Changing a profile\<close>

context quiet_runtime
begin

lemma UpdateProfile_result:
  assumes "UserService_UpdateProfile (users_tbl X) i req w = (Inr u', w')"
  obtains u t where "u \<in> set (t_users (db w))" "usr_ID u = i"
    "u' = u\<lparr>usr_Email := (if up_Email req = '''' then usr_Email u else up_Email req), usr_UpdatedAt := t\<rparr>"
    "db w' = (db w)\<lparr>t_users := map (\<lambda>y. if usr_ID y = i then u' else y) (t_users (db w))\<rparr>"
    "up_Email req = '''' \<or> up_Email req = usr_Email u \<or> (\<forall>x\<in>set (t_users (db w)). usr_Email x \<noteq> up_Email req)"
proof -
  obtain f v where find: "FindByID (users_tbl X) i w = (f, v)" by fastforce
  note found = usr_First [OF find [unfolded FindByID_def]]
  obtain u where u: "f = Inr u" using assms find by (cases f) (auto simp: UserService_UpdateProfile_def split: if_splits)
  have here: "u \<in> set (t_users (db w))" "usr_ID u = i" "db v = db w" using found u by (simp_all add: first_result_def)
  obtain c x where counted: "ExistsByEmail (users_tbl X) (up_Email req) v = (c, x)" by fastforce
  have free: "db x = db v \<and> (c = Inr False \<longrightarrow> (\<forall>y\<in>set (t_users (db v)). usr_Email y \<noteq> up_Email req))"
    using counted
    by (auto simp: ExistsByEmail_def count_result_def filter_empty_conv split: prod.splits sum.splits dest!: usr.Count_law)
  let ?u = "u\<lparr>usr_Email := (if up_Email req = '''' then usr_Email u else up_Email req)\<rparr>"
  have row: "?u = (if up_Email req \<noteq> [] \<and> up_Email req \<noteq> usr_Email u then u\<lparr>usr_Email := up_Email req\<rparr> else u)" by auto
  obtain z where saved: "db_Save (users_tbl X) ?u z = (Inr u', w')" "db z = db w"
    and new: "up_Email req = '''' \<or> up_Email req = usr_Email u \<or> c = Inr False"
    unfolding row using assms find u here(3) counted free
    by (auto simp: UserService_UpdateProfile_def UserRepository_Update_def split: sum.splits if_splits)
  from usr.Save_law [OF saved(1)] saved(2) here
  obtain t where t: "u' = ?u\<lparr>usr_UpdatedAt := t\<rparr>"
    "db w' = (db w)\<lparr>t_users := map (\<lambda>y. if usr_ID y = i then u' else y) (t_users (db w))\<rparr>"
    by (auto simp: save_result_def user_schema_def split: if_splits)
  show ?thesis by (rule that [OF here(1,2) _ t(2)]) (use t new free here in auto)
qed

end

text \<open>The telephone number of a request is ignored.\<close>

lemma profile_phone_is_kept:
  assumes "quiet_runtime db kv log num jsonb X" "UserService_UpdateProfile (users_tbl X) i req w = (Inr u', w')"
  shows "\<exists>u\<in>set (t_users (db w)). usr_ID u = i \<and> usr_Phone u' = usr_Phone u"
  by (rule quiet_runtime.UpdateProfile_result [OF assms]) auto

section \<open>A reference library\<close>

text \<open>
  A hash that is the password, refused when it is longer than bcrypt accepts, and a token that lists
  the key it was signed with and its claims as texts, each preceded by its length.
\<close>

definition netstring :: "string \<Rightarrow> string" where
  "netstring s = show_nat (length s) @ CHR '':'' # s"

function read_netstrings :: "string \<Rightarrow> string list option" where
  "read_netstrings s =
     (if s = '''' then Some []
      else
        (case dropWhile (\<lambda>c. c \<noteq> CHR '':'') s of
           [] \<Rightarrow> None
         | _ # rest \<Rightarrow>
             (let n = read_digits (takeWhile (\<lambda>c. c \<noteq> CHR '':'') s) in
              map_option ((#) (take n rest)) (read_netstrings (drop n rest)))))"
  by auto
termination
proof (relation "measure length")
  fix s x21 x22 n
  assume "dropWhile (\<lambda>c. c \<noteq> CHR '':'') s = x21 # x22"
  then have "length (x21 # x22) \<le> length s" by (metis length_dropWhile_le)
  then show "(drop n x22, s) \<in> measure length" by simp
qed simp

declare read_netstrings.simps [simp del]

lemma read_netstring: "read_netstrings (netstring s @ t) = map_option ((#) s) (read_netstrings t)"
proof -
  have no_colon: "\<And>c. c \<in> set (show_nat (length s)) \<Longrightarrow> c \<noteq> CHR '':''"
    using show_nat_digits [of "length s"] by (auto simp: list_all_iff)
  then have "takeWhile (\<lambda>c. c \<noteq> CHR '':'') (netstring s @ t) = show_nat (length s)"
    "dropWhile (\<lambda>c. c \<noteq> CHR '':'') (netstring s @ t) = CHR '':'' # s @ t"
    by (simp_all add: netstring_def takeWhile_append2 dropWhile_append2)
  moreover have "netstring s \<noteq> ''''" by (simp add: netstring_def)
  ultimately show ?thesis by (subst read_netstrings.simps) simp
qed

lemma read_netstrings_concat [simp]: "read_netstrings (concat (map netstring xs)) = Some xs"
  by (induction xs) (simp_all add: read_netstrings.simps [of "''''"] read_netstring)

fun scalar_text :: "json \<Rightarrow> string option" where
  "scalar_text (JInt i) = Some (CHR ''i'' # show_int i)"
| "scalar_text (JStr s) = Some (CHR ''s'' # s)"
| "scalar_text _ = None"

definition read_scalar :: "string \<Rightarrow> json" where
  "read_scalar s =
     (case s of [] \<Rightarrow> JNull
      | c # t \<Rightarrow> (if c = CHR ''i'' then (case parse_int t of None \<Rightarrow> JNull | Some i \<Rightarrow> JInt i) else JStr t))"

lemma read_scalar_text: "scalar_text j = Some s \<Longrightarrow> read_scalar s = j"
  by (cases j) (auto simp: read_scalar_def)

fun claim_texts :: "(string \<times> json) list \<Rightarrow> string list option" where
  "claim_texts [] = Some []"
| "claim_texts ((k, j) # claims) =
     (case (scalar_text j, claim_texts claims) of (Some s, Some rest) \<Rightarrow> Some (k # s # rest) | _ \<Rightarrow> None)"

fun read_claims :: "string list \<Rightarrow> (string \<times> json) list" where
  "read_claims (k # s # rest) = (k, read_scalar s) # read_claims rest"
| "read_claims _ = []"

lemma read_claim_texts: "claim_texts claims = Some xs \<Longrightarrow> read_claims xs = claims"
  by (induction claims arbitrary: xs rule: claim_texts.induct) (auto simp: read_scalar_text split: option.splits)

lemma claim_texts_scalars:
  "(\<And>k j. (k, j) \<in> set claims \<Longrightarrow> (\<exists>i. j = JInt i) \<or> (\<exists>s. j = JStr s)) \<Longrightarrow> \<exists>xs. claim_texts claims = Some xs"
proof (induction claims rule: claim_texts.induct)
  case (2 k j claims)
  have "\<exists>xs. claim_texts claims = Some xs" by (rule "2.IH") (use "2.prems" in auto)
  moreover from "2.prems" [of k j] have "\<exists>s. scalar_text j = Some s" by auto
  ultimately show ?case by auto
qed simp

definition mem_Generate :: "string \<Rightarrow> 'w \<Rightarrow> (go_error + string) \<times> 'w" where
  "mem_Generate p w = (if 72 < length p then Inl (ErrExternal ''password length exceeds 72 bytes'') else Inr p, w)"

definition mem_Compare :: "string \<Rightarrow> string \<Rightarrow> go_error option" where
  "mem_Compare h p = (if h = p then None else Some (ErrExternal ''not the hash of the given password''))"

definition mem_SignedString :: "(string \<times> json) list \<Rightarrow> string \<Rightarrow> go_error + string" where
  "mem_SignedString claims secret =
     (case claim_texts claims of
        None \<Rightarrow> Inl (ErrExternal ''unsupported claim'')
      | Some xs \<Rightarrow> Inr (concat (map netstring (secret # xs))))"

definition mem_auth :: "'w auth_lib" where
  "mem_auth = \<lparr>bcrypt_Generate = mem_Generate, bcrypt_Compare = mem_Compare, jwt_SignedString = mem_SignedString\<rparr>"

definition mem_Parse :: "int \<Rightarrow> jwt_parser" where
  "mem_Parse now keyfn tok =
     (case read_netstrings tok of
        Some (signer # xs) \<Rightarrow>
          (case keyfn True ''HS256'' of
             Inl err \<Rightarrow> Inl err
           | Inr secret \<Rightarrow>
               (let claims = read_claims xs in
                if secret \<noteq> signer then Inl (ErrExternal ''signature is invalid'')
                else if (case map_of claims ''exp'' of Some (JInt e) \<Rightarrow> now < e | None \<Rightarrow> True | _ \<Rightarrow> False)
                then Inr \<lparr>tok_Valid = True, tok_Claims = Some (\<lambda>k. map_option parsed_claim (map_of claims k))\<rparr>
                else Inl (ErrExternal ''token is expired'')))
      | _ \<Rightarrow> Inl (ErrExternal ''token is malformed''))"

lemma mem_passwords: "password_library rest mem_auth"
  by unfold_locales (auto simp: mem_auth_def mem_Generate_def mem_Compare_def split: sum.splits)

lemma mem_tokens: "token_library mem_auth mem_Parse"
proof (unfold_locales, goal_cases)
  case (1 claims secret tok keyfn e now)
  from "1"(1) obtain xs where xs: "claim_texts claims = Some xs" "tok = concat (map netstring (secret # xs))"
    by (auto simp: mem_auth_def mem_SignedString_def split: option.splits)
  have "read_netstrings tok = Some (secret # xs)" unfolding xs(2) by (rule read_netstrings_concat)
  then show ?case
    unfolding mem_Parse_def using "1" read_claim_texts [OF xs(1)] by (simp add: Let_def)
next
  case (2 claims secret)
  then obtain xs where "claim_texts claims = Some xs" using claim_texts_scalars by metis
  then show ?case by (simp add: mem_auth_def mem_SignedString_def)
qed

interpretation bcrypt: password_library rest "mem_auth :: 'w auth_lib" for rest :: "'w \<Rightarrow> 'r"
  by (rule mem_passwords)

interpretation jwt: token_library "mem_auth :: 'w auth_lib" mem_Parse
  by (rule mem_tokens)

interpretation users: user_runtime mem_db mem_kv mem_log num jsonb "mem_ext flaky (\<lambda>_ d. d) num jsonb"
  "mem_auth :: unit mem auth_lib" for num jsonb flaky
  by (intro user_runtime.intro quiet.quiet_runtime_axioms mem_passwords)

section \<open>Properties\<close>

text \<open>C26: a token that a login returns authenticates that user. When \<^verbatim>\<open>Login\<close> succeeds, the response holds a
  user of the table whose name and password were given, and until the configured number of hours
  after the login has passed, the middleware lets a request with the token through with that user's
  id, name and role, and the administrator check passes exactly when the role is 1. The expiry is a
  number of seconds that a float holds exactly, as the id is.\<close>

theorem login_token_authenticates:
  assumes "quiet_runtime db kv log num jsonb X" "token_library A parse"
    and "UserService_Login X A s req w = (Inr resp, w')"
    and "expiry = Unix (login_time X req w + us_jwtExpire s)" "now < expiry" "0 \<le> expiry" "expiry < 2 ^ 53"
    and "usr_ID (lp_User resp) < 2 ^ 53" "- (2 ^ 15) \<le> usr_Role (lp_User resp)" "usr_Role (lp_User resp) < 2 ^ 15"
  shows "lp_User resp \<in> set (t_users (db w)) \<and> usr_Username (lp_User resp) = lr_Username req
    \<and> bcrypt_Compare A (usr_Password (lp_User resp)) (lr_Password req) = None
    \<and> JWTAuth (parse now) impl (us_jwtSecret s) (''Bearer '' @ lp_Token resp) = Inr (session_of (lp_User resp))
    \<and> ctx_user_id (session_of (lp_User resp)) = Some (usr_ID (lp_User resp))
    \<and> AdminRequired impl16 (session_of (lp_User resp)) =
        (if usr_Role (lp_User resp) = 1 then Inr (session_of (lp_User resp)) else Inl (Forbidden ''admin access required''))"
proof -
  obtain u t where u: "u \<in> set (t_users (db w))" "usr_Username u = lr_Username req"
      "bcrypt_Compare A (usr_Password u) (lr_Password req) = None" "lp_User resp = u"
    and tok: "jwt_SignedString A (user_claims s u (login_time X req w) t) (us_jwtSecret s) = Inr (lp_Token resp)"
    by (rule quiet_runtime.Login_success [OF assms(1,3)])
  note accepted = token_library.generateToken_accepted [OF assms(2) tok, of now]
  show ?thesis
    using u accepted assms(4-8) session_admin [OF assms(9,10)] by (simp add: session_of_def)
qed

text \<open>C27: a registration can be used to log in, and takes the name. After \<^verbatim>\<open>Register\<close> has returned a user,
  who has role 0, \<^verbatim>\<open>Login\<close> with the same name and password returns a token for that user when no
  statement fails by itself, and no later \<^verbatim>\<open>Register\<close> succeeds with the same name or the same
  address.\<close>

theorem registered_user_logs_in:
  assumes "reliable_runtime db kv log num jsonb X" "password_library (\<lambda>w. (db w, kv w, log w)) A" "token_library A parse"
    and "UserService_Register X A req w = (Inr u, w1)"
    and "UserService_Login X A s \<lparr>lr_Username = rr_Username req, lr_Password = rr_Password req\<rparr> w1 = (r, w2)"
    and "UserService_Register X A req' w1 = (r', w3)"
  shows "usr_Role u = 0 \<and> (\<exists>tok. r = Inr \<lparr>lp_Token = tok, lp_User = u\<rparr>)
    \<and> (rr_Username req' = rr_Username req \<or> rr_Email req' = rr_Email req \<longrightarrow> (\<exists>e. r' = Inl e) \<and> db w3 = db w1)"
proof -
  have quiet: "quiet_runtime db kv log num jsonb X" using assms(1) by (simp add: reliable_runtime_def)
  have run: "user_runtime db kv log num jsonb X A" by (rule user_runtime.intro [OF quiet assms(2)])
  note made = user_runtime.Register_result [OF run assms(4), simplified]
  note again = user_runtime.Register_result [OF run assms(6)]
  have "\<exists>tok. r = Inr \<lparr>lp_Token = tok, lp_User = u\<rparr>"
    by (rule reliable_runtime.Login_reliable [OF assms(1,5,3)]) (use made in auto)
  moreover have "(\<exists>e. r' = Inl e) \<and> db w3 = db w1"
    if "rr_Username req' = rr_Username req \<or> rr_Email req' = rr_Email req"
    using again made that by (cases r') auto
  ultimately show ?thesis using made by blast
qed

section \<open>Witnesses\<close>

definition demo_signup :: RegisterRequest where
  "demo_signup = \<lparr>rr_Username = ''ada'', rr_Password = ''secret'', rr_Email = ''ada@host'', rr_Phone = ''''\<rparr>"

definition demo_login :: LoginRequest where
  "demo_login = \<lparr>lr_Username = ''ada'', lr_Password = ''secret''\<rparr>"

definition demo_admin :: User where
  "demo_admin = \<lparr>usr_ID = 7, usr_Username = ''ada'', usr_Password = ''secret'', usr_Email = ''ada@host'',
     usr_Phone = '''', usr_Role = 1, usr_CreatedAt = 0, usr_UpdatedAt = 0\<rparr>"

text \<open>The instant 1970-01-01 00:00:00 UTC, and the users \<open>us\<close>.\<close>

definition demo_members :: "User list \<Rightarrow> unit mem" where
  "demo_members us = mem_empty\<lparr>mem_db := (mem_db (mem_empty :: unit mem))\<lparr>t_users := us\<rparr>,
     mem_clock := 62135596800 * 1000000000\<rparr>"

text \<open>An administrator who logs in; the token is valid for 24 hours.\<close>

theorem login_token_authenticates_witness:
  "\<exists>tok w'. UserService_Login (demo_ext False) mem_auth (NewUserService ''key'' 24) demo_login (demo_members [demo_admin])
       = (Inr \<lparr>lp_Token = tok, lp_User = demo_admin\<rparr>, w')
     \<and> JWTAuth (mem_Parse 86399) (\<lambda>_. 0) ''key'' (''Bearer '' @ tok) = Inr (session_of demo_admin)
     \<and> AdminRequired (\<lambda>_. 0) (session_of demo_admin) = Inr (session_of demo_admin)"
proof -
  let ?w = "demo_members [demo_admin]" let ?s = "NewUserService ''key'' 24"
  obtain r w' where run: "UserService_Login (demo_ext False) mem_auth ?s demo_login ?w = (r, w')" by fastforce
  obtain tok where r: "r = Inr \<lparr>lp_Token = tok, lp_User = demo_admin\<rparr>"
    using reliable_runtime.Login_reliable [OF demo_reliable run mem_tokens, of demo_admin]
    by (auto simp: demo_members_def demo_admin_def demo_login_def mem_auth_def mem_Compare_def)
  have "Unix (login_time (demo_ext False) demo_login ?w + us_jwtExpire ?s) = 86400"
    by code_simp
  from login_token_authenticates [OF demo_quiet mem_tokens run [unfolded r] this [symmetric], of 86399 "\<lambda>_. 0" "\<lambda>_. 0"]
  show ?thesis using run r by (auto simp: demo_admin_def NewUserService_def)
qed

theorem registered_user_logs_in_witness:
  "\<exists>u w1 tok w2. UserService_Register (demo_ext False) mem_auth demo_signup (demo_members []) = (Inr u, w1)
     \<and> UserService_Login (demo_ext False) mem_auth (NewUserService ''key'' 24) demo_login w1
       = (Inr \<lparr>lp_Token = tok, lp_User = u\<rparr>, w2)"
proof -
  let ?reg = "\<lambda>w. UserService_Register (demo_ext False) mem_auth demo_signup w"
  have "case fst (?reg (demo_members [])) of Inl _ \<Rightarrow> False | Inr _ \<Rightarrow> True" by code_simp
  then obtain u w1 where made: "?reg (demo_members []) = (Inr u, w1)"
    by (metis prod.collapse sum.case_eq_if sum.collapse(2))
  obtain r w2 where login: "UserService_Login (demo_ext False) mem_auth (NewUserService ''key'' 24)
      \<lparr>lr_Username = rr_Username demo_signup, lr_Password = rr_Password demo_signup\<rparr> w1 = (r, w2)" by fastforce
  obtain r' w3 where again: "?reg w1 = (r', w3)" by fastforce
  from registered_user_logs_in [OF demo_reliable mem_passwords mem_tokens made login again] made login
  show ?thesis by (auto simp: demo_signup_def demo_login_def)
qed

section \<open>A lost update\<close>

text \<open>Another session takes the administrator's role from a user.\<close>

definition demote :: "nat \<Rightarrow> tables \<Rightarrow> tables" where
  "demote i d = d\<lparr>t_users := map (\<lambda>u. if usr_ID u = i then u\<lparr>usr_Role := 0\<rparr> else u) (t_users d)\<rparr>"

text \<open>
  \<^verbatim>\<open>UpdateProfile\<close> writes back the whole row it has read: a user who is demoted between the read
  and the write is an administrator again.
\<close>

theorem profile_update_restores_role:
  "\<exists>u w'. UserService_UpdateProfile (users_tbl (mem_ext False demote (\<lambda>x. x) (\<lambda>j. j))) 7 \<lparr>up_Email = '''', up_Phone = ''''\<rparr>
       (mem_empty\<lparr>mem_db := (mem_db (mem_empty :: unit mem))\<lparr>t_users := [demo_admin]\<rparr>, mem_others := [[], [7]]\<rparr>) = (Inr u, w')
     \<and> mem_others w' = [] \<and> map usr_Role (t_users (mem_db w')) = [1]"
proof -
  let ?run = "UserService_UpdateProfile (users_tbl (mem_ext False demote (\<lambda>x. x) (\<lambda>j. j))) 7 \<lparr>up_Email = '''', up_Phone = ''''\<rparr>
       (mem_empty\<lparr>mem_db := (mem_db (mem_empty :: unit mem))\<lparr>t_users := [demo_admin]\<rparr>, mem_others := [[], [7]]\<rparr>)"
  have "case ?run of (Inr u, w) \<Rightarrow> mem_others w = [] \<and> map usr_Role (t_users (mem_db w)) = [1] | _ \<Rightarrow> False" by code_simp
  then show ?thesis by (auto split: prod.splits sum.splits)
qed

end
