(* ===== verification/Server.thy ===== *)
theory Server
  imports Registry Handlers Users
begin

text \<open>
  \<^verbatim>\<open>RegisterRoutes\<close> of the five handlers and the routers that \<^verbatim>\<open>cmd/server\<close>,
  \<^verbatim>\<open>cmd/order-service\<close> and \<^verbatim>\<open>cmd/inventory-service\<close> make of them: \<open>serve\<close> takes a request
  through the middleware of its route to its handler. How gin finds the route of a request is a
  parameter, of which \<open>gin_router\<close> says that it finds a registered one; the answers gin gives
  itself are their status.
\<close>

section \<open>Groups and routes\<close>

datatype middleware = MW_JWTAuth string | MW_AdminRequired

record router_group =
  grp_prefix :: string
  grp_handlers :: "middleware list"

datatype endpoint =
    Register_user | Login_user | Get_profile | Update_profile
  | List_products | Get_product | Create_product | Update_product | Delete_product
  | Get_inventory | Set_inventory | Deduct_inventory
  | Create_order | List_orders | Get_order | Cancel_order
  | Post_seckill | Seckill_result
  | Health "(string \<times> string) list"

record registered =
  rg_Method :: string
  rg_Pattern :: string
  rg_Handlers :: "middleware list"
  rg_Endpoint :: endpoint

definition handle :: "router_group \<Rightarrow> string \<Rightarrow> string \<Rightarrow> endpoint \<Rightarrow> registered" where
  "handle g http_method relativePath h =
     \<lparr>rg_Method = http_method, rg_Pattern = grp_prefix g @ relativePath, rg_Handlers = grp_handlers g, rg_Endpoint = h\<rparr>"

definition Group :: "router_group \<Rightarrow> string \<Rightarrow> router_group" where
  "Group g relativePath = g\<lparr>grp_prefix := grp_prefix g @ relativePath\<rparr>"

definition Use :: "router_group \<Rightarrow> middleware \<Rightarrow> router_group" where
  "Use g mw = g\<lparr>grp_handlers := grp_handlers g @ [mw]\<rparr>"

definition UserHandler_RegisterRoutes :: "router_group \<Rightarrow> router_group \<Rightarrow> registered list" where
  "UserHandler_RegisterRoutes publicGroup authGroup =
     [handle publicGroup ''POST'' ''/auth/register'' Register_user, handle publicGroup ''POST'' ''/auth/login'' Login_user,
      handle authGroup ''GET'' ''/user/profile'' Get_profile, handle authGroup ''PUT'' ''/user/profile'' Update_profile]"

definition ProductHandler_RegisterRoutes :: "router_group \<Rightarrow> router_group \<Rightarrow> registered list" where
  "ProductHandler_RegisterRoutes publicGroup adminGroup =
     [handle publicGroup ''GET'' ''/products'' List_products, handle publicGroup ''GET'' ''/products/:id'' Get_product,
      handle adminGroup ''POST'' ''/products'' Create_product, handle adminGroup ''PUT'' ''/products/:id'' Update_product,
      handle adminGroup ''DELETE'' ''/products/:id'' Delete_product]"

definition InventoryHandler_RegisterRoutes :: "router_group \<Rightarrow> router_group \<Rightarrow> router_group \<Rightarrow> registered list" where
  "InventoryHandler_RegisterRoutes publicGroup authGroup adminGroup =
     [handle publicGroup ''GET'' ''/inventory/:product_id'' Get_inventory,
      handle adminGroup ''PUT'' ''/inventory/:product_id'' Set_inventory,
      handle adminGroup ''POST'' ''/inventory/:product_id/deduct'' Deduct_inventory]"

definition OrderHandler_RegisterRoutes :: "router_group \<Rightarrow> registered list" where
  "OrderHandler_RegisterRoutes authGroup =
     [handle authGroup ''POST'' ''/orders'' Create_order, handle authGroup ''GET'' ''/orders'' List_orders,
      handle authGroup ''GET'' ''/orders/:id'' Get_order, handle authGroup ''PUT'' ''/orders/:id/cancel'' Cancel_order]"

definition SeckillHandler_RegisterRoutes :: "router_group \<Rightarrow> registered list" where
  "SeckillHandler_RegisterRoutes authGroup =
     [handle authGroup ''POST'' ''/seckill'' Post_seckill, handle authGroup ''GET'' ''/seckill/result'' Seckill_result]"

section \<open>The three routers\<close>

definition root_group :: router_group where
  "root_group = \<lparr>grp_prefix = '''', grp_handlers = []\<rparr>"

text \<open>The public, the authenticated and the administrators' group, the same in the three programs.\<close>

definition api_groups :: "Config \<Rightarrow> router_group \<times> router_group \<times> router_group" where
  "api_groups cfg =
     (let api = Group root_group ''/api/v1'';
          publicGroup = Group api '''';
          authGroup = Use (Group api '''') (MW_JWTAuth (jwc_Secret (cfg_JWT cfg)));
          adminGroup = Use (Use (Group api '''') (MW_JWTAuth (jwc_Secret (cfg_JWT cfg)))) MW_AdminRequired in
      (publicGroup, authGroup, adminGroup))"

definition server_routes :: "Config \<Rightarrow> registered list" where
  "server_routes cfg =
     (let (publicGroup, authGroup, adminGroup) = api_groups cfg in
      UserHandler_RegisterRoutes publicGroup authGroup @
      ProductHandler_RegisterRoutes publicGroup adminGroup @
      InventoryHandler_RegisterRoutes publicGroup authGroup adminGroup @
      OrderHandler_RegisterRoutes authGroup @
      SeckillHandler_RegisterRoutes authGroup @
      [handle root_group ''GET'' ''/health'' (Health [(''status'', ''ok'')])])"

definition order_service_routes :: "Config \<Rightarrow> registered list" where
  "order_service_routes cfg =
     (let (publicGroup, authGroup, adminGroup) = api_groups cfg in
      UserHandler_RegisterRoutes publicGroup authGroup @
      ProductHandler_RegisterRoutes publicGroup adminGroup @
      OrderHandler_RegisterRoutes authGroup @
      SeckillHandler_RegisterRoutes authGroup @
      [handle root_group ''GET'' ''/health'' (Health [(''status'', ''ok''), (''service'', ''order-service'')])])"

definition inventory_service_routes :: "Config \<Rightarrow> registered list" where
  "inventory_service_routes cfg =
     (let (publicGroup, authGroup, adminGroup) = api_groups cfg in
      InventoryHandler_RegisterRoutes publicGroup authGroup adminGroup @
      [handle root_group ''GET'' ''/health'' (Health [(''status'', ''ok''), (''service'', ''inventory-service'')])])"

section \<open>Requests\<close>

record 'b http_request =
  rq_Method :: string
  rq_Path :: string
  rq_Authorization :: string
  rq_Query :: "string \<Rightarrow> string option"
  rq_Body :: 'b

text \<open>
  What a router is made of besides its routes: the services, gin's decoding of a body for each of
  the structs it is bound to, and the library and implementation parameters of the handlers.
\<close>

record ('w, 'b) services =
  sv_ext :: "'w ext"
  sv_auth :: "'w auth_lib"
  sv_user :: UserService
  sv_Parse :: jwt_parser
  sv_uint :: "float64 \<Rightarrow> nat"
  sv_int16 :: "float64 \<Rightarrow> int"
  sv_email :: "string \<Rightarrow> bool"
  as_RegisterRequest :: "'b \<Rightarrow> go_error + RegisterRequest"
  as_LoginRequest :: "'b \<Rightarrow> go_error + LoginRequest"
  as_UpdateProfileRequest :: "'b \<Rightarrow> go_error + UpdateProfileRequest"
  as_CreateProductRequest :: "'b \<Rightarrow> go_error + CreateProductRequest"
  as_UpdateProductRequest :: "'b \<Rightarrow> go_error + UpdateProductRequest"
  as_SetInventoryRequest :: "'b \<Rightarrow> go_error + SetInventoryRequest"
  as_DeductRequest :: "'b \<Rightarrow> go_error + DeductRequest"
  as_CreateOrderRequest :: "'b \<Rightarrow> go_error + CreateOrderRequest"

datatype data =
    D_Unit | D_User User | D_Login LoginResponse
  | D_Product Product | D_Products "Product PaginatedData" | D_Detail ProductDetailResponse
  | D_Inventory Inventory | D_Order Order | D_Orders "Order PaginatedData" | D_Members gin_H

text \<open>An envelope, the body of the health check, or an answer of gin's own, after a panic for one.\<close>

datatype http_reply = Json "data answer" | Healthy "(string \<times> string) list" | Gin int

definition as_data :: "('d \<Rightarrow> data) \<Rightarrow> 'd answer \<Rightarrow> data answer" where
  "as_data f a = (case a of (status, res) \<Rightarrow>
     (status, \<lparr>res_Code = res_Code res, res_Message = res_Message res, res_Data = map_option f (res_Data res)\<rparr>))"

definition respond :: "('d \<Rightarrow> data) \<Rightarrow> Node \<Rightarrow> 'd answer \<times> 'w \<Rightarrow> (http_reply \<times> Node \<times> 'w) option" where
  "respond f node r = (case r of (a, w) \<Rightarrow> Some (Json (as_data f a), node, w))"

definition respond_recovering ::
    "('d \<Rightarrow> data) \<Rightarrow> Node \<Rightarrow> 'd answer option \<times> 'w \<Rightarrow> (http_reply \<times> Node \<times> 'w) option" where
  "respond_recovering f node r =
     (case r of (a, w) \<Rightarrow> Some (case a of None \<Rightarrow> Gin 500 | Some b \<Rightarrow> Json (as_data f b), node, w))"

definition respond_generating :: "('d \<Rightarrow> data) \<Rightarrow> ('d answer \<times> Node \<times> 'w) option \<Rightarrow> (http_reply \<times> Node \<times> 'w) option" where
  "respond_generating f r = (case r of None \<Rightarrow> None | Some (a, node, w) \<Rightarrow> Some (Json (as_data f a), node, w))"

abbreviation products_of :: "('w, 'b) services \<Rightarrow> 'w ProductServicer" where
  "products_of S \<equiv> CachedProductService (sv_ext S) (ProductService (products_tbl (sv_ext S)))"

fun run_endpoint ::
    "('w, 'b) services \<Rightarrow> endpoint \<Rightarrow> context_keys \<Rightarrow> (string \<Rightarrow> string) \<Rightarrow> 'b http_request \<Rightarrow> Node \<Rightarrow> 'w \<Rightarrow>
      (http_reply \<times> Node \<times> 'w) option" where
  "run_endpoint S Register_user c param rq n w =
     respond D_User n (UserHandler_Register (sv_ext S) (sv_auth S) (sv_email S) (as_RegisterRequest S (rq_Body rq)) w)"
| "run_endpoint S Login_user c param rq n w =
     respond D_Login n (UserHandler_Login (sv_ext S) (sv_auth S) (sv_user S) (as_LoginRequest S (rq_Body rq)) w)"
| "run_endpoint S Get_profile c param rq n w =
     respond_recovering D_User n (UserHandler_GetProfile (users_tbl (sv_ext S)) c w)"
| "run_endpoint S Update_profile c param rq n w =
     respond_recovering D_User n
       (UserHandler_UpdateProfile (users_tbl (sv_ext S)) (sv_email S) c (as_UpdateProfileRequest S (rq_Body rq)) w)"
| "run_endpoint S List_products c param rq n w =
     respond D_Products n (ProductHandler_List (products_of S) (rq_Query rq) w)"
| "run_endpoint S Get_product c param rq n w =
     respond D_Detail n
       (ProductHandler_GetProductByID (products_of S) (Some (inventories_tbl (sv_ext S))) (param ''id'') w)"
| "run_endpoint S Create_product c param rq n w =
     respond D_Product n (ProductHandler_CreateProduct (products_of S) (as_CreateProductRequest S (rq_Body rq)) w)"
| "run_endpoint S Update_product c param rq n w =
     respond D_Product n
       (ProductHandler_UpdateProduct (products_of S) (param ''id'') (as_UpdateProductRequest S (rq_Body rq)) w)"
| "run_endpoint S Delete_product c param rq n w =
     respond (\<lambda>_. D_Unit) n (ProductHandler_DeleteProduct (products_of S) (param ''id'') w)"
| "run_endpoint S Get_inventory c param rq n w =
     respond D_Inventory n (InventoryHandler_Get (inventories_tbl (sv_ext S)) (param ''product_id'') w)"
| "run_endpoint S Set_inventory c param rq n w =
     respond D_Inventory n
       (InventoryHandler_Set (inventories_tbl (sv_ext S)) (param ''product_id'') (as_SetInventoryRequest S (rq_Body rq)) w)"
| "run_endpoint S Deduct_inventory c param rq n w =
     respond (\<lambda>_. D_Unit) n
       (InventoryHandler_Deduct (inventories_tbl (sv_ext S)) (param ''product_id'') (as_DeductRequest S (rq_Body rq)) w)"
| "run_endpoint S Create_order c param rq n w =
     respond_generating D_Order (OrderHandler_CreateOrder (sv_ext S) n c (as_CreateOrderRequest S (rq_Body rq)) w)"
| "run_endpoint S List_orders c param rq n w =
     respond D_Orders n (OrderHandler_ListOrders (orders_tbl (sv_ext S)) c (rq_Query rq) w)"
| "run_endpoint S Get_order c param rq n w =
     respond D_Order n (OrderHandler_GetOrderByID (orders_tbl (sv_ext S)) c (param ''id'') w)"
| "run_endpoint S Cancel_order c param rq n w =
     respond D_Order n (OrderHandler_CancelOrder (sv_ext S) c (param ''id'') w)"
| "run_endpoint S Post_seckill c param rq n w =
     respond_generating D_Members (SeckillHandler_Seckill (sv_ext S) n c (as_CreateOrderRequest S (rq_Body rq)) w)"
| "run_endpoint S Seckill_result c param rq n w =
     respond D_Members n (SeckillHandler_GetResult (sv_ext S) (rq_Query rq) w)"
| "run_endpoint S (Health ms) c param rq n w = Some (Healthy ms, n, w)"

fun run_middleware :: "('w, 'b) services \<Rightarrow> middleware list \<Rightarrow> string \<Rightarrow> context_keys \<Rightarrow> unit answer + context_keys" where
  "run_middleware S [] hdr c = Inr c"
| "run_middleware S (MW_JWTAuth secret # ms) hdr c =
     (case JWTAuth (sv_Parse S) (sv_uint S) secret hdr of Inl a \<Rightarrow> Inl a | Inr c1 \<Rightarrow> run_middleware S ms hdr c1)"
| "run_middleware S (MW_AdminRequired # ms) hdr c =
     (case AdminRequired (sv_int16 S) c of Inl a \<Rightarrow> Inl a | Inr c1 \<Rightarrow> run_middleware S ms hdr c1)"

type_synonym router = "registered list \<Rightarrow> string \<Rightarrow> string \<Rightarrow> int + registered \<times> (string \<Rightarrow> string)"

definition serve ::
    "router \<Rightarrow> registered list \<Rightarrow> ('w, 'b) services \<Rightarrow> 'b http_request \<Rightarrow> Node \<Rightarrow> 'w \<Rightarrow> (http_reply \<times> Node \<times> 'w) option" where
  "serve lookup routes S rq n w =
     (case lookup routes (rq_Method rq) (rq_Path rq) of
        Inl status \<Rightarrow> Some (Gin status, n, w)
      | Inr (r, param) \<Rightarrow>
          (case run_middleware S (rg_Handlers r) (rq_Authorization rq) no_keys of
             Inl a \<Rightarrow> Some (Json (as_data (\<lambda>_. D_Unit) a), n, w)
           | Inr c \<Rightarrow> run_endpoint S (rg_Endpoint r) c param rq n w))"

section \<open>What the requests leave alone\<close>

context invariant_runtime
begin

lemma keeps_answer_reads [keeps_intros]:
  "keeps db P (db_First (users_tbl X) up)" "keeps db P (db_Count (users_tbl X) up)"
  "keeps db P (db_Count (products_tbl X) pp)" "keeps db P (db_Find (products_tbl X) pp pkey off lim)"
  "keeps db P (db_Find (orders_tbl X) op okey off lim)"
  by (rule keeps_rely, drule usr.First_law, simp) (rule keeps_rely, drule usr.Count_law, simp,
    rule keeps_rely, drule prod.Count_law, simp, rule keeps_rely, drule prod.Find_law, simp,
    rule keeps_rely, drule ord.Find_law, simp)

lemma keeps_respond [keeps_intros]: "keeps db P f \<Longrightarrow> keeps_maybe db P (\<lambda>w. respond g n (f w))"
  unfolding respond_def keeps_def keeps_maybe_def by (auto split: prod.splits)

lemma keeps_recovering [keeps_intros]: "keeps db P f \<Longrightarrow> keeps_maybe db P (\<lambda>w. respond_recovering g n (f w))"
  unfolding respond_recovering_def keeps_def keeps_maybe_def by (auto split: prod.splits)

lemma keeps_generating [keeps_intros]: "keeps_maybe db P f \<Longrightarrow> keeps_maybe db P (\<lambda>w. respond_generating g (f w))"
  unfolding respond_generating_def keeps_maybe_def by (auto split: option.splits)

lemma keeps_let [keeps_intros]: "keeps db P (f x) \<Longrightarrow> keeps db P (\<lambda>w. let y = x in f y w)"
  by (simp add: Let_def)

lemma keeps_cached_read [keeps_intros]:
  "keeps db P (CachedProductService_GetProductByID X (ProductService (products_tbl X)) i)"
  unfolding CachedProductService_GetProductByID_def cache_fill_def cacheTTL_def ProductService_def Let_def
    ProductService_GetProductByID_def FindProductByID_def ProductServicer.simps
  by (intro keeps_intros)

lemma keeps_login [keeps_intros]: "keeps db P (UserService_Login X A s req)"
  unfolding UserService_Login_def FindByUsername_def generateToken_def by (intro keeps_intros)

lemma keeps_profile [keeps_intros]: "keeps db P (UserService_GetProfile (users_tbl X) i)"
  unfolding UserService_GetProfile_def FindByID_def by (intro keeps_intros)

lemma keeps_stock_read [keeps_intros]: "keeps db P (InventoryService_GetByProductID (inventories_tbl X) p)"
  unfolding InventoryService_GetByProductID_def Repository_GetByProductID_def by (intro keeps_intros)

end

context invariant_runtime
begin

lemma keeps_product_page [keeps_intros]: "keeps db P (ProductHandler_List (CachedProductService X (ProductService (products_tbl X))) query)"
  unfolding keeps_def ProductHandler_List_def CachedProductService_def ProductService_def ProductService_ListProducts_def
    FindAllProducts_def Let_def
  using stable by (auto split: prod.splits sum.splits if_splits dest!: prod.Count_law prod.Find_law)

lemma keeps_product_page_entry [keeps_intros]:
  "keeps db P (ProductHandler_GetProductByID (CachedProductService X (ProductService (products_tbl X)))
     (Some (inventories_tbl X)) i)"
  unfolding ProductHandler_GetProductByID_def CachedProductService_def ProductServicer.simps option.case by (intro keeps_intros)

lemma keeps_stock_entry [keeps_intros]: "keeps db P (InventoryHandler_Get (inventories_tbl X) i)"
  unfolding InventoryHandler_Get_def by (intro keeps_intros)

lemma keeps_entry [keeps_intros]:
  "(\<And>req. keeps db P (UserService_Register X A req)) \<Longrightarrow> keeps db P (UserHandler_Register X A email rbody)"
  "keeps db P (UserHandler_Login X A s lbody)"
  unfolding UserHandler_Register_def UserHandler_Login_def by (intro keeps_intros; assumption?)+

lemma public_endpoints:
  assumes "\<And>req. keeps db P (UserService_Register X (sv_auth S) req)" "sv_ext S = X"
    and "h \<in> {Register_user, Login_user, List_products, Get_product, Get_inventory} \<union> range Health"
  shows "keeps_maybe db P (run_endpoint S h c param rq n)"
  using assms(3) unfolding insert_iff Un_iff
  by (elim disjE imageE emptyE; simp only: run_endpoint.simps [abs_def] assms(2); intro keeps_intros assms(1))

end

context order_invariant
begin

lemma keeps_pair: "(\<And>a b. keeps db P (f a b)) \<Longrightarrow> keeps db P (\<lambda>w. case x of (a, b) \<Rightarrow> f a b w)"
  by (cases x) simp

lemma keeps_order_reads [keeps_intros]:
  "keeps db P (OrderHandler_ListOrders (orders_tbl X) c query)" "keeps db P (OrderHandler_GetOrderByID (orders_tbl X) c i)"
  "keeps db P (SeckillHandler_GetResult X query)"
  unfolding OrderHandler_ListOrders_def ListOrderByUser_def GetOrderByUserID_def OrderHandler_GetOrderByID_def
    GetOrderByID_def Repository_GetOrderByID_def SeckillHandler_GetResult_def GetSeckillResult_def Let_def
  by (intro keeps_intros keeps_pair)+

lemma keeps_maybe_result [keeps_intros]:
  assumes "keeps_maybe db P f" "\<And>e n. keeps_maybe db P (g e n)" "\<And>x n. keeps_maybe db P (h x n)"
  shows "keeps_maybe db P (\<lambda>w. case f w of None \<Rightarrow> None | Some (Inl e, n, w1) \<Rightarrow> g e n w1 | Some (Inr x, n, w1) \<Rightarrow> h x n w1)"
  using assms unfolding keeps_maybe_def by (fastforce split: option.splits sum.splits)

lemma keeps_order_writes [keeps_intros]:
  "keeps_maybe db P (OrderHandler_CreateOrder X n c obody)" "keeps_maybe db P (SeckillHandler_Seckill X n c obody)"
  "keeps db P (OrderHandler_CancelOrder X c i)"
  unfolding OrderHandler_CreateOrder_def SeckillHandler_Seckill_def OrderHandler_CancelOrder_def
  by (intro keeps_intros keeps_CreateOrder keeps_Seckill keeps_CancelOrder)+

lemma auth_endpoints:
  assumes "\<And>i req. keeps db P (UserService_UpdateProfile (users_tbl X) i req)" "sv_ext S = X"
    and "h \<in> {Get_profile, Update_profile, Create_order, List_orders, Get_order, Cancel_order, Post_seckill, Seckill_result}"
  shows "keeps_maybe db P (run_endpoint S h c param rq n)"
  using assms(3) unfolding insert_iff
  by (elim disjE emptyE; simp only: run_endpoint.simps [abs_def] assms(2) UserHandler_GetProfile_def UserHandler_UpdateProfile_def;
      intro keeps_intros assms(1))

lemma keeps_stock_writes [keeps_intros]:
  "keeps db P (db_Create (inventories_tbl X) irow)" "keeps db P (db_Save (inventories_tbl X) irow)"
  by (rule keeps_write, drule inv.Create_law) (use keep_inventories in fastforce,
    rule keeps_write, drule inv.Save_law, use keep_inventories in fastforce)

lemma keeps_products:
  assumes "\<And>d ps. P d \<Longrightarrow> P (d\<lparr>t_products := ps\<rparr>)"
  shows "keeps db P (db_Create (products_tbl X) prow)" "keeps db P (db_Save (products_tbl X) prow)"
    "keeps db P (db_Delete (products_tbl X) pp)"
  by (rule keeps_write, drule prod.Create_law) (use assms in fastforce, rule keeps_write, drule prod.Save_law,
    use assms in fastforce, rule keeps_write, drule prod.Delete_law, use assms in fastforce)

lemma admin_endpoints:
  assumes "\<And>d ps. P d \<Longrightarrow> P (d\<lparr>t_products := ps\<rparr>)" "sv_ext S = X"
    and "h \<in> {Create_product, Update_product, Delete_product, Set_inventory, Deduct_inventory}"
  shows "keeps_maybe db P (run_endpoint S h c param rq n)"
  using assms(3) unfolding insert_iff
  by (elim disjE emptyE; simp only: run_endpoint.simps [abs_def] assms(2) ProductHandler_CreateProduct_def
        ProductHandler_UpdateProduct_def ProductHandler_DeleteProduct_def InventoryHandler_Set_def InventoryHandler_Deduct_def
        CachedProductService_def ProductService_def ProductServicer.simps CachedProductService_Update_def
        CachedProductService_Delete_def ProductService_CreateProduct_def ProductService_Update_def ProductService_Delete_def
        ProductRepository_Create_def ProductRepository_Update_def ProductRepository_Delete_def FindProductByID_def
        SetInventory_def Upsert_def Repository_GetByProductID_def Let_def;
      intro keeps_intros keeps_products [OF assms(1)])

end

section \<open>Users\<close>

context invariant_runtime
begin

lemma keeps_register:
  assumes "password_library (\<lambda>w. (db w, kv w, log w)) A" "\<And>d us. P d \<Longrightarrow> P (d\<lparr>t_users := us\<rparr>)"
  shows "keeps db P (UserService_Register X A req)"
proof -
  have "keeps db P (bcrypt_Generate A p)" for p
    by (rule keeps_same, drule password_library.Generate_law [OF assms(1)], simp)
  moreover have "keeps db P (db_Create (users_tbl X) row)" for row
    by (rule keeps_write, drule usr.Create_law) (use assms(2) in fastforce)
  ultimately show ?thesis
    unfolding UserService_Register_def ExistsByUsername_def ExistsByEmail_def UserRepository_Create_def by (intro keeps_intros)
qed

lemma keeps_update_profile:
  assumes "\<And>d us. P d \<Longrightarrow> P (d\<lparr>t_users := us\<rparr>)"
  shows "keeps db P (UserService_UpdateProfile (users_tbl X) i req)"
proof -
  have "keeps db P (db_Save (users_tbl X) row)" for row
    by (rule keeps_write, drule usr.Save_law) (use assms in fastforce)
  then show ?thesis
    unfolding UserService_UpdateProfile_def FindByID_def ExistsByEmail_def UserRepository_Update_def by (intro keeps_intros)
qed

end

definition administrators :: "tables \<Rightarrow> nat set" where
  "administrators d = set (map usr_ID (filter (\<lambda>u. usr_Role u = 1) (t_users d)))"

lemma administrators_elsewhere [simp]:
  "administrators (d\<lparr>t_inventories := invs\<rparr>) = administrators d" "administrators (d\<lparr>t_outbox := obs\<rparr>) = administrators d"
  "administrators (d\<lparr>t_orders := ords\<rparr>) = administrators d" "administrators (d\<lparr>t_products := ps\<rparr>) = administrators d"
  by (simp_all add: administrators_def)

context quiet_runtime
begin

lemma UpdateProfile_failed:
  assumes "UserService_UpdateProfile (users_tbl X) i req w = (Inl e, w')"
  shows "db w' = db w"
proof -
  obtain f v where find: "FindByID (users_tbl X) i w = (f, v)" by fastforce
  note found = usr_First [OF find [unfolded FindByID_def]]
  obtain c x where counted: "ExistsByEmail (users_tbl X) (up_Email req) v = (c, x)" by fastforce
  have x: "db x = db v" using counted by (auto simp: ExistsByEmail_def split: prod.splits sum.splits dest!: usr.Count_law)
  show ?thesis
  proof (cases f)
    case (Inl d)
    then show ?thesis using assms find found by (auto simp: UserService_UpdateProfile_def split: if_splits)
  next
    case (Inr u)
    then have here: "u \<in> set (t_users (db w))" "usr_ID u = i" "db v = db w" using found by (simp_all add: first_result_def)
    have saved: "db z' = db w" if "db_Save (users_tbl X) (u\<lparr>usr_Email := m\<rparr>) z = (Inl e, z')" "db z = db w" for m z z'
      using usr.Save_law [OF that(1)] that(2) here by (auto simp: save_result_def user_schema_def split: if_splits)
    note unchanged = saved [of "usr_Email u", simplified]
    show ?thesis
      using assms find Inr counted x here saved unchanged
      by (auto simp: UserService_UpdateProfile_def UserRepository_Update_def split: sum.splits if_splits)
  qed
qed

lemma UpdateProfile_administrators:
  assumes "UserService_UpdateProfile (users_tbl X) i req w = (r, w')"
  shows "administrators (db w') \<subseteq> administrators (db w)"
proof (cases r)
  case (Inl e)
  then show ?thesis using UpdateProfile_failed assms by auto
next
  case (Inr u')
  show ?thesis
    by (rule UpdateProfile_result [OF assms [unfolded Inr]]) (auto simp: administrators_def split: if_splits)
qed

end

context user_runtime
begin

lemma Register_administrators: "UserService_Register X A req w = (r, w') \<Longrightarrow> administrators (db w') \<subseteq> administrators (db w)"
  by (drule Register_result) (auto simp: administrators_def split: sum.splits)

end

section \<open>Routers\<close>

text \<open>gin's choice of a route for a method and a path.\<close>

locale gin_router =
  fixes lookup :: router
  assumes lookup_law: "lookup rs m path = Inr (r, param) \<Longrightarrow> r \<in> set rs \<and> rg_Method r = m"

definition router_programs :: "Config \<Rightarrow> registered list set" where
  "router_programs cfg = {server_routes cfg, order_service_routes cfg, inventory_service_routes cfg}"

definition public_endpoint :: "endpoint \<Rightarrow> bool" where
  "public_endpoint h \<longleftrightarrow> h \<in> {Register_user, Login_user, List_products, Get_product, Get_inventory} \<union> range Health"

definition auth_endpoint :: "endpoint \<Rightarrow> bool" where
  "auth_endpoint h \<longleftrightarrow>
     h \<in> {Get_profile, Update_profile, Create_order, List_orders, Get_order, Cancel_order, Post_seckill, Seckill_result}"

definition admin_endpoint :: "endpoint \<Rightarrow> bool" where
  "admin_endpoint h \<longleftrightarrow> h \<in> {Create_product, Update_product, Delete_product, Set_inventory, Deduct_inventory}"

lemmas route_defs = server_routes_def order_service_routes_def inventory_service_routes_def api_groups_def Let_def
  UserHandler_RegisterRoutes_def ProductHandler_RegisterRoutes_def InventoryHandler_RegisterRoutes_def
  OrderHandler_RegisterRoutes_def SeckillHandler_RegisterRoutes_def

definition guarded :: "string \<Rightarrow> registered \<Rightarrow> bool" where
  "guarded secret r \<longleftrightarrow>
     public_endpoint (rg_Endpoint r)
     \<or> auth_endpoint (rg_Endpoint r) \<and> rg_Handlers r = [MW_JWTAuth secret]
     \<or> admin_endpoint (rg_Endpoint r) \<and> rg_Handlers r = [MW_JWTAuth secret, MW_AdminRequired]"

lemma endpoints_sorted [simp]:
  "public_endpoint Register_user" "public_endpoint Login_user" "public_endpoint List_products"
  "public_endpoint Get_product" "public_endpoint Get_inventory" "public_endpoint (Health ms)"
  "auth_endpoint Get_profile" "auth_endpoint Update_profile" "auth_endpoint Create_order" "auth_endpoint List_orders"
  "auth_endpoint Get_order" "auth_endpoint Cancel_order" "auth_endpoint Post_seckill" "auth_endpoint Seckill_result"
  "admin_endpoint Create_product" "admin_endpoint Update_product" "admin_endpoint Delete_product"
  "admin_endpoint Set_inventory" "admin_endpoint Deduct_inventory"
  by (simp_all add: public_endpoint_def auth_endpoint_def admin_endpoint_def)

lemma handle_simps [simp]:
  "rg_Endpoint (handle g m p h) = h" "rg_Handlers (handle g m p h) = grp_handlers g"
  "grp_handlers (Group g p) = grp_handlers g" "grp_handlers (Use g mw) = grp_handlers g @ [mw]"
  "grp_handlers root_group = []"
  by (simp_all add: handle_def Group_def Use_def root_group_def)

lemma routes_guarded:
  assumes "rs \<in> router_programs cfg" "r \<in> set rs"
  shows "guarded (jwc_Secret (cfg_JWT cfg)) r"
proof -
  have "list_all (guarded (jwc_Secret (cfg_JWT cfg))) rs"
    using assms(1) unfolding router_programs_def insert_iff
    by (elim disjE emptyE) (simp_all add: route_defs guarded_def)
  then show ?thesis using assms(2) by (auto simp: list_all_iff)
qed

section \<open>A request through its route\<close>

lemma order_invariantI:
  assumes "quiet_runtime db kv log num jsonb X"
    and "\<And>d invs obs ords. P d \<Longrightarrow> P (d\<lparr>t_inventories := invs\<rparr>) \<and> P (d\<lparr>t_outbox := obs\<rparr>) \<and> P (d\<lparr>t_orders := ords\<rparr>)"
  shows "order_invariant db kv log (=) num jsonb X P"
proof -
  have "runtime db kv log (=) num jsonb X" using assms(1) by (simp add: quiet_runtime_def)
  then show ?thesis
    by (rule order_invariant.intro [OF invariant_runtime.intro]) (unfold_locales, use assms(2) in blast)+
qed

lemma serve_cases:
  assumes "serve lookup rs S rq n w = Some (reply, n', w')" "gin_router lookup" "rs \<in> router_programs cfg"
  obtains "w' = w"
  | h param c where "public_endpoint h" "run_endpoint S h c param rq n w = Some (reply, n', w')"
  | h param c where "auth_endpoint h" "run_endpoint S h c param rq n w = Some (reply, n', w')"
      "JWTAuth (sv_Parse S) (sv_uint S) (jwc_Secret (cfg_JWT cfg)) (rq_Authorization rq) = Inr c"
  | h param c where "admin_endpoint h" "run_endpoint S h c param rq n w = Some (reply, n', w')"
      "JWTAuth (sv_Parse S) (sv_uint S) (jwc_Secret (cfg_JWT cfg)) (rq_Authorization rq) = Inr c"
      "AdminRequired (sv_int16 S) c = Inr c"
proof (cases "lookup rs (rq_Method rq) (rq_Path rq)")
  case (Inl s)
  then show ?thesis using assms(1) that(1) by (simp add: serve_def)
next
  case (Inr p)
  then obtain r param where found: "lookup rs (rq_Method rq) (rq_Path rq) = Inr (r, param)" by (cases p) auto
  have "r \<in> set rs" using gin_router.lookup_law [OF assms(2) found] by simp
  then have guard: "guarded (jwc_Secret (cfg_JWT cfg)) r" by (rule routes_guarded [OF assms(3)])
  show ?thesis
  proof (cases "run_middleware S (rg_Handlers r) (rq_Authorization rq) no_keys")
    case (Inl a)
    then show ?thesis using assms(1) found that(1) by (simp add: serve_def)
  next
    case (Inr c)
    then have run: "run_endpoint S (rg_Endpoint r) c param rq n w = Some (reply, n', w')"
      using assms(1) found by (simp add: serve_def)
    have admin: "AdminRequired (sv_int16 S) k = Inr k' \<Longrightarrow> k' = k" for k k'
      by (auto simp: AdminRequired_def split: option.splits json.splits if_splits)
    show ?thesis
      using guard unfolding guarded_def
    proof (elim disjE conjE)
      assume "public_endpoint (rg_Endpoint r)"
      then show ?thesis using run by (rule that(2))
    next
      assume "auth_endpoint (rg_Endpoint r)" "rg_Handlers r = [MW_JWTAuth (jwc_Secret (cfg_JWT cfg))]"
      then show ?thesis using Inr run that(3) by (auto split: sum.splits)
    next
      assume h: "admin_endpoint (rg_Endpoint r)" "rg_Handlers r = [MW_JWTAuth (jwc_Secret (cfg_JWT cfg)), MW_AdminRequired]"
      then obtain k where "JWTAuth (sv_Parse S) (sv_uint S) (jwc_Secret (cfg_JWT cfg)) (rq_Authorization rq) = Inr k"
        "AdminRequired (sv_int16 S) k = Inr c"
        using Inr by (auto split: sum.splits)
      moreover from this(2) have "c = k" by (rule admin)
      ultimately show ?thesis using h(1) run that(4) by simp
    qed
  qed
qed

lemma endpoint_keeps:
  "keeps_maybe db P (run_endpoint S h c param rq n) \<Longrightarrow> run_endpoint S h c param rq n w = Some (reply, n', w') \<Longrightarrow>
    P (db w) \<Longrightarrow> P (db w')"
  unfolding keeps_maybe_def by blast

lemma invariant_runtimeI:
  "quiet_runtime db kv log num jsonb X \<Longrightarrow> invariant_runtime db kv log (=) num jsonb X P"
  by (rule invariant_runtime.intro) (simp_all add: quiet_runtime_def invariant_runtime_axioms_def)

context user_runtime
begin

text \<open>Without a session a request can at most add a user.\<close>

lemma public_effect:
  assumes "public_endpoint h" "run_endpoint S h c param rq n w = Some (reply, n', w')" "sv_ext S = X" "sv_auth S = A"
  shows "\<exists>us. db w' = (db w)\<lparr>t_users := t_users (db w) @ us\<rparr>"
proof -
  let ?P = "\<lambda>d. \<exists>us. d = (db w)\<lparr>t_users := t_users (db w) @ us\<rparr>"
  have "keeps db ?P (UserService_Register X (sv_auth S) req)" for req
    unfolding assms(4)
    by (rule keepsI, drule Register_result) (auto split: sum.splits)
  then have keeps: "keeps_maybe db ?P (run_endpoint S h c param rq n)"
    by (rule invariant_runtime.public_endpoints [OF invariant_runtimeI [OF quiet_runtime_axioms] _ assms(3)])
      (use assms(1) in \<open>simp add: public_endpoint_def\<close>)
  have "?P (db w)" by (rule exI [of _ "[]"]) simp
  with endpoint_keeps [OF keeps assms(2)] show ?thesis .
qed

text \<open>Nobody becomes an administrator by a request.\<close>

lemma administrators_effect:
  assumes "run_endpoint S h c param rq n w = Some (reply, n', w')" "sv_ext S = X" "sv_auth S = A"
  shows "administrators (db w') \<subseteq> administrators (db w)"
proof -
  let ?P = "\<lambda>d. administrators d \<subseteq> administrators (db w)"
  have inv: "order_invariant db kv log (=) num jsonb X ?P" by (rule order_invariantI [OF quiet_runtime_axioms]) simp
  have register: "keeps db ?P (UserService_Register X (sv_auth S) req)" for req
    unfolding assms(3) by (rule keepsI, drule Register_administrators) simp
  have profile: "keeps db ?P (UserService_UpdateProfile (users_tbl X) i req)" for i req
    by (rule keepsI, drule UpdateProfile_administrators) simp
  have keeps: "keeps_maybe db ?P (run_endpoint S h c param rq n)"
  proof (cases h)
  qed (rule invariant_runtime.public_endpoints [OF invariant_runtimeI [OF quiet_runtime_axioms] register assms(2)]
         order_invariant.auth_endpoints [OF inv profile assms(2)] order_invariant.admin_endpoints [OF inv _ assms(2)]; simp)+
  show ?thesis by (rule endpoint_keeps [OF keeps assms(1)]) simp
qed

text \<open>Without an administrator's session no product changes.\<close>

lemma products_effect:
  assumes "public_endpoint h \<or> auth_endpoint h" "run_endpoint S h c param rq n w = Some (reply, n', w')"
    and "sv_ext S = X" "sv_auth S = A"
  shows "t_products (db w') = t_products (db w)"
proof -
  let ?P = "\<lambda>d. t_products d = t_products (db w)"
  have inv: "order_invariant db kv log (=) num jsonb X ?P" by (rule order_invariantI [OF quiet_runtime_axioms]) simp
  have base: "invariant_runtime db kv log (=) num jsonb X ?P" by (rule invariant_runtimeI [OF quiet_runtime_axioms])
  have register: "keeps db ?P (UserService_Register X (sv_auth S) req)" for req
    unfolding assms(4) by (rule invariant_runtime.keeps_register [OF base password_library_axioms]) simp
  have profile: "keeps db ?P (UserService_UpdateProfile (users_tbl X) i req)" for i req
    by (rule invariant_runtime.keeps_update_profile [OF base]) simp
  from assms(1) have keeps: "keeps_maybe db ?P (run_endpoint S h c param rq n)"
    by (elim disjE) (rule invariant_runtime.public_endpoints [OF base register assms(3)]
        order_invariant.auth_endpoints [OF inv profile assms(3)]; simp add: public_endpoint_def auth_endpoint_def)+
  show ?thesis by (rule endpoint_keeps [OF keeps assms(2)]) simp
qed

end

section \<open>Property\<close>

text \<open>C11: a request cannot exceed the rights of its session, in any of the three programs. Whatever the
  request is, it makes nobody an administrator; without a token that the middleware accepts it can
  at most add one's own registration to the database, and without one whose role is 1 it changes
  no product.\<close>

theorem requests_stay_within_rights:
  assumes "quiet_runtime db kv log num jsonb (sv_ext S)"
    and "password_library (\<lambda>w. (db w, kv w, log w)) (sv_auth S)" "gin_router lookup"
    and "rs \<in> router_programs cfg" "serve lookup rs S rq n w = Some (reply, n', w')"
  shows "administrators (db w') \<subseteq> administrators (db w) \<and>
    (case JWTAuth (sv_Parse S) (sv_uint S) (jwc_Secret (cfg_JWT cfg)) (rq_Authorization rq) of
       Inl _ \<Rightarrow> \<exists>us. db w' = (db w)\<lparr>t_users := t_users (db w) @ us\<rparr>
     | Inr c \<Rightarrow> AdminRequired (sv_int16 S) c = Inr c \<or> t_products (db w') = t_products (db w))"
proof -
  have users: "user_runtime db kv log num jsonb (sv_ext S) (sv_auth S)" by (rule user_runtime.intro [OF assms(1,2)])
  note effects = user_runtime.administrators_effect [OF users _ refl refl] user_runtime.products_effect [OF users _ _ refl refl]
    user_runtime.public_effect [OF users _ _ refl refl]
  have same: "\<exists>us. db w = (db w)\<lparr>t_users := t_users (db w) @ us\<rparr>" by (rule exI [of _ "[]"]) simp
  show ?thesis
  proof (rule serve_cases [OF assms(5,3,4)])
    assume "w' = w"
    then show ?thesis by (auto split: sum.split intro: same)
  next
    fix h param c
    assume "public_endpoint h" "run_endpoint S h c param rq n w = Some (reply, n', w')"
    then show ?thesis using effects(1) effects(2) [OF disjI1] effects(3) by (simp split: sum.split)
  next
    fix h param c
    assume "auth_endpoint h" "run_endpoint S h c param rq n w = Some (reply, n', w')"
      "JWTAuth (sv_Parse S) (sv_uint S) (jwc_Secret (cfg_JWT cfg)) (rq_Authorization rq) = Inr c"
    then show ?thesis using effects(1) effects(2) [OF disjI2] by simp
  next
    fix h param c
    assume "run_endpoint S h c param rq n w = Some (reply, n', w')"
      "JWTAuth (sv_Parse S) (sv_uint S) (jwc_Secret (cfg_JWT cfg)) (rq_Authorization rq) = Inr c"
      "AdminRequired (sv_int16 S) c = Inr c"
    then show ?thesis using effects(1) by simp
  qed
qed

section \<open>A reference router\<close>

text \<open>Patterns and paths by segment; a segment of a pattern that begins with a colon binds one that is not empty.\<close>

fun segments :: "string \<Rightarrow> string list" where
  "segments [] = [[]]"
| "segments (c # cs) = (if c = CHR ''/'' then [] # segments cs
     else (case segments cs of [] \<Rightarrow> [[c]] | s # ss \<Rightarrow> (c # s) # ss))"

fun match_segments :: "string list \<Rightarrow> string list \<Rightarrow> (string \<times> string) list option" where
  "match_segments [] [] = Some []"
| "match_segments (p # ps) (s # ss) =
     (case p of
        c # name \<Rightarrow>
          (if c = CHR '':'' then (if s = [] then None else map_option ((#) (name, s)) (match_segments ps ss))
           else if p = s then match_segments ps ss else None)
      | [] \<Rightarrow> (if s = [] then match_segments ps ss else None))"
| "match_segments _ _ = None"

definition mem_lookup :: router where
  "mem_lookup rs m path =
     (case find (\<lambda>r. rg_Method r = m \<and> match_segments (segments (rg_Pattern r)) (segments path) \<noteq> None) rs of
        None \<Rightarrow> Inl 404
      | Some r \<Rightarrow>
          Inr (r, \<lambda>k. case match_segments (segments (rg_Pattern r)) (segments path) of
                         None \<Rightarrow> ''''
                       | Some ps \<Rightarrow> (case map_of ps k of None \<Rightarrow> '''' | Some v \<Rightarrow> v)))"

lemma mem_gin: "gin_router mem_lookup"
  by unfold_locales (auto simp: mem_lookup_def find_Some_iff split: option.splits)

interpretation gin: gin_router mem_lookup
  by (rule mem_gin)

section \<open>Witnesses\<close>

text \<open>A customer in the shop with one product; bodies are a fixed order request.\<close>

definition demo_customer :: User where
  "demo_customer = demo_admin\<lparr>usr_ID := 101, usr_Role := 0\<rparr>"

definition demo_services :: "(unit mem, unit) services" where
  "demo_services =
     \<lparr>sv_ext = demo_ext False, sv_auth = mem_auth, sv_user = NewUserService ''s'' 24, sv_Parse = mem_Parse 0,
      sv_uint = (\<lambda>_. 0), sv_int16 = (\<lambda>_. 0), sv_email = (\<lambda>_. True),
      as_RegisterRequest = (\<lambda>_. Inl (ErrExternal ''EOF'')), as_LoginRequest = (\<lambda>_. Inr demo_login),
      as_UpdateProfileRequest = (\<lambda>_. Inl (ErrExternal ''EOF'')), as_CreateProductRequest = (\<lambda>_. Inl (ErrExternal ''EOF'')),
      as_UpdateProductRequest = (\<lambda>_. Inl (ErrExternal ''EOF'')), as_SetInventoryRequest = (\<lambda>_. Inl (ErrExternal ''EOF'')),
      as_DeductRequest = (\<lambda>_. Inl (ErrExternal ''EOF'')), as_CreateOrderRequest = (\<lambda>_. Inr (demo_request 2))\<rparr>"

definition demo_bearer :: "User \<Rightarrow> string" where
  "demo_bearer u = ''Bearer '' @
     (case mem_SignedString (user_claims (NewUserService ''s'' 24) u (62135596800 * 1000000000) 0) ''s'' of
        Inl _ \<Rightarrow> '''' | Inr tok \<Rightarrow> tok)"

definition demo_http :: "string \<Rightarrow> string \<Rightarrow> string \<Rightarrow> unit http_request" where
  "demo_http m path hdr = \<lparr>rq_Method = m, rq_Path = path, rq_Authorization = hdr, rq_Query = (\<lambda>_. None), rq_Body = ()\<rparr>"

lemma demo_services_ext [simp]: "sv_ext demo_services = demo_ext False" "sv_auth demo_services = mem_auth"
  by (simp_all add: demo_services_def)

lemma demo_mall_admins: "administrators (mem_db (demo_mall 1)) = {}"
  by (simp add: administrators_def demo_mall_def mem_empty_def)

lemma demo_bearer_accepted:
  assumes "usr_ID u < 2 ^ 53"
  shows "JWTAuth (sv_Parse demo_services) (sv_uint demo_services) ''s'' (demo_bearer u) = Inr (session_of u)"
proof -
  let ?s = "NewUserService ''s'' 24" and ?t = "62135596800 * 1000000000"
  obtain tok where tok: "jwt_SignedString mem_auth (user_claims ?s u ?t 0) ''s'' = Inr tok"
    using jwt.user_claims_signed by blast
  have "us_jwtSecret ?s = ''s''" "Unix (?t + us_jwtExpire ?s) = 86400"
    by (simp_all add: NewUserService_def Unix_def hour_def wrap64_def)
  with jwt.generateToken_accepted [of ?s u ?t 0 tok 0 "\<lambda>_. 0"] tok assms
  show ?thesis by (simp add: demo_bearer_def demo_services_def mem_auth_def)
qed

lemma demo_customer_session:
  "usr_ID demo_customer < 2 ^ 53" "AdminRequired (sv_int16 demo_services) (session_of demo_customer) = Inl (Forbidden ''admin access required'')"
  using session_admin [of demo_customer] by (simp_all add: demo_customer_def demo_admin_def)

lemma demo_secret: "jwc_Secret (cfg_JWT demo_config) = ''s''"
  by (simp add: demo_config_def)

text \<open>A customer is refused the deletion of a product.\<close>

theorem requests_stay_within_rights_witness:
  "\<exists>res n' w'. serve mem_lookup (server_routes demo_config) demo_services
       (demo_http ''DELETE'' ''/api/v1/products/1'' (demo_bearer demo_customer)) demo_node (demo_mall 1)
       = Some (Json (403, res), n', w')
     \<and> t_products (mem_db w') = t_products (mem_db (demo_mall 1)) \<and> administrators (mem_db w') = {}"
proof -
  let ?rq = "demo_http ''DELETE'' ''/api/v1/products/1'' (demo_bearer demo_customer)"
  let ?run = "serve mem_lookup (server_routes demo_config) demo_services ?rq demo_node (demo_mall 1)"
  have "case mem_lookup (server_routes demo_config) ''DELETE'' ''/api/v1/products/1'' of
      Inr (r, param) \<Rightarrow> rg_Handlers r = [MW_JWTAuth ''s'', MW_AdminRequired] | _ \<Rightarrow> False" by code_simp
  then obtain r param where route: "mem_lookup (server_routes demo_config) ''DELETE'' ''/api/v1/products/1'' = Inr (r, param)"
    "rg_Handlers r = [MW_JWTAuth ''s'', MW_AdminRequired]"
    by (auto split: sum.splits)
  note accepted = demo_bearer_accepted [OF demo_customer_session(1)]
  from route obtain res n' w' where run: "?run = Some (Json (403, res), n', w')"
    by (simp add: serve_def demo_http_def accepted demo_customer_session(2) Forbidden_def Error_response_def as_data_def)
  have auth: "JWTAuth (sv_Parse demo_services) (sv_uint demo_services) (jwc_Secret (cfg_JWT demo_config)) (rq_Authorization ?rq)
      = Inr (session_of demo_customer)"
    by (simp add: demo_secret demo_http_def accepted)
  have wired: "quiet_runtime mem_db mem_kv mem_log (\<lambda>x. x) (\<lambda>j. j) (sv_ext demo_services)"
    "password_library (\<lambda>w. (mem_db w, mem_kv w, mem_log w)) (sv_auth demo_services)"
    "server_routes demo_config \<in> router_programs demo_config"
    using demo_quiet mem_passwords by (simp_all add: router_programs_def)
  from requests_stay_within_rights [OF wired(1,2) mem_gin wired(3) run]
  have "administrators (mem_db w') \<subseteq> administrators (mem_db (demo_mall 1))" "t_products (mem_db w') = t_products (mem_db (demo_mall 1))"
    unfolding auth using demo_customer_session(2) by simp_all
  then show ?thesis using run demo_mall_admins by auto
qed

section \<open>From the login to the order\<close>

definition placing_endpoint :: "endpoint \<Rightarrow> bool" where
  "placing_endpoint h \<longleftrightarrow> h \<in> {Register_user, Login_user, Create_product, Deduct_inventory, Create_order, Post_seckill}"

lemma posted_endpoints:
  assumes "rs \<in> router_programs cfg" "r \<in> set rs" "rg_Method r = ''POST''"
  shows "placing_endpoint (rg_Endpoint r)"
proof -
  have "list_all (\<lambda>r. rg_Method r = ''POST'' \<longrightarrow> placing_endpoint (rg_Endpoint r)) rs"
    using assms(1) unfolding router_programs_def insert_iff
    by (elim disjE emptyE) (simp_all add: route_defs placing_endpoint_def, simp_all add: handle_def)
  then show ?thesis using assms(2,3) by (auto simp: list_all_iff)
qed

lemma posted_order:
  assumes "run_endpoint S h c param rq n w = Some (Json (status, res), n', w')" "placing_endpoint h"
    and "res_Data res = Some (D_Order od)"
  shows "h = Create_order \<and> (\<exists>res'. res_Data res' = Some od \<and>
    OrderHandler_CreateOrder (sv_ext S) n c (as_CreateOrderRequest S (rq_Body rq)) w = Some ((status, res'), n', w'))"
  using assms unfolding placing_endpoint_def insert_iff
  by (elim disjE emptyE) (auto simp: respond_def respond_generating_def as_data_def split: prod.splits option.splits)

lemma login_session:
  assumes "quiet_runtime db kv log num jsonb X" "token_library A parse" "UserService_Login X A s req v = (Inr resp, v')"
    and "now < Unix (login_time X req v + us_jwtExpire s)" "0 \<le> Unix (login_time X req v + us_jwtExpire s)"
      "Unix (login_time X req v + us_jwtExpire s) < 2 ^ 53" "usr_ID (lp_User resp) < 2 ^ 53"
  shows "JWTAuth (parse now) impl (us_jwtSecret s) (''Bearer '' @ lp_Token resp) = Inr (session_of (lp_User resp))"
proof -
  obtain t where tok: "jwt_SignedString A (user_claims s (lp_User resp) (login_time X req v) t) (us_jwtSecret s) = Inr (lp_Token resp)"
    by (rule quiet_runtime.Login_success [OF assms(1,3)]) simp
  show ?thesis by (rule token_library.generateToken_accepted [OF assms(2) tok assms(7,4-6)])
qed

text \<open>C13: a token buys for the user it was issued to. With the token of a successful login, until it expires, a
  POST that any of the programs answers with an order has placed exactly that order for the user who
  logged in: the product was on sale, the stock is reserved, and nothing else has changed in the
  database.\<close>

theorem token_orders_for_its_owner:
  assumes "quiet_runtime db kv log num jsonb (sv_ext S)" "token_library (sv_auth S) parse" "gin_router lookup"
    and "sv_Parse S = parse now" "sv_user S = NewUserService (jwc_Secret (cfg_JWT cfg)) (jwc_ExpireHours (cfg_JWT cfg))"
    and "UserService_Login (sv_ext S) (sv_auth S) (sv_user S) req v = (Inr resp, v')"
    and "expiry = Unix (login_time (sv_ext S) req v + us_jwtExpire (sv_user S))" "now < expiry" "0 \<le> expiry" "expiry < 2 ^ 53"
    and "usr_ID (lp_User resp) < 2 ^ 53"
    and "rs \<in> router_programs cfg" "inv_keys (db w)" "rq_Method rq = ''POST''"
    and "rq_Authorization rq = ''Bearer '' @ lp_Token resp"
    and "serve lookup rs S rq n w = Some (Json (status, res), n', w')" "res_Data res = Some (D_Order od)"
  shows "\<exists>oreq. as_CreateOrderRequest S (rq_Body rq) = Inr oreq
    \<and> order_placed num (usr_ID (lp_User resp)) oreq (db w) (db w') od"
proof -
  have session: "JWTAuth (sv_Parse S) (sv_uint S) (jwc_Secret (cfg_JWT cfg)) (rq_Authorization rq) = Inr (session_of (lp_User resp))"
    using login_session [OF assms(1,2,6), of now "sv_uint S"] assms(4,5,7-11,15) by (simp add: NewUserService_def)
  obtain r param where found: "lookup rs (rq_Method rq) (rq_Path rq) = Inr (r, param)"
    using assms(16) by (auto simp: serve_def split: sum.splits)
  have r: "r \<in> set rs" "rg_Method r = ''POST''" using gin_router.lookup_law [OF assms(3) found] assms(14) by simp_all
  note guard = routes_guarded [OF assms(12) r(1)] and posted = posted_endpoints [OF assms(12) r]
  obtain c where mw: "run_middleware S (rg_Handlers r) (rq_Authorization rq) no_keys = Inr c"
    using assms(16,17) found by (auto simp: serve_def as_data_def split: sum.splits)
  then have "run_endpoint S (rg_Endpoint r) c param rq n w = Some (Json (status, res), n', w')"
    using assms(16) found by (simp add: serve_def)
  from posted_order [OF this posted assms(17)] obtain res' where h: "rg_Endpoint r = Create_order"
    and res': "res_Data res' = Some od"
      "OrderHandler_CreateOrder (sv_ext S) n c (as_CreateOrderRequest S (rq_Body rq)) w = Some ((status, res'), n', w')"
    by auto
  have "c = session_of (lp_User resp)"
    using guard h mw session by (auto simp: guarded_def public_endpoint_def admin_endpoint_def)
  with quiet_runtime.create_answer [OF assms(1) res'(2) assms(13)] res'(1)
  show ?thesis by (auto simp: session_of_def split: if_splits)
qed

text \<open>The customer logs in and orders two pieces of the product.\<close>

definition demo_market :: "unit mem" where
  "demo_market = (demo_mall 1)\<lparr>mem_db := (mem_db (demo_mall 1))\<lparr>t_users := [demo_customer]\<rparr>\<rparr>"

theorem token_orders_for_its_owner_witness:
  "\<exists>tok v' res n' w' od. UserService_Login (demo_ext False) mem_auth (NewUserService ''s'' 24) demo_login demo_market
       = (Inr \<lparr>lp_Token = tok, lp_User = demo_customer\<rparr>, v')
     \<and> serve mem_lookup (server_routes demo_config) demo_services (demo_http ''POST'' ''/api/v1/orders'' (''Bearer '' @ tok))
         demo_node demo_market = Some (Json (200, res), n', w')
     \<and> res_Data res = Some (D_Order od) \<and> ord_UserID od = 101 \<and> stock_of (mem_db w') = [1 \<mapsto> (8, 2)]"
proof -
  let ?X = "demo_ext False" and ?s = "NewUserService ''s'' 24" and ?u = demo_customer
  obtain r v' where "UserService_Login ?X mem_auth ?s demo_login demo_market = (r, v')" by fastforce
  moreover from reliable_runtime.Login_reliable [OF demo_reliable this mem_tokens, of ?u]
  obtain tok where "r = Inr \<lparr>lp_Token = tok, lp_User = ?u\<rparr>"
    by (auto simp: demo_market_def demo_customer_def demo_admin_def demo_login_def mem_auth_def mem_Compare_def)
  ultimately have login: "UserService_Login (sv_ext demo_services) (sv_auth demo_services) (sv_user demo_services) demo_login demo_market
      = (Inr \<lparr>lp_Token = tok, lp_User = ?u\<rparr>, v')" by (simp add: demo_services_def)
  have expiry: "1704153600 = Unix (login_time (sv_ext demo_services) demo_login demo_market + us_jwtExpire (sv_user demo_services))"
    by code_simp
  let ?rq = "demo_http ''POST'' ''/api/v1/orders'' (''Bearer '' @ tok)"
  have "case mem_lookup (server_routes demo_config) ''POST'' ''/api/v1/orders'' of
      Inr (r, param) \<Rightarrow> rg_Handlers r = [MW_JWTAuth ''s''] \<and> rg_Endpoint r = Create_order | _ \<Rightarrow> False" by code_simp
  then obtain r param where route: "mem_lookup (server_routes demo_config) ''POST'' ''/api/v1/orders'' = Inr (r, param)"
    "rg_Handlers r = [MW_JWTAuth ''s'']" "rg_Endpoint r = Create_order"
    by (auto split: sum.splits)
  have "case OrderHandler_CreateOrder ?X demo_node (session_of ?u) (Inr (demo_request 2)) demo_market of None \<Rightarrow> False
    | Some ((status, res), n, w) \<Rightarrow> status = 200 \<and> (case res_Data res of None \<Rightarrow> False | Some od \<Rightarrow> True)" by code_simp
  then obtain res od n' w' where made: "OrderHandler_CreateOrder ?X demo_node (session_of ?u) (Inr (demo_request 2)) demo_market
      = Some ((200, res), n', w')" "res_Data res = Some od"
    by (auto split: option.splits prod.splits)
  have small: "usr_ID (lp_User \<lparr>lp_Token = tok, lp_User = ?u\<rparr>) < 2 ^ 53" using demo_customer_session(1) by simp
  have session: "JWTAuth (mem_Parse 0) (\<lambda>_. 0) ''s'' (''Bearer '' @ tok) = Inr (session_of ?u)"
    using login_session [OF demo_quiet mem_tokens login [unfolded demo_services_ext], of 0 "\<lambda>_. 0"] expiry small
    by (simp add: demo_services_def NewUserService_def)
  then have run: "serve mem_lookup (server_routes demo_config) demo_services ?rq demo_node demo_market
      = Some (Json (as_data D_Order (200, res)), n', w')"
    using route made by (simp add: serve_def demo_http_def demo_services_def respond_generating_def)
  have wired: "quiet_runtime mem_db mem_kv mem_log (\<lambda>x. x) (\<lambda>j. j) (sv_ext demo_services)"
    "token_library (sv_auth demo_services) mem_Parse" "sv_Parse demo_services = mem_Parse 0"
    "sv_user demo_services = NewUserService (jwc_Secret (cfg_JWT demo_config)) (jwc_ExpireHours (cfg_JWT demo_config))"
    "server_routes demo_config \<in> router_programs demo_config" "inv_keys (mem_db demo_market)" "stock_of (mem_db demo_market) = [1 \<mapsto> (10, 0)]"
    using demo_quiet mem_tokens demo_mall_keys [of 1]
    by (simp_all add: demo_services_def demo_config_def router_programs_def demo_market_def inv_keys_def stock_of_def)
  obtain res1 where res1: "as_data D_Order (200, res) = (200, res1)" "res_Data res1 = Some (D_Order od)"
    using made(2) by (simp add: as_data_def)
  from token_orders_for_its_owner [OF wired(1,2) mem_gin wired(3,4) login expiry _ _ _ small wired(5,6) _ _ run [unfolded res1(1)] res1(2)]
  have "order_placed (\<lambda>x. x) 101 (demo_request 2) (mem_db demo_market) (mem_db w') od"
    by (simp add: demo_http_def demo_services_def demo_customer_def)
  then have "ord_UserID od = 101" "reserve 1 2 [1 \<mapsto> (10, 0)] = Some (stock_of (mem_db w'))"
    unfolding order_placed_def wired(7) by (simp_all add: demo_request_def)
  then show ?thesis
    using login run [unfolded res1(1)] res1(2) by (auto simp: reserve_def demo_services_def)
qed

section \<open>An empty secret\<close>

text \<open>C12: a program whose configuration has no JWT secret can be entered by anybody. The configuration of the
  inventory service as shipped has none, and the middleware takes the empty key: at any time there is
  a token, signed with the empty key, with which a request passes the middleware of every route of
  that program, the administrators' routes included.\<close>

theorem empty_secret_admits_forged_tokens:
  assumes "token_library (sv_auth S) parse" "sv_Parse S = parse now" "0 \<le> now" "now + 1 < 2 ^ 53"
    and "jwc_Secret (cfg_JWT cfg) = ''''"
  shows "\<exists>claims tok. jwt_SignedString (sv_auth S) claims '''' = Inr tok
    \<and> (\<forall>r\<in>set (inventory_service_routes cfg). \<exists>c. run_middleware S (rg_Handlers r) (''Bearer '' @ tok) no_keys = Inr c)"
proof -
  let ?s = "\<lparr>us_jwtSecret = '''', us_jwtExpire = 0\<rparr>" and ?u = "demo_admin" and ?t = "(now + 1 + 62135596800) * 1000000000"
  obtain tok where tok: "jwt_SignedString (sv_auth S) (user_claims ?s ?u ?t ?t) (us_jwtSecret ?s) = Inr tok"
    using token_library.user_claims_signed [OF assms(1)] by blast
  have "Unix (?t + us_jwtExpire ?s) = now + 1" by (simp add: Unix_def)
  with token_library.generateToken_accepted [OF assms(1) tok, of now "sv_uint S"] assms(2-4)
  have session: "JWTAuth (sv_Parse S) (sv_uint S) '''' (''Bearer '' @ tok) = Inr (session_of ?u)"
    by (simp add: demo_admin_def)
  have admin: "AdminRequired (sv_int16 S) (session_of ?u) = Inr (session_of ?u)"
    using session_admin [of ?u] by (simp add: demo_admin_def)
  have "\<forall>r\<in>set (inventory_service_routes cfg). \<exists>c. run_middleware S (rg_Handlers r) (''Bearer '' @ tok) no_keys = Inr c"
    using assms(5) session admin
    by (simp add: inventory_service_routes_def api_groups_def Let_def InventoryHandler_RegisterRoutes_def)
  then show ?thesis using tok by auto
qed

theorem empty_secret_admits_forged_tokens_witness:
  "\<exists>tok. \<forall>r\<in>set (inventory_service_routes (demo_config\<lparr>cfg_JWT := \<lparr>jwc_Secret = '''', jwc_ExpireHours = 0\<rparr>\<rparr>)).
     \<exists>c. run_middleware demo_services (rg_Handlers r) (''Bearer '' @ tok) no_keys = Inr c"
proof -
  have "token_library (sv_auth demo_services) mem_Parse" "sv_Parse demo_services = mem_Parse 0"
    using mem_tokens by (simp_all add: demo_services_def)
  from empty_secret_admits_forged_tokens [OF this,
      of "demo_config\<lparr>cfg_JWT := \<lparr>jwc_Secret = '''', jwc_ExpireHours = 0\<rparr>\<rparr>"]
  show ?thesis by auto
qed

end
