(* ===== verification/Programs.thy ===== *)
theory Programs
  imports Kafka_Consumer Consumers Server Snowflake
begin

text \<open>
  The main functions of \<^verbatim>\<open>cmd/server\<close>, \<^verbatim>\<open>cmd/order-service\<close>, \<^verbatim>\<open>cmd/inventory-service\<close> and
  \<^verbatim>\<open>cmd/payment-service\<close>, up to the call of \<^verbatim>\<open>r.Run\<close> and from its return on. A \<open>program\<close> is what serves
  and what runs in goroutines by then; \<open>ext_of\<close> gives the services' calls of the database, of Redis and of
  Kafka for the handles that have been opened. The calls to be made when \<^verbatim>\<open>main\<close> returns are a list, the
  latest first.
\<close>

section \<open>Programs\<close>

datatype deferred =
    Close_redis handle
  | Close_producer "handle \<times> Producer"
  | Cancel_context
  | Close_group handle
  | Deregister_service "Client option \<times> bool"

record 'w program =
  pg_runtime :: "'w ext"
  pg_node :: "Node option"
  pg_users :: "UserService option"
  pg_payments :: "Service option"
  pg_routes :: "registered list"
  pg_relay :: "Relay option"
  pg_consumers :: "'w Consumer list"
  pg_boot :: "Client option \<times> bool"
  pg_deferred :: "deferred list"

text \<open>\<^verbatim>\<open>log.Fatalf\<close> with the text and the error; otherwise \<^verbatim>\<open>main\<close> goes on.\<close>

definition or_fatal ::
    "string \<Rightarrow> (go_error + 'a) \<times> 'w \<Rightarrow> ('a \<Rightarrow> 'w \<Rightarrow> (string + 'b) \<times> 'w) \<Rightarrow> (string + 'b) \<times> 'w" where
  "or_fatal msg r k = (case r of (Inl err, w) \<Rightarrow> (Inl (msg @ '': '' @ error_text err), w) | (Inr x, w) \<Rightarrow> k x w)"

text \<open>The loop over the consumer groups, with their group, topic and handler: a failure is logged and skipped.\<close>

fun start_consumers ::
    "'w platform \<Rightarrow> string list \<Rightarrow> (string \<times> string \<times> (string \<Rightarrow> json \<Rightarrow> 'w \<Rightarrow> (go_error + unit) \<times> 'w)) list \<Rightarrow> 'w \<Rightarrow>
      'w Consumer list \<times> 'w" where
  "start_consumers P brokers [] w = ([], w)"
| "start_consumers P brokers ((groupID, topic, handler) # groups) w =
     (case NewConsumer P brokers groupID topic handler w of
        (Inl _, w1) \<Rightarrow> start_consumers P brokers groups w1
      | (Inr c, w1) \<Rightarrow> (case start_consumers P brokers groups w1 of (cs, w2) \<Rightarrow> (c # cs, w2)))"

definition order_groups :: "'w ext \<Rightarrow> Config \<Rightarrow> (string \<times> string \<times> (string \<Rightarrow> json \<Rightarrow> 'w \<Rightarrow> (go_error + unit) \<times> 'w)) list" where
  "order_groups X cfg =
     concat (map (\<lambda>cg.
       if cg_Topic cg = ''inventory-events'' then [(cg_GroupID cg, cg_Topic cg, HandleInventoryEvent X)]
       else if cg_Topic cg = ''payment-events'' then [(cg_GroupID cg, cg_Topic cg, HandlePaymentEvent X)]
       else []) (kc_ConsumerGroups (cfg_Kafka cfg)))"

definition inventory_groups :: "'w ext \<Rightarrow> Config \<Rightarrow> (string \<times> string \<times> (string \<Rightarrow> json \<Rightarrow> 'w \<Rightarrow> (go_error + unit) \<times> 'w)) list" where
  "inventory_groups X cfg = map (\<lambda>cg. (cg_GroupID cg, cg_Topic cg, HandleOrderEvent X)) (kc_ConsumerGroups (cfg_Kafka cfg))"

definition payment_groups ::
    "'w ext \<Rightarrow> Service \<Rightarrow> Config \<Rightarrow> (string \<times> string \<times> (string \<Rightarrow> json \<Rightarrow> 'w \<Rightarrow> (go_error + unit) \<times> 'w)) list" where
  "payment_groups X s cfg =
     map (\<lambda>cg. (cg_GroupID cg, cg_Topic cg, PaymentService_HandleOrderEvent X s)) (kc_ConsumerGroups (cfg_Kafka cfg))"

definition close_groups :: "'w Consumer list \<Rightarrow> deferred list" where
  "close_groups consumers = map (\<lambda>c. Close_group (cs_group c)) (rev consumers)"

section \<open>The four programs\<close>

definition start_order_service ::
    "'w platform \<Rightarrow> 'w viper \<Rightarrow> 'w nacos_sdk \<Rightarrow> (handle \<Rightarrow> handle option \<Rightarrow> handle option \<Rightarrow> 'w ext) \<Rightarrow> 'w \<Rightarrow>
      (string + 'w program) \<times> 'w" where
  "start_order_service P V N ext_of w =
     or_fatal ''Failed to load config'' (LoadConfig V ''config/config.yaml'' w) (\<lambda>cfg w1.
     or_fatal ''Failed to connect to database''
       (NewPostgresWithReplicas P (DSN (cfg_Database cfg)) (ReplicaDSNs (cfg_Database cfg)) w1) (\<lambda>db w2.
     case NewRedisClient P (cfg_Redis cfg) w2 of (redis, w3) \<Rightarrow>
     or_fatal ''Failed to auto migrate''
       (gorm_AutoMigrate P db [''users'', ''products'', ''orders'', ''outbox_events''] w3) (\<lambda>_ w4.
     or_fatal ''Failed to create snowflake node'' (NewNode (word_of_int (sfc_NodeID (cfg_Snowflake cfg))), w4) (\<lambda>sfNode w5.
     or_fatal ''Failed to create Kafka producer''
       (NewProducer P (kc_Brokers (cfg_Kafka cfg)) (kc_ProduceTopic (cfg_Kafka cfg)) w5) (\<lambda>producer w6.
     let X = ext_of db (Some redis) (Some (fst producer)) in
     case start_consumers P (kc_Brokers (cfg_Kafka cfg)) (order_groups X cfg) w6 of (consumers, w7) \<Rightarrow>
     case BootstrapService N cfg w7 of (boot, w8) \<Rightarrow>
       (Inr \<lparr>pg_runtime = X, pg_node = Some sfNode,
             pg_users = Some (NewUserService (jwc_Secret (cfg_JWT cfg)) (jwc_ExpireHours (cfg_JWT cfg))),
             pg_payments = None, pg_routes = order_service_routes cfg, pg_relay = Some (NewRelay (outbox_interval cfg)),
             pg_consumers = consumers, pg_boot = boot,
             pg_deferred = Deregister_service boot # close_groups consumers
               @ [Cancel_context, Close_producer producer, Close_redis redis]\<rparr>, w8))))))"

definition start_inventory_service ::
    "'w platform \<Rightarrow> 'w viper \<Rightarrow> 'w nacos_sdk \<Rightarrow> (handle \<Rightarrow> handle option \<Rightarrow> handle option \<Rightarrow> 'w ext) \<Rightarrow> 'w \<Rightarrow>
      (string + 'w program) \<times> 'w" where
  "start_inventory_service P V N ext_of w =
     or_fatal ''Failed to load config'' (LoadConfig V ''config/config.yaml'' w) (\<lambda>cfg w1.
     or_fatal ''Failed to connect to database'' (NewPostgres P (DSN (cfg_Database cfg)) w1) (\<lambda>db w2.
     case NewRedisClient P (cfg_Redis cfg) w2 of (redis, w3) \<Rightarrow>
     or_fatal ''Failed to auto migrate'' (gorm_AutoMigrate P db [''inventories'', ''outbox_events''] w3) (\<lambda>_ w4.
     or_fatal ''Failed to create Kafka producer''
       (NewProducer P (kc_Brokers (cfg_Kafka cfg)) (kc_ProduceTopic (cfg_Kafka cfg)) w4) (\<lambda>producer w5.
     let X = ext_of db (Some redis) (Some (fst producer)) in
     case start_consumers P (kc_Brokers (cfg_Kafka cfg)) (inventory_groups X cfg) w5 of (consumers, w6) \<Rightarrow>
     case BootstrapService N cfg w6 of (boot, w7) \<Rightarrow>
       (Inr \<lparr>pg_runtime = X, pg_node = None, pg_users = None, pg_payments = None, pg_routes = inventory_service_routes cfg,
             pg_relay = Some (NewRelay (outbox_interval cfg)), pg_consumers = consumers, pg_boot = boot,
             pg_deferred = Deregister_service boot # close_groups consumers
               @ [Cancel_context, Close_producer producer, Close_redis redis]\<rparr>, w7)))))"

text \<open>The payment service keeps the success rate of the start here; later changes are \<open>on_config_change\<close>.\<close>

definition start_payment_service ::
    "'w platform \<Rightarrow> 'w viper \<Rightarrow> 'w nacos_sdk \<Rightarrow> (handle \<Rightarrow> handle option \<Rightarrow> handle option \<Rightarrow> 'w ext) \<Rightarrow> 'w \<Rightarrow>
      (string + 'w program) \<times> 'w" where
  "start_payment_service P V N ext_of w =
     or_fatal ''Failed to load config'' (LoadConfig V ''config/config.yaml'' w) (\<lambda>cfg w1.
     or_fatal ''Failed to connect to database'' (NewPostgres P (DSN (cfg_Database cfg)) w1) (\<lambda>db w2.
     or_fatal ''Failed to auto migrate'' (gorm_AutoMigrate P db [''payments'', ''outbox_events''] w2) (\<lambda>_ w3.
     or_fatal ''Failed to create Kafka producer''
       (NewProducer P (kc_Brokers (cfg_Kafka cfg)) (kc_ProduceTopic (cfg_Kafka cfg)) w3) (\<lambda>producer w4.
     let X = ext_of db None (Some (fst producer));
         s = NewPaymentService (startup_rate (pc_SuccessRate (cfg_Payment cfg))) in
     case start_consumers P (kc_Brokers (cfg_Kafka cfg)) (payment_groups X s cfg) w4 of (consumers, w5) \<Rightarrow>
     case payment_startup N cfg w5 of ((s', boot, item), w6) \<Rightarrow>
       (Inr \<lparr>pg_runtime = X, pg_node = None, pg_users = None, pg_payments = Some s',
             pg_routes = [handle root_group ''GET'' ''/health'' (Health [(''status'', ''ok''), (''service'', ''payment-service'')])],
             pg_relay = Some (NewRelay (outbox_interval cfg)), pg_consumers = consumers, pg_boot = boot,
             pg_deferred = Deregister_service boot # close_groups consumers @ [Cancel_context, Close_producer producer]\<rparr>, w6)))))"

text \<open>The program of one process does without Kafka when its producer cannot be made; it does not register.\<close>

definition start_server ::
    "'w platform \<Rightarrow> 'w viper \<Rightarrow> (handle \<Rightarrow> handle option \<Rightarrow> handle option \<Rightarrow> 'w ext) \<Rightarrow> 'w \<Rightarrow> (string + 'w program) \<times> 'w" where
  "start_server P V ext_of w =
     or_fatal ''Failed to load config'' (LoadConfig V ''config/config.yaml'' w) (\<lambda>cfg w1.
     or_fatal ''Failed to connect to database''
       (NewPostgresWithReplicas P (DSN (cfg_Database cfg)) (ReplicaDSNs (cfg_Database cfg)) w1) (\<lambda>db w2.
     case NewRedisClient P (cfg_Redis cfg) w2 of (redis, w3) \<Rightarrow>
     or_fatal ''Failed to auto migrate''
       (gorm_AutoMigrate P db [''users'', ''products'', ''inventories'', ''orders'', ''outbox_events''] w3) (\<lambda>_ w4.
     or_fatal ''Failed to create snowflake node'' (NewNode (word_of_int (sfc_NodeID (cfg_Snowflake cfg))), w4) (\<lambda>sfNode w5.
     let pg = (\<lambda>X relay consumers defers.
           \<lparr>pg_runtime = X, pg_node = Some sfNode,
            pg_users = Some (NewUserService (jwc_Secret (cfg_JWT cfg)) (jwc_ExpireHours (cfg_JWT cfg))),
            pg_payments = None, pg_routes = server_routes cfg, pg_relay = relay, pg_consumers = consumers,
            pg_boot = (None, False), pg_deferred = defers @ [Close_redis redis]\<rparr>) in
     case NewProducer P (kc_Brokers (cfg_Kafka cfg)) (kc_Topic (cfg_Kafka cfg)) w5 of
       (Inl _, w6) \<Rightarrow> (Inr (pg (ext_of db (Some redis) None) None [] []), w6)
     | (Inr producer, w6) \<Rightarrow>
         (let X = ext_of db (Some redis) (Some (fst producer)) in
          case start_consumers P (kc_Brokers (cfg_Kafka cfg))
                 [(''order-inv-group'', ''inventory-events'', HandleInventoryEvent X),
                  (''order-pay-group'', ''payment-events'', HandlePaymentEvent X)] w6 of
            (consumers, w7) \<Rightarrow>
              (Inr (pg X (Some (NewRelay (500 * 1000000))) consumers
                     (close_groups consumers @ [Close_producer producer, Cancel_context])), w7))))))"

section \<open>The end of a program\<close>

fun run_deferred :: "'w platform \<Rightarrow> 'w nacos_sdk \<Rightarrow> deferred \<Rightarrow> 'w \<Rightarrow> 'w" where
  "run_deferred P N (Close_redis h) w = snd (redis_Close P h w)"
| "run_deferred P N (Close_producer p) w = snd (Producer_Close P p w)"
| "run_deferred P N Cancel_context w = ctx_cancel P w"
| "run_deferred P N (Close_group h) w = snd (group_Close P h w)"
| "run_deferred P N (Deregister_service boot) w = snd (deregister N boot w)"

text \<open>\<^verbatim>\<open>r.Run\<close> serves until it fails; \<^verbatim>\<open>log.Fatalf\<close> skips the deferred calls. The message is the one the process dies with.\<close>

definition run_program ::
    "'w platform \<Rightarrow> 'w nacos_sdk \<Rightarrow> ('w program \<Rightarrow> 'w \<Rightarrow> (go_error + unit) \<times> 'w) \<Rightarrow> (string + 'w program) \<times> 'w \<Rightarrow>
      string option \<times> 'w" where
  "run_program P N r_Run started =
     (case started of
        (Inl fatal, w) \<Rightarrow> (Some fatal, w)
      | (Inr pg, w) \<Rightarrow>
          (case r_Run pg w of
             (Inl err, w1) \<Rightarrow> (Some (''Failed to start server: '' @ error_text err), w1)
           | (Inr _, w1) \<Rightarrow> (None, fold (run_deferred P N) (pg_deferred pg) w1)))"

section \<open>What a start touches\<close>

text \<open>Libraries that leave something alone, here what the registry holds.\<close>

locale quiet_platform =
  fixes rest :: "'w \<Rightarrow> 'r" and P :: "'w platform" and V :: "'w viper"
  assumes viper_law: "viper_ReadInConfig V s w = (ur, w') \<Longrightarrow> rest w' = rest w"
      "viper_Unmarshal V s w = (cr, w') \<Longrightarrow> rest w' = rest w"
    and gorm_law: "gorm_Open P dsn w = (hr, w') \<Longrightarrow> rest w' = rest w" "gorm_DB P h w = (hr, w') \<Longrightarrow> rest w' = rest w"
      "gorm_Use_replicas P h dsns w = (ur, w') \<Longrightarrow> rest w' = rest w" "gorm_AutoMigrate P h models w = (ur, w') \<Longrightarrow> rest w' = rest w"
    and sql_law: "rest (sql_SetMaxOpenConns P h n w) = rest w" "rest (sql_SetMaxIdleConns P h n w) = rest w"
    and redis_law: "redis_NewClient P opts w = (h, w') \<Longrightarrow> rest w' = rest w" "redis_Ping P h w = (ur, w') \<Longrightarrow> rest w' = rest w"
    and sarama_law: "sarama_NewSyncProducer P brokers pc w = (hr, w') \<Longrightarrow> rest w' = rest w"
      "sarama_NewConsumerGroup P brokers g gc w = (hr, w') \<Longrightarrow> rest w' = rest w"
begin

lemma connections_rest:
  "LoadConfig V path w = (cr, w') \<Longrightarrow> rest w' = rest w"
  "NewPostgres P dsn w = (hr, w') \<Longrightarrow> rest w' = rest w"
  "NewRedisClient P rc w = (h, w') \<Longrightarrow> rest w' = rest w"
  "NewProducer P brokers topic w = (pr, w') \<Longrightarrow> rest w' = rest w"
  "NewConsumer P brokers g topic handler w = (sr, w') \<Longrightarrow> rest w' = rest w"
  by (auto simp: LoadConfig_def NewPostgres_def NewRedisClient_def NewProducer_def NewConsumer_def Let_def sql_law
      split: prod.splits sum.splits dest!: viper_law gorm_law redis_law sarama_law)

lemma replicas_rest: "NewPostgresWithReplicas P dsn dsns w = (hr, w') \<Longrightarrow> rest w' = rest w"
  by (auto simp: NewPostgresWithReplicas_def split: prod.splits sum.splits if_splits dest!: connections_rest(2) gorm_law(3))

lemma start_consumers_rest: "start_consumers P brokers groups w = (cs, w') \<Longrightarrow> rest w' = rest w"
proof (induction groups arbitrary: w cs)
  case (Cons g groups)
  then show ?case by (cases g) (auto split: prod.splits sum.splits dest!: connections_rest(5))
qed simp

lemmas start_rest = connections_rest replicas_rest start_consumers_rest gorm_law(4)

text \<open>A program that dies before it serves has touched nothing of it, and one that serves has registered last.\<close>

lemma start_order_rest:
  "case start_order_service P V N ext_of w of
     (Inl m, w') \<Rightarrow> rest w' = rest w | (Inr pg, w') \<Rightarrow> \<exists>cfg v. rest v = rest w \<and> BootstrapService N cfg v = (pg_boot pg, w')"
  by (auto simp: start_order_service_def or_fatal_def Let_def split: prod.split sum.split dest!: start_rest) metis

lemma start_inventory_rest:
  "case start_inventory_service P V N ext_of w of
     (Inl m, w') \<Rightarrow> rest w' = rest w | (Inr pg, w') \<Rightarrow> \<exists>cfg v. rest v = rest w \<and> BootstrapService N cfg v = (pg_boot pg, w')"
  by (auto simp: start_inventory_service_def or_fatal_def Let_def split: prod.split sum.split dest!: start_rest) metis

lemma start_payment_rest:
  "case start_payment_service P V N ext_of w of
     (Inl m, w') \<Rightarrow> rest w' = rest w
   | (Inr pg, w') \<Rightarrow> \<exists>cfg v s item. rest v = rest w \<and> payment_startup N cfg v = ((s, pg_boot pg, item), w')"
  by (auto simp: start_payment_service_def or_fatal_def Let_def split: prod.split sum.split dest!: start_rest) metis

lemma start_server_rest:
  "case start_server P V ext_of w of
     (Inl m, w') \<Rightarrow> rest w' = rest w | (Inr pg, w') \<Rightarrow> rest w' = rest w \<and> pg_boot pg = (None, False)"
  by (auto simp: start_server_def or_fatal_def Let_def split: prod.split sum.split dest!: start_rest)

end

lemma ok_platform_quiet:
  assumes "\<And>s w. snd (viper_ReadInConfig V s w) = w" "\<And>s w. snd (viper_Unmarshal V s w) = w"
  shows "quiet_platform rest ok_platform V"
  by unfold_locales (use assms in \<open>auto simp: ok_platform_def prod_eq_iff\<close>)

text \<open>A configuration file that holds a given configuration.\<close>

definition file_viper :: "Config \<Rightarrow> 'w viper" where
  "file_viper cfg = \<lparr>viper_ReadInConfig = (\<lambda>s w. (Inr (), w)), viper_Unmarshal = (\<lambda>s w. (Inr cfg, w))\<rparr>"

lemma file_viper_quiet: "quiet_platform rest ok_platform (file_viper cfg)"
  by (rule ok_platform_quiet) (simp_all add: file_viper_def)

interpretation demo_libraries: quiet_platform "\<lambda>w. w" ok_platform "file_viper cfg" for cfg
  by (rule file_viper_quiet)

context naming_service
begin

lemma payment_startup_registers:
  assumes "payment_startup N cfg w = ((s, (mc, live), item), w')"
  shows "if live then \<exists>c. mc = Some c \<and> registered w' = insert (registration_of c) (registered w)
    else registered w' = registered w \<or> (\<exists>x. registered w' = insert x (registered w))"
proof -
  obtain b w1 where boot: "BootstrapService N cfg w = (b, w1)" by fastforce
  have "b = (mc, live)" "registered w' = registered w1"
    using assms boot watching_law(3) by (auto simp: payment_startup_def ListenConfig_def Let_def split: option.splits prod.splits sum.splits)
  then show ?thesis using Bootstrap_result [of cfg w mc live w1] boot by (auto split: if_splits)
qed

end

section \<open>What has been started\<close>

definition listening :: "'w Consumer list \<Rightarrow> 'w consumer list" where
  "listening = map (\<lambda>c. (cs_topic c, cs_handler c))"

text \<open>Sarama makes every consumer group it is asked for.\<close>

definition groups_connect :: "'w platform \<Rightarrow> bool" where
  "groups_connect P \<longleftrightarrow> (\<forall>brokers g gc w. \<exists>h. fst (sarama_NewConsumerGroup P brokers g gc w) = Inr h)"

lemma NewConsumer_connects: "groups_connect P \<Longrightarrow> NewConsumer P brokers g t h w \<noteq> (Inl err, w')"
  unfolding groups_connect_def NewConsumer_def
  by (auto split: prod.splits sum.splits) (metis fst_conv sum.distinct(1))

lemma start_consumers_listening:
  assumes "start_consumers P brokers groups w = (cs, w')"
  shows "subseq (listening cs) (map snd groups) \<and> (groups_connect P \<longrightarrow> listening cs = map snd groups)"
  using assms
proof (induction groups arbitrary: w cs w')
  case (Cons g groups)
  obtain gid t h where g: "g = (gid, t, h)" by (cases g)
  obtain r w1 where new: "NewConsumer P brokers gid t h w = (r, w1)" by fastforce
  obtain cs1 w2 where rest: "start_consumers P brokers groups w1 = (cs1, w2)" by fastforce
  note IH = Cons.IH [OF rest]
  show ?case
  proof (cases r)
    case (Inl err)
    then have "cs = cs1" "\<not> groups_connect P"
      using Cons.prems g new rest NewConsumer_connects [of P brokers gid t h w err w1] by auto
    then show ?thesis using IH by (auto intro: list_emb_Cons)
  next
    case (Inr c)
    then have "cs = c # cs1" "cs_topic c = t" "cs_handler c = h"
      using Cons.prems g new rest NewConsumer_fields [of P brokers gid t h w c w1] by auto
    then show ?thesis using IH g by (simp add: listening_def)
  qed
qed (simp add: listening_def)

lemma groups_consumers:
  "map snd (order_groups X cfg) = order_consumers (\<lambda>_. True) X cfg"
  "map snd (inventory_groups Y cfg) = inventory_consumers (\<lambda>_. True) Y cfg"
  "map snd (payment_groups Z s cfg) = payment_consumers (\<lambda>_. True) Z s cfg"
  by (auto simp: order_groups_def order_consumers_def inventory_groups_def inventory_consumers_def payment_groups_def
      payment_consumers_def map_concat o_def cong: if_cong intro!: arg_cong [of _ _ concat])

lemma start_order_result:
  assumes "start_order_service P V N ext_of w = (Inr pg, w')"
  shows "\<exists>cfg v. LoadConfig V ''config/config.yaml'' w = (Inr cfg, v) \<and> pg_routes pg = order_service_routes cfg
    \<and> pg_relay pg = Some (NewRelay (outbox_interval cfg))
    \<and> pg_users pg = Some (NewUserService (jwc_Secret (cfg_JWT cfg)) (jwc_ExpireHours (cfg_JWT cfg)))
    \<and> Inr (the (pg_node pg)) = NewNode (word_of_int (sfc_NodeID (cfg_Snowflake cfg)))
    \<and> (\<exists>u u'. start_consumers P (kc_Brokers (cfg_Kafka cfg)) (order_groups (pg_runtime pg) cfg) u = (pg_consumers pg, u'))"
  using assms
  by (auto simp: start_order_service_def or_fatal_def Let_def split: prod.splits sum.splits) blast

lemma start_inventory_result:
  assumes "start_inventory_service P V N ext_of w = (Inr pg, w')"
  shows "\<exists>cfg v. LoadConfig V ''config/config.yaml'' w = (Inr cfg, v) \<and> pg_routes pg = inventory_service_routes cfg
    \<and> pg_relay pg = Some (NewRelay (outbox_interval cfg))
    \<and> (\<exists>u u'. start_consumers P (kc_Brokers (cfg_Kafka cfg)) (inventory_groups (pg_runtime pg) cfg) u = (pg_consumers pg, u'))"
  using assms
  by (auto simp: start_inventory_service_def or_fatal_def Let_def split: prod.splits sum.splits) blast

lemma start_payment_result:
  assumes "start_payment_service P V N ext_of w = (Inr pg, w')"
  shows "\<exists>cfg v. LoadConfig V ''config/config.yaml'' w = (Inr cfg, v) \<and> pg_relay pg = Some (NewRelay (outbox_interval cfg))
    \<and> pg_payments pg = Some (NewPaymentService (startup_rate (pc_SuccessRate (cfg_Payment cfg))))
    \<and> (\<exists>u u'. start_consumers P (kc_Brokers (cfg_Kafka cfg)) (payment_groups (pg_runtime pg) (the (pg_payments pg)) cfg) u
        = (pg_consumers pg, u'))"
proof -
  have "s = NewPaymentService (startup_rate (pc_SuccessRate (cfg_Payment cfg)))"
    if "payment_startup N cfg v = ((s, boot, item), v')" for cfg v s boot item v'
    using payment_startup_result [OF that] by simp
  then show ?thesis using assms
    by (auto simp: start_payment_service_def or_fatal_def Let_def split: prod.splits sum.splits) blast+
qed

lemma NewNode_accepts:
  assumes "0 \<le> i" "i \<le> 1023"
  shows "\<exists>n. NewNode (word_of_int i) = Inr n"
proof -
  have "sint (word_of_int i :: 64 word) = i" using assms by (simp add: sint_sbintrunc' signed_take_bit_int_eq_self)
  then show ?thesis using assms by (simp add: NewNode_def nodeMax_val word_sless_alt)
qed

section \<open>Properties\<close>


text \<open>C39: Redis, the consumers and Nacos are not needed to start, nor is Kafka in the program of one process.
  With a configuration, a database that opens and migrates, and a node number of ten bits, the server always
  starts; the order service starts exactly if the producer can be made, whatever else fails, and then
  serves its routes and relays at the configured interval.\<close>

theorem only_essential_failures_are_fatal:
  assumes "\<And>w. fst (LoadConfig V ''config/config.yaml'' w) = Inr cfg"
    and "\<And>dsn dsns w. \<exists>db. fst (NewPostgresWithReplicas P dsn dsns w) = Inr db"
    and "\<And>db models w. fst (gorm_AutoMigrate P db models w) = Inr ()"
    and "0 \<le> sfc_NodeID (cfg_Snowflake cfg)" "sfc_NodeID (cfg_Snowflake cfg) \<le> 1023"
    and "\<And>brokers pc v. (\<exists>h. fst (sarama_NewSyncProducer P brokers pc v) = Inr h) = kafka_up"
  shows "(\<exists>pg w'. start_server P V ext_of w = (Inr pg, w') \<and> pg_routes pg = server_routes cfg
      \<and> pg_relay pg = (if kafka_up then Some (NewRelay (500 * 1000000)) else None))
    \<and> (if kafka_up
       then \<exists>pg w'. start_order_service P V N ext_of w = (Inr pg, w') \<and> pg_routes pg = order_service_routes cfg
         \<and> pg_relay pg = Some (NewRelay (outbox_interval cfg))
       else \<exists>m w'. start_order_service P V N ext_of w = (Inl (''Failed to create Kafka producer: '' @ m), w'))"
proof -
  obtain w1 where load: "LoadConfig V ''config/config.yaml'' w = (Inr cfg, w1)" using assms(1) by (metis prod.collapse)
  obtain db w2 where open_db: "NewPostgresWithReplicas P (DSN (cfg_Database cfg)) (ReplicaDSNs (cfg_Database cfg)) w1 = (Inr db, w2)"
    using assms(2) by (metis prod.collapse)
  obtain redis w3 where redis: "NewRedisClient P (cfg_Redis cfg) w2 = (redis, w3)" by fastforce
  have migrate: "\<exists>w4. gorm_AutoMigrate P db models w3 = (Inr (), w4)" for models using assms(3) by (metis prod.collapse)
  obtain node where node: "NewNode (word_of_int (sfc_NodeID (cfg_Snowflake cfg))) = Inr node"
    using NewNode_accepts [OF assms(4,5)] by blast
  have kafka: "if kafka_up then \<exists>p v'. NewProducer P brokers topic v = (Inr p, v')
      else \<exists>err v'. NewProducer P brokers topic v = (Inl (Errorf ''failed to create kafka producer'' err), v')" for brokers topic v
    using assms(6) [of brokers _ v] unfolding NewProducer_def by (auto split: prod.splits sum.splits) (metis fst_conv sum.distinct(1))+
  obtain w4 where mig: "gorm_AutoMigrate P db [''users'', ''products'', ''orders'', ''outbox_events''] w3 = (Inr (), w4)"
    using migrate by blast
  obtain w5 where mig': "gorm_AutoMigrate P db [''users'', ''products'', ''inventories'', ''orders'', ''outbox_events''] w3 = (Inr (), w5)"
    using migrate by blast
  note steps = load open_db redis mig mig' node or_fatal_def Let_def
  show ?thesis
    using kafka [of "kc_Brokers (cfg_Kafka cfg)" "kc_Topic (cfg_Kafka cfg)" w5]
      kafka [of "kc_Brokers (cfg_Kafka cfg)" "kc_ProduceTopic (cfg_Kafka cfg)" w4]
    by (cases kafka_up) (auto simp: start_server_def start_order_service_def steps split: prod.split)
qed


section \<open>Witnesses\<close>

text \<open>A runtime all of whose calls fail; nothing of the following is served.\<close>

definition idle_table :: "('w, 'row) table_api" where
  "idle_table =
     \<lparr>db_First = (\<lambda>p w. (Inl (ErrExternal ''down''), w)), db_FirstForUpdate = (\<lambda>p w. (Inl (ErrExternal ''down''), w)),
      db_Create = (\<lambda>row w. (Inl (ErrExternal ''down''), w)), db_Save = (\<lambda>row w. (Inl (ErrExternal ''down''), w)),
      db_Updates = (\<lambda>p f w. (Inl (ErrExternal ''down''), w)), db_Delete = (\<lambda>p w. (Inl (ErrExternal ''down''), w)),
      db_Count = (\<lambda>p w. (Inl (ErrExternal ''down''), w)), db_Find = (\<lambda>p key off lim w. (Inl (ErrExternal ''down''), w))\<rparr>"

definition idle_ext :: "'w ext" where
  "idle_ext =
     \<lparr>inventories_tbl = idle_table, orders_tbl = idle_table, payments_tbl = idle_table, products_tbl = idle_table,
      outbox_tbl = idle_table, users_tbl = idle_table, db_Transaction = (\<lambda>f w. (Inl (ErrExternal ''down''), w)),
      rdb_SetNX = (\<lambda>k v ttl w. (Inl (ErrExternal ''down''), w)), rdb_Get = (\<lambda>k w. (Inl (ErrExternal ''down''), w)),
      rdb_Set = (\<lambda>k v ttl w. (Inl (ErrExternal ''down''), w)), rdb_Del = (\<lambda>k w. (Inl (ErrExternal ''down''), w)),
      rdb_DecrBy = (\<lambda>k n w. (Inl (ErrExternal ''down''), w)), rdb_IncrBy = (\<lambda>k n w. (Inl (ErrExternal ''down''), w)),
      kafka_SendMessage = (\<lambda>topic key val w. (Inl (ErrExternal ''down''), w)), time_Now = (\<lambda>w. (0, w)),
      uuid_New = (\<lambda>w. (''id'', w)), rand_Float64 = (\<lambda>w. (f64_zero, w)), rand_Intn = (\<lambda>n w. (0, w))\<rparr>"

definition demo_service :: Config where
  "demo_service = demo_config\<lparr>cfg_Kafka := (cfg_Kafka demo_config)\<lparr>kc_ConsumerGroups :=
     [\<lparr>cg_GroupID = ''a'', cg_Topic = ''payment-events''\<rparr>, \<lparr>cg_GroupID = ''b'', cg_Topic = ''other''\<rparr>]\<rparr>\<rparr>"

definition demo_registry :: "registration list nacos_sdk" where
  "demo_registry = mem_nacos True [IPNet False (Some ''10.0.0.7'')]"


text \<open>A platform without a broker.\<close>

theorem only_essential_failures_are_fatal_witness:
  "\<exists>pg w'. start_server (ok_platform\<lparr>sarama_NewSyncProducer := \<lambda>brokers pc w. (Inl (ErrExternal ''no broker''), w)\<rparr>)
       (file_viper demo_service) (\<lambda>_ _ _. idle_ext) [] = (Inr pg, w' :: registration list) \<and> pg_relay pg = None"
proof -
  let ?P = "ok_platform\<lparr>sarama_NewSyncProducer := \<lambda>brokers pc w. (Inl (ErrExternal ''no broker''), w)\<rparr> :: registration list platform"
  have up: "fst (LoadConfig (file_viper demo_service) ''config/config.yaml'' w) = Inr demo_service"
    "\<exists>db. fst (NewPostgresWithReplicas ?P dsn dsns w) = Inr db" "fst (gorm_AutoMigrate ?P db models w) = Inr ()"
    "(\<exists>h. fst (sarama_NewSyncProducer ?P brokers pc w) = Inr h) = False" for w dsn dsns db models brokers pc
    by (simp_all add: LoadConfig_def file_viper_def NewPostgresWithReplicas_def NewPostgres_def ok_platform_def)
  have "0 \<le> sfc_NodeID (cfg_Snowflake demo_service)" "sfc_NodeID (cfg_Snowflake demo_service) \<le> 1023"
    by (simp_all add: demo_service_def demo_config_def)
  from only_essential_failures_are_fatal [OF up(1-3) this up(4)] show ?thesis by fastforce
qed


end
