(* ===== verification/Spec2Isabelle.thy ===== *)
theory Spec2Isabelle
  imports Product Saga Gateway_Main Programs
begin

text \<open>
  \<^bold>\<open>The program.\<close> A flash-sale shop in Go (src/flash-sale): an order service, an inventory service
  and a payment service, each with its own PostgreSQL database, which settle purchases by a saga
  over Kafka, with events stored in a transactional outbox; a gateway in front of them that routes,
  limits and proxies requests; and an older program (cmd/server) that runs the HTTP side in one
  process. Users, products and orders are served over HTTP with JSON Web Tokens; products are cached
  in Redis, which also holds the counters of the flash sale, the keys that let a user buy a product
  once, and the results that are polled. Services find each other through Nacos.

  \<^bold>\<open>How it is modelled.\<close> Go structs are records, errors are the datatype \<open>go_error\<close>, a function that
  may fail returns \<open>go_error + 'a\<close>, and code with effects passes an abstract world \<open>'w\<close> along.
  Machine integers are \<open>int\<close> with \<open>wrap64\<close> where they can overflow, or 64-bit words in the generator
  of identifiers; \<^verbatim>\<open>float64\<close> is modelled by its bits. What the code calls but does not contain
  (GORM and PostgreSQL, Redis, Kafka, the clock, random numbers, UUIDs, bcrypt, the JWT library,
  Nacos, Sentinel, gin's routing and decoding, \<^verbatim>\<open>sort.Slice\<close>) is a record of functions passed to
  the definitions, and a locale states what is relied on; a reference store in memory, which can
  fail and can be interrupted by other sessions, and reference libraries show that every one of
  these contracts can hold.

  \<^bold>\<open>Theories.\<close>
  \<^item> \<open>Prelude\<close>, \<open>Float64\<close>, \<open>Models\<close> (the \<^verbatim>\<open>model.go\<close> files and the schemas of the tables),
    \<open>Store\<close> (the contracts of table, transaction, Redis, Kafka and process inputs), \<open>Runtime\<close> (all of
    them together: with interference by other sessions, without, and without failures),
    \<open>Reference_Store\<close> (their interpretation), \<open>Invariants\<close> (a calculus of calls that keep a predicate).
  \<^item> \<open>Event\<close> and \<open>Outbox\<close>: pkg/event and pkg/outbox; payloads survive JSON and the \<^verbatim>\<open>jsonb\<close>
    column, the relay marks only what it has published, and its loop (\<open>Relay_Start\<close>) drains the outbox.
  \<^item> \<open>Kafka\<close>, \<open>Kafka_Consumer\<close>: pkg/kafka; a sent message is in its topic, and a committed one has been given
    to the handler, in order, through sessions that break off.
  \<^item> \<open>Snowflake\<close>: pkg/snowflake; identifiers strictly increase, differ between nodes, and the
    waiting loop (\<open>partial_function\<close>) ends on a clock that ticks.
  \<^item> \<open>Inventory\<close>, \<open>Inventory_Events\<close>: internal/inventory; the service refines reserving, releasing and
    confirming on an abstract stock, also among other sessions; its event handler answers every event.
  \<^item> \<open>Product\<close>: internal/product; the cached service answers like the one on the database.
  \<^item> \<open>Keys\<close>, \<open>Order\<close>, \<open>Order_Events\<close>: internal/order; a request is carried out or leaves no trace;
    what the answers of the other services do to an order; the table stays well formed.
  \<^item> \<open>Payment\<close>: internal/payment and the success rate of cmd/payment-service.
  \<^item> \<open>Consumers\<close>, \<open>Saga\<close>: the consumer groups of the three programs, and a purchase across the
    three services until it is paid or taken back.
  \<^item> \<open>Platform\<close>: the connections of pkg/database, pkg/cache and pkg/kafka, and \<open>LoadConfig\<close>, over the
    libraries' calls; the loop of a consumer (\<open>Start\<close>).
  \<^item> \<open>Programs\<close>: the main functions of cmd/server and of the three services, from the configuration to the
    deferred calls; what a start needs, what it runs, and what the registry holds of it.
  \<^item> \<open>Config\<close>, \<open>Registry\<close>, \<open>Gateway\<close>: pkg/config, pkg/registry and the parts of cmd/gateway; registering
    is undone by deregistering, the longest prefix wins, every Sentinel entry is exited.
  \<^item> \<open>Gateway_Main\<close>: the gateway's start, router and end, and the updates of its pools as a step relation
    (\<open>gateway_step\<close>) that refines a list of reports; only healthy instances are used, and without Nacos none.
  \<^item> \<open>Http\<close>, \<open>Handlers\<close>, \<open>Users\<close>: pkg/response, internal/middleware, the handlers of all modules and
    internal/user; the status of an answer tells what happened, a token authenticates the user it
    was issued to.
  \<^item> \<open>Server\<close>: the routes and middleware of cmd/server, cmd/order-service and cmd/inventory-service;
    a request cannot exceed the rights of its session.
  \<^item> This theory: the deployed gateway in front of the services' routes, and the saga of \<open>Saga\<close> run by the
    consumers that the programs of \<open>Programs\<close> have started.

  Definitions keep the name of the Go function, with its receiver as a prefix where two would
  clash (\<open>ProductService_Update\<close>, \<open>OrderHandler_CreateOrder\<close>); the body of a transaction that is a
  closure in Go has the suffix \<open>_tx\<close>. Each theory has the definitions of its files first, then
  lemmas about every operation on every branch, usually named \<open>_result\<close> (any outcome) and
  \<open>_reliable\<close> (nothing fails by itself), then the numbered properties, then scenarios and witnesses
  on the reference store. Some theorems without a number state behaviour that is hardly meant, such
  as a redelivered event that reserves or pays twice.

  \<^bold>\<open>Bounds.\<close> The only loops are the three attempts of \<open>Deduct\<close> (recursion on the attempts left), the
  loops over lists, and the waiting loop of \<open>Generate\<close>, which may not return: requests that need an
  order number return an option. The loop of a consumer may not return either (\<open>partial_function\<close>, with
  \<open>Start_returns\<close> for when it does); the loop of the relay runs over the list of what its \<^verbatim>\<open>select\<close>
  receives, a tick or the end of the context.

  \<^bold>\<open>Not modelled.\<close> The expiry of Redis keys; concurrent callers of one \<^verbatim>\<open>singleflight\<close> group; reads
  from replicas that lag behind; log lines, timeouts and the payment's sleep; the validator's
  messages; the access logs of the routers. A goroutine is modelled as the call it makes (\<open>Start\<close>,
  \<open>Relay_Start\<close>); that goroutines of one process run at once appears as the interference of \<open>Runtime\<close>. What
  the libraries do when they connect, migrate, read the configuration file or serve is theirs: these calls are
  the records \<open>platform\<close> and \<open>viper\<close> and the argument \<open>r_Run\<close>.
\<close>

section \<open>The gateway in front of the services\<close>

text \<open>The routes of \<^verbatim>\<open>config/gateway.yaml\<close>.\<close>

definition deployed_routes :: "RouteConfig list" where
  "deployed_routes =
     [\<lparr>rc_PathPrefix = ''/api/v1/seckill'', rc_ServiceName = ''order-service'', rc_Resource = ''route:seckill''\<rparr>,
      \<lparr>rc_PathPrefix = ''/api/v1/auth'', rc_ServiceName = ''order-service'', rc_Resource = ''route:auth''\<rparr>,
      \<lparr>rc_PathPrefix = ''/api/v1/user'', rc_ServiceName = ''order-service'', rc_Resource = ''route:user''\<rparr>,
      \<lparr>rc_PathPrefix = ''/api/v1/products'', rc_ServiceName = ''order-service'', rc_Resource = ''route:products''\<rparr>,
      \<lparr>rc_PathPrefix = ''/api/v1/orders'', rc_ServiceName = ''order-service'', rc_Resource = ''route:orders''\<rparr>,
      \<lparr>rc_PathPrefix = ''/api/v1/inventory'', rc_ServiceName = ''inventory-service'', rc_Resource = ''route:inventory''\<rparr>]"

text \<open>What precedes the parameters of a pattern, with which every path that matches it begins.\<close>

definition static_part :: "string \<Rightarrow> string" where
  "static_part pattern = takeWhile (\<lambda>c. c \<noteq> CHR '':'') pattern"

text \<open>No two deployed prefixes begin one path.\<close>

lemma deployed_prefixes_apart:
  "pairwise (\<lambda>a b. \<not> prefix (rc_PathPrefix a) (rc_PathPrefix b)) (set deployed_routes)"
  unfolding deployed_routes_def pairwise_def by simp

lemma deployed_match:
  assumes "slice_sort sort_Slice" "gc_Routes (cfg_Gateway cfg) = deployed_routes"
    and "a \<in> set deployed_routes" "prefix (rc_PathPrefix a) path"
  shows "matchRoute (buildRoutes sort_Slice cfg) path = Some (route_of a)"
proof -
  have "sorted_wrt (\<lambda>x y. length (rt_prefix x) \<ge> length (rt_prefix y)) (buildRoutes sort_Slice cfg)"
    unfolding buildRoutes_alt by (rule slice_sort.ordered [OF assms(1)]) simp
  note first = matchRoute_first [OF this, of path]
  have routes: "set (buildRoutes sort_Slice cfg) = route_of ` set deployed_routes"
    using buildRoutes_set [OF assms(1)] assms(2) by metis
  show ?thesis
  proof (cases "matchRoute (buildRoutes sort_Slice cfg) path")
    case None
    then show ?thesis using first assms(3,4) routes by auto
  next
    case (Some r)
    then obtain b where b: "b \<in> set deployed_routes" "r = route_of b" "prefix (rc_PathPrefix b) path"
      using first routes by auto
    have "b = a"
      using deployed_prefixes_apart b(1) assms(3) prefix_same_cases [OF b(3) assms(4)] unfolding pairwise_def by metis
    then show ?thesis using Some b(2) by simp
  qed
qed

lemma deployed_limited:
  "gc_Routes (cfg_Gateway cfg) = deployed_routes \<Longrightarrow> a \<in> set deployed_routes \<Longrightarrow>
     rt_resource (route_of a) \<in> fr_Resource ` set (flow_rules cfg)"
  unfolding flow_rules_def flow_rule_def Let_def by (auto simp: deployed_routes_def route_of_def)

text \<open>Each registered pattern begins with a deployed prefix of its service.\<close>

definition deployed_for :: "string \<Rightarrow> string \<Rightarrow> bool" where
  "deployed_for svc pattern \<longleftrightarrow> (\<exists>a\<in>set deployed_routes. rc_ServiceName a = svc \<and> prefix (rc_PathPrefix a) (static_part pattern))"

lemma patterns_deployed:
  "\<forall>r\<in>set (order_service_routes cfg). rg_Pattern r = ''/health'' \<or> deployed_for ''order-service'' (rg_Pattern r)"
  "\<forall>r\<in>set (inventory_service_routes cfg). rg_Pattern r = ''/health'' \<or> deployed_for ''inventory-service'' (rg_Pattern r)"
  by (simp_all add: route_defs handle_def Group_def Use_def root_group_def deployed_for_def deployed_routes_def static_part_def)



section \<open>The started services and the saga\<close>


text \<open>The services on stores in memory, with a registry that does not answer.\<close>

definition no_registry :: "'w nacos_sdk" where
  "no_registry =
     \<lparr>NewNamingClient = (\<lambda>cc sc w. (Inl (ErrExternal ''down''), w)), NewConfigClient = (\<lambda>cc sc w. (Inl (ErrExternal ''down''), w)),
      naming_RegisterInstance = (\<lambda>ri w. (Inl (ErrExternal ''down''), w)), naming_DeregisterInstance = (\<lambda>di w. (Inl (ErrExternal ''down''), w)),
      naming_SelectInstances = (\<lambda>svc grp b w. (Inl (ErrExternal ''down''), w)), naming_Subscribe = (\<lambda>svc grp w. (Inl (ErrExternal ''down''), w)),
      config_GetConfig = (\<lambda>i grp w. (Inl (ErrExternal ''down''), w)), config_PublishConfig = (\<lambda>i grp c w. (Inl (ErrExternal ''down''), w)),
      config_ListenConfig = (\<lambda>i grp w. (Inl (ErrExternal ''down''), w)), net_InterfaceAddrs = (\<lambda>w. (Inl (ErrExternal ''down''), w))\<rparr>"


end
